(* ===== verification/Prelude.thy ===== *)
theory Prelude
  imports
    Main
    "HOL-Library.Char_ord"
    "HOL-Library.List_Lexorder"
    "HOL-Library.Multiset"
begin

text \<open>
  What the components share: results of fallible Rust functions, Rust strings as lists of
  UTF-8 bytes with \<^verbatim>\<open>str::trim\<close> and the decimal conversions of \<^verbatim>\<open>u64\<close>, saturating and
  checked \<^verbatim>\<open>u64\<close> arithmetic on natural numbers with the bound written out, and generic
  lemmas on lists, options and maps.

  A Rust \<^verbatim>\<open>String\<close> is a \<open>string\<close> of its UTF-8 bytes: Rust compares strings byte by byte, which
  is the lexicographic order of \<open>HOL-Library.List_Lexorder\<close> over the code order of
  \<open>HOL-Library.Char_ord\<close>.
\<close>

named_theorems result_simps \<open>rewriting of chained fallible computations\<close>
named_theorems rust_string_simps \<open>evaluation of Rust string operations\<close>


section \<open>Definitions\<close>

subsection \<open>Results\<close>

text \<open>\<^verbatim>\<open>Result<T, E>\<close>: the error on the left.\<close>

type_synonym ('a, 'e) result = "'e + 'a"

abbreviation Ok :: "'a \<Rightarrow> ('a, 'e) result" where
  "Ok \<equiv> Inr"

abbreviation Err :: "'e \<Rightarrow> ('a, 'e) result" where
  "Err \<equiv> Inl"

text \<open>The \<^verbatim>\<open>?\<close> operator.\<close>

definition and_then :: "('a, 'e) result \<Rightarrow> ('a \<Rightarrow> ('b, 'e) result) \<Rightarrow> ('b, 'e) result" where
  "and_then r f = (case r of Inl e \<Rightarrow> Inl e | Inr x \<Rightarrow> f x)"

definition ok_or :: "'a option \<Rightarrow> 'e \<Rightarrow> ('a, 'e) result" where
  "ok_or v e = (case v of None \<Rightarrow> Inl e | Some x \<Rightarrow> Inr x)"

fun is_ok :: "('a, 'e) result \<Rightarrow> bool" where
  "is_ok (Inl _) = False"
| "is_ok (Inr _) = True"

text \<open>\<^verbatim>\<open>iter().map(f).collect::<Result<Vec<_>, _>>()\<close>: the first error wins.\<close>

fun collect_results :: "('a \<Rightarrow> ('b, 'e) result) \<Rightarrow> 'a list \<Rightarrow> ('b list, 'e) result" where
  "collect_results f [] = Inr []"
| "collect_results f (x # xs) =
     (case f x of
        Inl e \<Rightarrow> Inl e
      | Inr y \<Rightarrow> (case collect_results f xs of Inl e \<Rightarrow> Inl e | Inr ys \<Rightarrow> Inr (y # ys)))"

subsection \<open>Unsigned 64-bit arithmetic\<close>

definition u64_max :: nat where
  "u64_max = 18446744073709551615"

definition u32_max :: nat where
  "u32_max = 4294967295"

definition saturating_add :: "nat \<Rightarrow> nat \<Rightarrow> nat" where
  "saturating_add a b = min (a + b) u64_max"

definition checked_add :: "nat \<Rightarrow> nat \<Rightarrow> nat option" where
  "checked_add a b = (if a + b \<le> u64_max then Some (a + b) else None)"

subsection \<open>Rust strings\<close>

text \<open>
  \<^verbatim>\<open>char::is_whitespace\<close> on UTF-8: the ASCII whitespace bytes, the two-byte encodings of
  U+0085 and U+00A0, and the three-byte encodings of U+1680, U+2000 to U+200A, U+2028,
  U+2029, U+202F, U+205F and U+3000.
\<close>

definition ws1 :: "char \<Rightarrow> bool" where
  "ws1 a \<longleftrightarrow> a = CHR 0x20 \<or> (9 \<le> (of_char a :: nat) \<and> (of_char a :: nat) \<le> 13)"

definition ws2 :: "char \<Rightarrow> char \<Rightarrow> bool" where
  "ws2 a b \<longleftrightarrow> a = CHR 0xC2 \<and> (b = CHR 0x85 \<or> b = CHR 0xA0)"

definition ws3 :: "char \<Rightarrow> char \<Rightarrow> char \<Rightarrow> bool" where
  "ws3 a b c \<longleftrightarrow>
     (a = CHR 0xE1 \<and> b = CHR 0x9A \<and> c = CHR 0x80)
   \<or> (a = CHR 0xE2 \<and> b = CHR 0x80 \<and>
        ((128 \<le> (of_char c :: nat) \<and> (of_char c :: nat) \<le> 138)
         \<or> c = CHR 0xA8 \<or> c = CHR 0xA9 \<or> c = CHR 0xAF))
   \<or> (a = CHR 0xE2 \<and> b = CHR 0x81 \<and> c = CHR 0x9F)
   \<or> (a = CHR 0xE3 \<and> b = CHR 0x80 \<and> c = CHR 0x80)"

text \<open>The rest of the string after one leading whitespace character, if it has one.\<close>

definition skip_ws :: "string \<Rightarrow> string option" where
  "skip_ws s =
     (case s of
        [] \<Rightarrow> None
      | a # s1 \<Rightarrow>
          if ws1 a then Some s1
          else (case s1 of
                  [] \<Rightarrow> None
                | b # s2 \<Rightarrow>
                    if ws2 a b then Some s2
                    else (case s2 of
                            [] \<Rightarrow> None
                          | c # s3 \<Rightarrow> if ws3 a b c then Some s3 else None)))"

text \<open>The same at the end of a string, whose bytes are given last first.\<close>

definition skip_ws_rev :: "string \<Rightarrow> string option" where
  "skip_ws_rev s =
     (case s of
        [] \<Rightarrow> None
      | a # s1 \<Rightarrow>
          if ws1 a then Some s1
          else (case s1 of
                  [] \<Rightarrow> None
                | b # s2 \<Rightarrow>
                    if ws2 b a then Some s2
                    else (case s2 of
                            [] \<Rightarrow> None
                          | c # s3 \<Rightarrow> if ws3 c b a then Some s3 else None)))"

lemma skip_ws_shorter: "skip_ws s = Some r \<Longrightarrow> length r < length s"
  by (auto simp: skip_ws_def split: list.splits if_splits)

lemma skip_ws_rev_shorter: "skip_ws_rev s = Some r \<Longrightarrow> length r < length s"
  by (auto simp: skip_ws_rev_def split: list.splits if_splits)

function trim_start :: "string \<Rightarrow> string" where
  "trim_start s = (case skip_ws s of None \<Rightarrow> s | Some r \<Rightarrow> trim_start r)"
  by pat_completeness auto
termination
  by (relation "measure length") (auto dest: skip_ws_shorter)

function trim_end_rev :: "string \<Rightarrow> string" where
  "trim_end_rev s = (case skip_ws_rev s of None \<Rightarrow> s | Some r \<Rightarrow> trim_end_rev r)"
  by pat_completeness auto
termination
  by (relation "measure length") (auto dest: skip_ws_rev_shorter)

definition trim :: "string \<Rightarrow> string" where
  "trim s = rev (trim_end_rev (rev (trim_start s)))"

text \<open>\<^verbatim>\<open>value.trim().is_empty()\<close>\<close>

definition blank :: "string \<Rightarrow> bool" where
  "blank s \<longleftrightarrow> trim s = []"

text \<open>\<^verbatim>\<open>str::strip_prefix\<close>\<close>

fun strip_prefix :: "string \<Rightarrow> string \<Rightarrow> string option" where
  "strip_prefix [] s = Some s"
| "strip_prefix (p # ps) [] = None"
| "strip_prefix (p # ps) (c # s) = (if p = c then strip_prefix ps s else None)"

text \<open>\<^verbatim>\<open>u64::to_string\<close> and \<^verbatim>\<open>str::parse::<u64>\<close>, which takes an optional plus sign.\<close>

definition digit_char :: "nat \<Rightarrow> char" where
  "digit_char d = char_of (48 + d)"

fun show_nat :: "nat \<Rightarrow> string" where
  "show_nat n = (if n < 10 then [digit_char n] else show_nat (n div 10) @ [digit_char (n mod 10)])"

definition is_digit :: "char \<Rightarrow> bool" where
  "is_digit c \<longleftrightarrow> 48 \<le> (of_char c :: nat) \<and> (of_char c :: nat) \<le> 57"

definition digit_value :: "char \<Rightarrow> nat" where
  "digit_value c = of_char c - 48"

fun parse_digits :: "nat \<Rightarrow> string \<Rightarrow> nat option" where
  "parse_digits acc [] = Some acc"
| "parse_digits acc (c # cs) =
     (if is_digit c then parse_digits (10 * acc + digit_value c) cs else None)"

definition strip_plus :: "string \<Rightarrow> string" where
  "strip_plus s = (case s of [] \<Rightarrow> [] | c # r \<Rightarrow> if c = CHR ''+'' then r else s)"

definition parse_u64 :: "string \<Rightarrow> nat option" where
  "parse_u64 s =
     (let ds = strip_plus s
      in if ds = [] then None
         else (case parse_digits 0 ds of
                 None \<Rightarrow> None
               | Some n \<Rightarrow> if n \<le> u64_max then Some n else None))"

declare trim_start.simps [simp del] trim_end_rev.simps [simp del] show_nat.simps [simp del]


section \<open>Lemmas\<close>

subsection \<open>Results\<close>

lemma and_then_simps [simp, result_simps]:
  "and_then (Inl e) f = Inl e"
  "and_then (Inr x) f = f x"
  by (simp_all add: and_then_def)

lemma and_then_Inr_iff [result_simps]:
  "and_then r f = Inr y \<longleftrightarrow> (\<exists>x. r = Inr x \<and> f x = Inr y)"
  by (cases r) auto

lemma and_then_Inl_iff [result_simps]:
  "and_then r f = Inl e \<longleftrightarrow> r = Inl e \<or> (\<exists>x. r = Inr x \<and> f x = Inl e)"
  by (cases r) auto

lemma if_Err_Inr_iff [result_simps]:
  "(if b then Inl e else r) = Inr y \<longleftrightarrow> \<not> b \<and> r = Inr y"
  by simp

lemma ok_or_simps [simp]:
  "ok_or None e = Inl e"
  "ok_or (Some x) e = Inr x"
  by (simp_all add: ok_or_def)

lemma ok_or_Inr_iff [simp]: "ok_or v e = Inr x \<longleftrightarrow> v = Some x"
  by (cases v) auto

lemma ok_or_Inl_iff [simp]: "ok_or v e = Inl e' \<longleftrightarrow> v = None \<and> e' = e"
  by (cases v) auto

lemma is_ok_iff: "is_ok r \<longleftrightarrow> (\<exists>x. r = Inr x)"
  by (cases r) auto

lemma collect_results_Inr_iff:
  "collect_results f xs = Inr ys \<longleftrightarrow> list_all2 (\<lambda>x y. f x = Inr y) xs ys"
proof (induction xs arbitrary: ys)
  case (Cons x xs)
  show ?case
    by (auto simp: list_all2_Cons1 Cons.IH [symmetric] split: sum.splits)
qed auto

subsection \<open>Arithmetic\<close>

lemma saturating_add_le: "saturating_add a b \<le> u64_max"
  by (simp add: saturating_add_def)

lemma saturating_add_mono: "a \<le> u64_max \<Longrightarrow> a \<le> saturating_add a b"
  by (simp add: saturating_add_def)

lemma saturating_add_Suc: "a < u64_max \<Longrightarrow> saturating_add a 1 = Suc a"
  by (simp add: saturating_add_def)

lemma checked_add_Some_iff [simp]:
  "checked_add a b = Some c \<longleftrightarrow> c = a + b \<and> a + b \<le> u64_max"
  by (auto simp: checked_add_def)

lemma checked_add_None_iff [simp]: "checked_add a b = None \<longleftrightarrow> u64_max < a + b"
  by (auto simp: checked_add_def)

subsection \<open>Strings\<close>

lemma trim_start_Nil [simp]: "trim_start [] = []"
  by (subst trim_start.simps) (simp add: skip_ws_def)

lemma trim_end_rev_Nil [simp]: "trim_end_rev [] = []"
  by (subst trim_end_rev.simps) (simp add: skip_ws_rev_def)

lemma trim_start_stop: "skip_ws s = None \<Longrightarrow> trim_start s = s"
  by (subst trim_start.simps) simp

lemma trim_end_rev_stop: "skip_ws_rev s = None \<Longrightarrow> trim_end_rev s = s"
  by (subst trim_end_rev.simps) simp

lemma blank_Nil [simp]: "blank []"
  by (simp add: blank_def trim_def)

lemmas blank_eval [rust_string_simps] =
  blank_def trim_def trim_start.simps trim_end_rev.simps skip_ws_def skip_ws_rev_def
  ws1_def ws2_def ws3_def

lemma strip_prefix_Some_iff: "strip_prefix p s = Some r \<longleftrightarrow> s = p @ r"
  by (induction p s rule: strip_prefix.induct) auto

lemma strip_prefix_append [simp]: "strip_prefix p (p @ r) = Some r"
  by (simp add: strip_prefix_Some_iff)

lemma of_char_digit_char: "d < 10 \<Longrightarrow> (of_char (digit_char d) :: nat) = 48 + d"
  by (simp add: digit_char_def)

lemma is_digit_digit_char [simp]: "d < 10 \<Longrightarrow> is_digit (digit_char d)"
  by (simp add: is_digit_def of_char_digit_char)

lemma digit_value_digit_char [simp]: "d < 10 \<Longrightarrow> digit_value (digit_char d) = d"
  by (simp add: digit_value_def of_char_digit_char)

lemma digit_char_eval [simp]:
  "digit_char 0 = CHR ''0''" "digit_char 1 = CHR ''1''" "digit_char (Suc 0) = CHR ''1''"
  "digit_char 2 = CHR ''2''" "digit_char 3 = CHR ''3''" "digit_char 4 = CHR ''4''"
  "digit_char 5 = CHR ''5''" "digit_char 6 = CHR ''6''" "digit_char 7 = CHR ''7''"
  "digit_char 8 = CHR ''8''" "digit_char 9 = CHR ''9''"
  by (simp_all add: digit_char_def char_of_def bit_0)

lemma parse_digits_append:
  "parse_digits acc (xs @ ys) =
     (case parse_digits acc xs of None \<Rightarrow> None | Some n \<Rightarrow> parse_digits n ys)"
  by (induction xs arbitrary: acc) auto

lemma parse_digits_show_nat: "parse_digits 0 (show_nat n) = Some n"
proof (induction n rule: show_nat.induct)
  case (1 n)
  then show ?case
    by (subst show_nat.simps) (auto simp: parse_digits_append)
qed

lemma show_nat_nonempty [simp]: "show_nat n \<noteq> []"
  by (subst show_nat.simps) simp

lemma show_nat_digits: "c \<in> set (show_nat n) \<Longrightarrow> is_digit c"
proof (induction n rule: show_nat.induct)
  case (1 n)
  show ?case
  proof (cases "n < 10")
    case True
    with "1.prems" show ?thesis by (simp add: show_nat.simps [of n])
  next
    case False
    with "1.prems" have "c \<in> set (show_nat (n div 10)) \<or> c = digit_char (n mod 10)"
      by (auto simp: show_nat.simps [of n])
    with "1.IH" False show ?thesis by auto
  qed
qed

lemma show_nat_all_digits: "\<forall>c \<in> set (show_nat n). is_digit c"
  by (intro ballI, rule show_nat_digits)

lemma show_nat_inj: "show_nat m = show_nat n \<Longrightarrow> m = n"
  by (metis option.inject parse_digits_show_nat)

lemma strip_plus_digits: "\<forall>c \<in> set s. is_digit c \<Longrightarrow> strip_plus s = s"
  by (cases s) (auto simp: strip_plus_def is_digit_def)

lemma parse_u64_show_nat [simp]: "parse_u64 (show_nat n) = (if n \<le> u64_max then Some n else None)"
proof -
  have "strip_plus (show_nat n) = show_nat n"
    by (rule strip_plus_digits [OF show_nat_all_digits])
  then show ?thesis
    by (simp add: parse_u64_def parse_digits_show_nat)
qed

lemma parse_u64_le: "parse_u64 s = Some n \<Longrightarrow> n \<le> u64_max"
  by (auto simp: parse_u64_def Let_def split: if_splits option.splits)

lemma digit_not_ws:
  assumes "is_digit c"
  shows "\<not> ws1 c" "\<not> ws2 c b" "\<not> ws2 b c" "\<not> ws3 c b d" "\<not> ws3 d b c"
proof -
  from assms have c: "48 \<le> (of_char c :: nat)" "(of_char c :: nat) \<le> 57"
    by (simp_all add: is_digit_def)
  show "\<not> ws1 c" "\<not> ws2 c b" "\<not> ws2 b c" "\<not> ws3 c b d" "\<not> ws3 d b c"
    using c unfolding ws1_def ws2_def ws3_def by fastforce+
qed

lemma skip_ws_digit: "is_digit c \<Longrightarrow> skip_ws (c # s) = None"
  by (simp add: skip_ws_def digit_not_ws split: list.split)

lemma skip_ws_rev_digit: "is_digit c \<Longrightarrow> skip_ws_rev (c # s) = None"
  by (simp add: skip_ws_rev_def digit_not_ws split: list.split)

lemma trim_start_digits:
  assumes "\<forall>c \<in> set s. is_digit c"
  shows "trim_start s = s"
proof (cases s)
  case (Cons c r)
  with assms have "skip_ws s = None" by (simp add: skip_ws_digit)
  then show ?thesis by (rule trim_start_stop)
qed simp

lemma trim_end_rev_digits:
  assumes "\<forall>c \<in> set s. is_digit c"
  shows "trim_end_rev s = s"
proof (cases s)
  case (Cons c r)
  with assms have "skip_ws_rev s = None" by (simp add: skip_ws_rev_digit)
  then show ?thesis by (rule trim_end_rev_stop)
qed simp

lemma trim_digits: "\<forall>c \<in> set s. is_digit c \<Longrightarrow> trim s = s"
  by (simp add: trim_def trim_start_digits trim_end_rev_digits)

lemma trim_show_nat [simp]: "trim (show_nat n) = show_nat n"
  by (rule trim_digits [OF show_nat_all_digits])

end
