(* ===== verification/Durable_Orchestration.thy ===== *)
theory Durable_Orchestration
  imports Prelude
begin

text \<open>
  Host-owned durable orchestration controls:
  \<^verbatim>\<open>crates/traverse-runtime/src/durable_orchestration.rs\<close>. Checkpoints bound to governing
  snapshots, lease transfer by fencing token, retry and wake decisions, and compensation.

  \<^item> The trait \<^verbatim>\<open>CheckpointStore\<close> is the locale \<open>checkpoint_store\<close>; the generic functions
    \<^verbatim>\<open>persist_checkpoint\<close> and \<^verbatim>\<open>recover_checkpoint\<close> take its methods as arguments.
  \<^item> \<^verbatim>\<open>MemoryCheckpointStore\<close> is a map from execution ids and interprets the locale.
  \<^item> The \<^verbatim>\<open>u64\<close> and \<^verbatim>\<open>u32\<close> values are only compared, never added, so they are natural numbers.
\<close>

section \<open>Definitions\<close>

subsection \<open>Data\<close>

definition GOVERNING_SPEC :: string where
  "GOVERNING_SPEC = ''111-durable-dynamic-orchestration''"

record GoverningSnapshots =
  gs_proposal_digest :: string
  gs_manifest_digest :: string
  gs_registry_digest :: string
  gs_policy_digest :: string
  gs_authorization_digest :: string

definition is_complete :: "GoverningSnapshots \<Rightarrow> bool" where
  "is_complete s \<longleftrightarrow>
     list_all (\<lambda>digest. \<not> blank digest)
       [gs_proposal_digest s, gs_manifest_digest s, gs_registry_digest s,
        gs_policy_digest s, gs_authorization_digest s]"

record ExecutionLease =
  lease_owner_id :: string
  fencing_token :: nat
  expires_at :: nat

datatype DurableWaitKind = Event | Schedule | HumanApproval

record DurableWait =
  wait_kind :: DurableWaitKind
  wait_owner_id :: string
  deadline :: nat
  cancellation_id :: string

record RetryPolicy =
  retryable :: bool
  max_attempts :: nat
  backoff_units :: nat
  budget_units :: nat
  idempotency_key :: string

record CompensationStep =
  comp_capability_id :: string
  comp_authorization_digest :: string
  comp_order :: nat

record DurableCheckpoint =
  governing_spec :: string
  execution_id :: string
  snapshots :: GoverningSnapshots
  lease :: ExecutionLease
  completed_node_ids :: "string list"
  ckpt_wait :: "DurableWait option"
  ckpt_retry :: "RetryPolicy option"
  compensation :: "CompensationStep list"
  authentication_tag :: string

datatype DurableOrchestrationErrorCode =
  InvalidCheckpoint | AuthenticationFailed | SnapshotMismatch | StaleLease | WaitExpired
| Cancelled | RetryNotDeclared | RetryBudgetExhausted | CompensationUnauthorized

record DurableOrchestrationError =
  doe_code :: DurableOrchestrationErrorCode
  doe_message :: string

definition doe_error :: "DurableOrchestrationErrorCode \<Rightarrow> string \<Rightarrow> DurableOrchestrationError" where
  "doe_error code message = \<lparr>doe_code = code, doe_message = message\<rparr>"

subsection \<open>Checkpoints\<close>

definition validate_checkpoint ::
  "DurableCheckpoint \<Rightarrow> (unit, DurableOrchestrationError) result" where
  "validate_checkpoint c =
     (if governing_spec c \<noteq> GOVERNING_SPEC
         \<or> blank (execution_id c)
         \<or> \<not> is_complete (snapshots c)
         \<or> blank (lease_owner_id (lease c))
         \<or> fencing_token (lease c) = 0
      then Err (doe_error InvalidCheckpoint
             ''checkpoint is incomplete or uses an unsupported governing spec'')
      else Ok ())"

definition authenticated_tag :: "DurableCheckpoint \<Rightarrow> string" where
  "authenticated_tag c =
     execution_id c @ '':'' @ show_nat (fencing_token (lease c)) @ '':''
       @ gs_proposal_digest (snapshots c)"

text \<open>
  The store's \<^verbatim>\<open>save\<close> takes \<^verbatim>\<open>&mut self\<close>: it returns its result and the store after the call.
\<close>

type_synonym 's save_fn =
  "'s \<Rightarrow> DurableCheckpoint \<Rightarrow> (unit, DurableOrchestrationError) result \<times> 's"

type_synonym 's load_fn =
  "'s \<Rightarrow> string \<Rightarrow> (DurableCheckpoint option, DurableOrchestrationError) result"

type_synonym 's verify_fn = "'s \<Rightarrow> DurableCheckpoint \<Rightarrow> bool"

definition persist_checkpoint ::
  "'s save_fn \<Rightarrow> 's \<Rightarrow> DurableCheckpoint \<Rightarrow> (unit, DurableOrchestrationError) result \<times> 's" where
  "persist_checkpoint save store c =
     (case validate_checkpoint c of
        Inl e \<Rightarrow> (Err e, store)
      | Inr _ \<Rightarrow>
          save store
            (if authentication_tag c = []
             then c\<lparr>authentication_tag := authenticated_tag c\<rparr> else c))"

definition recover_checkpoint ::
  "'s load_fn \<Rightarrow> 's verify_fn \<Rightarrow> 's \<Rightarrow> string \<Rightarrow> GoverningSnapshots \<Rightarrow> nat \<Rightarrow>
     (DurableCheckpoint, DurableOrchestrationError) result" where
  "recover_checkpoint load verify store eid expected now =
     and_then (load store eid) (\<lambda>loaded.
     and_then (ok_or loaded (doe_error InvalidCheckpoint ''checkpoint is absent'')) (\<lambda>c.
     and_then (validate_checkpoint c) (\<lambda>_.
       if \<not> verify store c then
         Err (doe_error AuthenticationFailed ''checkpoint authentication failed'')
       else if snapshots c \<noteq> expected then
         Err (doe_error SnapshotMismatch ''checkpoint governing snapshots differ'')
       else if expires_at (lease c) \<le> now then
         Err (doe_error StaleLease ''checkpoint lease has expired'')
       else Ok c)))"

subsection \<open>The in-memory store\<close>

record MemoryCheckpointStore =
  checkpoints :: "string \<rightharpoonup> DurableCheckpoint"

definition empty_store :: MemoryCheckpointStore where
  "empty_store = \<lparr>checkpoints = Map.empty\<rparr>"

definition mem_save :: "MemoryCheckpointStore save_fn" where
  "mem_save store c = (Ok (), store\<lparr>checkpoints := (checkpoints store)(execution_id c \<mapsto> c)\<rparr>)"

definition mem_load :: "MemoryCheckpointStore load_fn" where
  "mem_load store eid = Ok (checkpoints store eid)"

definition mem_verify :: "MemoryCheckpointStore verify_fn" where
  "mem_verify store c \<longleftrightarrow> authentication_tag c = authenticated_tag c"

subsection \<open>Leases, retries, waits, compensation\<close>

text \<open>\<^verbatim>\<open>acquire_lease\<close> mutates the checkpoint only when it succeeds.\<close>

definition acquire_lease ::
  "DurableCheckpoint \<Rightarrow> string \<Rightarrow> nat \<Rightarrow> nat \<Rightarrow>
     (DurableCheckpoint, DurableOrchestrationError) result" where
  "acquire_lease c owner token expiry =
     (if blank owner \<or> token \<le> fencing_token (lease c) \<or> expiry \<le> expires_at (lease c)
      then Err (doe_error StaleLease ''lease transfer requires a newer fencing token and expiry'')
      else Ok (c\<lparr>lease := \<lparr>lease_owner_id = owner, fencing_token = token, expires_at = expiry\<rparr>,
                 authentication_tag := []\<rparr>))"

definition authorize_retry ::
  "RetryPolicy \<Rightarrow> nat \<Rightarrow> nat \<Rightarrow> (nat, DurableOrchestrationError) result" where
  "authorize_retry policy attempts_used budget_used =
     (if \<not> retryable policy \<or> blank (idempotency_key policy) then
        Err (doe_error RetryNotDeclared ''retryability and idempotency key must be declared'')
      else if attempts_used \<ge> max_attempts policy \<or> budget_used \<ge> budget_units policy then
        Err (doe_error RetryBudgetExhausted ''retry attempt or budget limit reached'')
      else Ok (backoff_units policy))"

definition wake_wait ::
  "DurableWait \<Rightarrow> string \<Rightarrow> bool \<Rightarrow> nat \<Rightarrow> (unit, DurableOrchestrationError) result" where
  "wake_wait w wake_owner cancelled now =
     (if cancelled then Err (doe_error Cancelled ''wait was cancelled before wake'')
      else if now > deadline w then
        Err (doe_error WaitExpired ''wait deadline elapsed before wake'')
      else if wake_owner \<noteq> wait_owner_id w then
        Err (doe_error StaleLease ''wake owner does not own the wait'')
      else Ok ())"

text \<open>\<^verbatim>\<open>sort_by_key\<close> with \<^verbatim>\<open>Reverse\<close> is a stable descending sort.\<close>

definition authorized_compensation ::
  "CompensationStep list \<Rightarrow> string \<Rightarrow> (CompensationStep list, DurableOrchestrationError) result" where
  "authorized_compensation steps digest =
     (if list_ex (\<lambda>step. comp_authorization_digest step \<noteq> digest \<or> blank (comp_capability_id step)) steps
      then Err (doe_error CompensationUnauthorized
             ''compensation is not authorized by the execution snapshot'')
      else Ok (sort_key (\<lambda>step. - int (comp_order step)) steps))"

subsection \<open>Runs of the operations\<close>

text \<open>A sequence of lease requests against one checkpoint; a refused request leaves it as it is.\<close>

record LeaseRequest =
  req_owner :: string
  req_token :: nat
  req_expiry :: nat

definition try_acquire :: "DurableCheckpoint \<Rightarrow> LeaseRequest \<Rightarrow> DurableCheckpoint" where
  "try_acquire c r =
     (case acquire_lease c (req_owner r) (req_token r) (req_expiry r) of
        Inl _ \<Rightarrow> c
      | Inr c' \<Rightarrow> c')"

text \<open>The requests of a sequence that were granted, in order.\<close>

fun granted :: "DurableCheckpoint \<Rightarrow> LeaseRequest list \<Rightarrow> LeaseRequest list" where
  "granted c [] = []"
| "granted c (r # rs) =
     (if is_ok (acquire_lease c (req_owner r) (req_token r) (req_expiry r))
      then r # granted (try_acquire c r) rs
      else granted c rs)"

text \<open>
  A retry loop as a host drives it: it asks before every attempt, counts the attempt and
  charges the backoff to the budget. \<open>retry_run policy fuel a b\<close> is the number of attempts that
  \<^verbatim>\<open>authorize_retry\<close> grants from \<open>a\<close> attempts and \<open>b\<close> units used, within \<open>fuel\<close> requests.
\<close>

fun retry_run :: "RetryPolicy \<Rightarrow> nat \<Rightarrow> nat \<Rightarrow> nat \<Rightarrow> nat" where
  "retry_run policy 0 a b = 0"
| "retry_run policy (Suc fuel) a b =
     (case authorize_retry policy a b of
        Inl _ \<Rightarrow> 0
      | Inr backoff \<Rightarrow> Suc (retry_run policy fuel (Suc a) (b + backoff)))"


section \<open>The store interface\<close>

text \<open>
  What \<^verbatim>\<open>persist_checkpoint\<close> and \<^verbatim>\<open>recover_checkpoint\<close> rely on: a saved checkpoint is the one that
  loads under its execution id, other executions are untouched, and a checkpoint that
  carries the tag derived from it verifies.
\<close>

locale checkpoint_store =
  fixes save :: "'s save_fn"
    and load :: "'s load_fn"
    and verify :: "'s verify_fn"
  assumes load_saved: "save s c = (Inr (), s') \<Longrightarrow> load s' (execution_id c) = Inr (Some c)"
    and load_other: "save s c = (Inr (), s') \<Longrightarrow> eid \<noteq> execution_id c \<Longrightarrow> load s' eid = load s eid"
    and verify_tagged: "authentication_tag c = authenticated_tag c \<Longrightarrow> verify s c"
begin

lemma recover_Inr_iff:
  "recover_checkpoint load verify s eid expected now = Inr c \<longleftrightarrow>
     load s eid = Inr (Some c) \<and> validate_checkpoint c = Inr () \<and> verify s c \<and>
     snapshots c = expected \<and> now < expires_at (lease c)"
  by (auto simp: recover_checkpoint_def and_then_def ok_or_def
      split: sum.splits option.splits if_splits)

lemma persist_recover:
  assumes valid: "validate_checkpoint c = Inr ()" and untagged: "authentication_tag c = []"
    and saved: "persist_checkpoint save s c = (Inr (), s')"
    and live: "now < expires_at (lease c)"
  shows "recover_checkpoint load verify s' (execution_id c) (snapshots c) now =
     Inr (c\<lparr>authentication_tag := authenticated_tag c\<rparr>)"
proof -
  let ?c = "c\<lparr>authentication_tag := authenticated_tag c\<rparr>"
  have "save s ?c = (Inr (), s')"
    using saved valid untagged by (simp add: persist_checkpoint_def)
  then have "load s' (execution_id ?c) = Inr (Some ?c)"
    by (rule load_saved)
  moreover have "validate_checkpoint ?c = Inr ()"
    using valid by (simp add: validate_checkpoint_def)
  moreover have "verify s' ?c"
    by (rule verify_tagged) (simp add: authenticated_tag_def)
  ultimately show ?thesis
    using live by (simp add: recover_Inr_iff)
qed

lemma persist_other:
  assumes "persist_checkpoint save s c = (Inr (), s')" and "eid \<noteq> execution_id c"
  shows "load s' eid = load s eid"
proof -
  let ?c = "if authentication_tag c = [] then c\<lparr>authentication_tag := authenticated_tag c\<rparr> else c"
  have "save s ?c = (Inr (), s')"
    using assms(1) by (auto simp: persist_checkpoint_def split: sum.splits)
  then show ?thesis
    by (rule load_other) (use assms(2) in simp)
qed

end

interpretation mem: checkpoint_store mem_save mem_load mem_verify
  by unfold_locales (auto simp: mem_save_def mem_load_def mem_verify_def)


section \<open>Lemmas\<close>

lemma acquire_lease_Inr_iff:
  "acquire_lease c owner token expiry = Inr c' \<longleftrightarrow>
     \<not> blank owner \<and> fencing_token (lease c) < token \<and> expires_at (lease c) < expiry \<and>
     c' = c\<lparr>lease := \<lparr>lease_owner_id = owner, fencing_token = token, expires_at = expiry\<rparr>,
            authentication_tag := []\<rparr>"
  by (auto simp: acquire_lease_def)

lemma acquire_lease_Inl: "acquire_lease c owner token expiry = Inl e \<Longrightarrow> doe_code e = StaleLease"
  by (auto simp: acquire_lease_def doe_error_def split: if_splits)

lemma try_acquire_token_mono: "fencing_token (lease c) \<le> fencing_token (lease (try_acquire c r))"
  by (auto simp: try_acquire_def acquire_lease_Inr_iff split: sum.splits)

lemma try_acquire_granted:
  assumes "is_ok (acquire_lease c (req_owner r) (req_token r) (req_expiry r))"
  shows "fencing_token (lease (try_acquire c r)) = req_token r"
    and "fencing_token (lease c) < req_token r"
    and "expires_at (lease (try_acquire c r)) = req_expiry r"
    and "expires_at (lease c) < req_expiry r"
proof -
  from assms obtain c' where c': "acquire_lease c (req_owner r) (req_token r) (req_expiry r) = Inr c'"
    by (auto simp: is_ok_iff)
  then have "try_acquire c r = c'" by (simp add: try_acquire_def)
  with c' show "fencing_token (lease (try_acquire c r)) = req_token r"
    and "fencing_token (lease c) < req_token r"
    and "expires_at (lease (try_acquire c r)) = req_expiry r"
    and "expires_at (lease c) < req_expiry r"
    by (auto simp: acquire_lease_Inr_iff)
qed

lemma granted_bound:
  "r \<in> set (granted c rs) \<Longrightarrow> fencing_token (lease c) < req_token r \<and> expires_at (lease c) < req_expiry r"
proof (induction c rs rule: granted.induct)
  case (2 c q rs)
  show ?case
  proof (cases "is_ok (acquire_lease c (req_owner q) (req_token q) (req_expiry q))")
    case True
    note g = try_acquire_granted [OF True]
    from "2.prems" True have "r = q \<or> r \<in> set (granted (try_acquire c q) rs)" by auto
    then show ?thesis
      using "2.IH"(1) [OF True] g by auto
  next
    case False
    with "2.prems" "2.IH"(2) show ?thesis by simp
  qed
qed simp

lemma authorize_retry_Inr_iff:
  "authorize_retry policy a b = Inr n \<longleftrightarrow>
     retryable policy \<and> \<not> blank (idempotency_key policy) \<and> a < max_attempts policy \<and>
     b < budget_units policy \<and> n = backoff_units policy"
  by (auto simp: authorize_retry_def)

lemma retry_run_le: "retry_run policy fuel a b \<le> max_attempts policy - a"
proof (induction policy fuel a b rule: retry_run.induct)
  case (2 policy fuel a b)
  show ?case
  proof (cases "authorize_retry policy a b")
    case (Inr n)
    then have "a < max_attempts policy" by (simp add: authorize_retry_Inr_iff)
    with "2.IH" [OF Inr] Inr show ?thesis by simp
  qed simp
qed simp

lemma retry_run_budget:
  "0 < retry_run policy fuel a b \<Longrightarrow>
     b + (retry_run policy fuel a b - 1) * backoff_units policy < budget_units policy"
proof (induction policy fuel a b rule: retry_run.induct)
  case (2 policy fuel a b)
  show ?case
  proof (cases "authorize_retry policy a b")
    case (Inr n)
    then have n: "n = backoff_units policy" and b: "b < budget_units policy"
      by (simp_all add: authorize_retry_Inr_iff)
    show ?thesis
    proof (cases "retry_run policy fuel (Suc a) (b + n)")
      case 0
      with Inr b show ?thesis by simp
    next
      case (Suc k)
      with "2.IH" [OF Inr] have "b + n + k * backoff_units policy < budget_units policy" by simp
      with Inr Suc n show ?thesis by simp
    qed
  qed (use "2.prems" in simp)
qed simp

lemma sort_key_desc:
  "sorted_wrt (\<lambda>s t. comp_order t \<le> comp_order s) (sort_key (\<lambda>step. - int (comp_order step)) steps)"
proof -
  have "sorted (map (\<lambda>step. - int (comp_order step)) (sort_key (\<lambda>step. - int (comp_order step)) steps))"
    by (rule sorted_sort_key)
  then show ?thesis by (simp add: sorted_map)
qed

lemma sort_key_stable_order:
  "filter (\<lambda>s. comp_order s = k) (sort_key (\<lambda>step. - int (comp_order step)) steps) =
     filter (\<lambda>s. comp_order s = k) steps"
proof -
  have eq: "(\<lambda>s. comp_order s = k) = (\<lambda>s. - int (comp_order s) = - int k)" by auto
  show ?thesis unfolding eq by (rule sort_key_stable)
qed


section \<open>Properties\<close>


text \<open>A complete checkpoint of a running execution, for the concrete instances below.\<close>

definition sample_checkpoint :: DurableCheckpoint where
  "sample_checkpoint =
     \<lparr>governing_spec = GOVERNING_SPEC, execution_id = ''exec-1'',
      snapshots = \<lparr>gs_proposal_digest = ''proposal'', gs_manifest_digest = ''manifest'',
        gs_registry_digest = ''registry'', gs_policy_digest = ''policy'',
        gs_authorization_digest = ''auth''\<rparr>,
      lease = \<lparr>lease_owner_id = ''worker-a'', fencing_token = 1, expires_at = 20\<rparr>,
      completed_node_ids = [''charge''], ckpt_wait = None, ckpt_retry = None,
      compensation = [], authentication_tag = []\<rparr>"


text \<open>
  C12: recovery fails closed. Recovery succeeds exactly when the stored checkpoint of that
  execution is complete, carries its authentication tag, is bound to exactly the expected
  snapshots and has an unexpired lease, and then it returns that checkpoint unchanged.
\<close>

theorem recover_fails_closed:
  "recover_checkpoint mem_load mem_verify s eid expected now = Ok c \<longleftrightarrow>
     checkpoints s eid = Some c
     \<and> governing_spec c = GOVERNING_SPEC \<and> \<not> blank (execution_id c)
     \<and> is_complete (snapshots c) \<and> \<not> blank (lease_owner_id (lease c))
     \<and> 0 < fencing_token (lease c)
     \<and> authentication_tag c = authenticated_tag c
     \<and> snapshots c = expected \<and> now < expires_at (lease c)"
  by (auto simp: mem.recover_Inr_iff mem_load_def mem_verify_def validate_checkpoint_def
      split: if_splits)

text \<open>
  C29: fencing. Over any sequence of lease requests, in any order and from any owners, the
  fencing tokens of the granted requests strictly increase from the checkpoint's own token,
  and so do their expiries: a superseded owner can never take the lease back with its old
  token, nor can two grants carry the same token.
\<close>

theorem lease_grants_strictly_increase:
  "sorted_wrt (<) (fencing_token (lease c) # map req_token (granted c rs))
   \<and> sorted_wrt (<) (expires_at (lease c) # map req_expiry (granted c rs))"
proof (induction c rs rule: granted.induct)
  case (2 c r rs)
  show ?case
  proof (cases "is_ok (acquire_lease c (req_owner r) (req_token r) (req_expiry r))")
    case True
    with "2.IH"(1) [OF True] try_acquire_granted [OF True] show ?thesis
      by (auto intro: less_trans)
  next
    case False
    with "2.IH"(2) show ?thesis by simp
  qed
qed simp

text \<open>
  C36: retries are bounded. A host that asks \<^verbatim>\<open>authorize_retry\<close> before every attempt is granted
  at most \<^verbatim>\<open>max_attempts\<close> attempts in all, however often it asks, and every grant was made while
  the budget charged so far was below \<^verbatim>\<open>budget_units\<close>.
\<close>

theorem retries_bounded:
  "retry_run policy fuel a b \<le> max_attempts policy - a
   \<and> (0 < retry_run policy fuel a b \<longrightarrow>
        b + (retry_run policy fuel a b - 1) * backoff_units policy < budget_units policy)"
  using retry_run_le retry_run_budget by simp

theorem retries_bounded_witness:
  "retry_run \<lparr>retryable = True, max_attempts = 5, backoff_units = 3, budget_units = 7,
      idempotency_key = ''key''\<rparr> 10 0 0 = 3
   \<and> 0 + (3 - 1) * 3 < (7::nat)"
proof -
  let ?p = "\<lparr>retryable = True, max_attempts = 5, backoff_units = 3, budget_units = 7,
      idempotency_key = ''key''\<rparr> :: RetryPolicy"
  have "retry_run ?p 10 0 0 = 3"
    by (simp add: authorize_retry_def rust_string_simps eval_nat_numeral)
  with retries_bounded [of ?p 10 0 0] show ?thesis by simp
qed

text \<open>
  C35: compensation runs in reverse order and only when every step is authorized: the result
  of \<^verbatim>\<open>authorized_compensation\<close> is a rearrangement of the declared steps, by descending
  \<^verbatim>\<open>order\<close>, with steps of equal order in their declared order, and every step carries the
  execution's authorization digest and a capability id; if any step does not, the result is
  the error \<^verbatim>\<open>CompensationUnauthorized\<close>.
\<close>

theorem compensation_reverse_order:
  "case authorized_compensation steps digest of
     Inr out \<Rightarrow>
       mset out = mset steps
       \<and> sorted_wrt (\<lambda>s t. comp_order t \<le> comp_order s) out
       \<and> (\<forall>k. filter (\<lambda>s. comp_order s = k) out = filter (\<lambda>s. comp_order s = k) steps)
       \<and> list_all (\<lambda>s. comp_authorization_digest s = digest \<and> \<not> blank (comp_capability_id s)) out
   | Inl e \<Rightarrow>
       doe_code e = CompensationUnauthorized
       \<and> list_ex (\<lambda>s. \<not> (comp_authorization_digest s = digest \<and> \<not> blank (comp_capability_id s))) steps"
  by (auto simp: authorized_compensation_def doe_error_def sort_key_desc sort_key_stable_order
      list_all_iff list_ex_iff)

end
