(* ===== verification/Json.thy ===== *)
theory Json
  imports Prelude
begin

text \<open>
  The JSON values the source passes around (\<^verbatim>\<open>serde_json::Value\<close>), with its constructors and
  the accessors the source calls. No crate enables the \<^verbatim>\<open>preserve_order\<close> feature, so an
  object is a map ordered by member name: an association list, sorted by strictly increasing
  names in a well-formed value.

  A finite double is given by its sign and its shortest decimal: the digits without leading
  or trailing zeros and the exponent of the first digit, as \<^verbatim>\<open>format!("{:e}")\<close> prints it.
\<close>

section \<open>Definitions\<close>

record f64 =
  f64_negative :: bool
  f64_digits :: "nat list"
  f64_exponent :: int

datatype json_number = PosInt nat | NegInt int | Float f64

datatype json =
  JNull
| JBool bool
| JNumber json_number
| JString string
| JArray "json list"
| JObject "(string \<times> json) list"

type_synonym json_object = "(string \<times> json) list"

text \<open>\<^verbatim>\<open>Map::get\<close>, \<^verbatim>\<open>Map::insert\<close> and \<^verbatim>\<open>Map::remove\<close> on the ordered members.\<close>

fun obj_get :: "json_object \<Rightarrow> string \<Rightarrow> json option" where
  "obj_get [] k = None"
| "obj_get ((k', v) # ms) k = (if k' = k then Some v else obj_get ms k)"

fun obj_insert :: "string \<Rightarrow> json \<Rightarrow> json_object \<Rightarrow> json_object" where
  "obj_insert k v [] = [(k, v)]"
| "obj_insert k v ((k', v') # ms) =
     (if k < k' then (k, v) # (k', v') # ms
      else if k = k' then (k, v) # ms
      else (k', v') # obj_insert k v ms)"

definition obj_remove :: "string \<Rightarrow> json_object \<Rightarrow> json_object" where
  "obj_remove k ms = filter (\<lambda>(k', _). k' \<noteq> k) ms"

definition contains_key :: "json_object \<Rightarrow> string \<Rightarrow> bool" where
  "contains_key ms k \<longleftrightarrow> obj_get ms k \<noteq> None"

definition obj_wf :: "json_object \<Rightarrow> bool" where
  "obj_wf ms \<longleftrightarrow> sorted_wrt (<) (map fst ms)"

text \<open>\<^verbatim>\<open>Value::get\<close> by member name, \<^verbatim>\<open>as_str\<close>, \<^verbatim>\<open>as_object\<close>, \<^verbatim>\<open>as_array\<close>.\<close>

fun json_get :: "json \<Rightarrow> string \<Rightarrow> json option" where
  "json_get (JObject ms) k = obj_get ms k"
| "json_get _ k = None"

fun as_str :: "json \<Rightarrow> string option" where
  "as_str (JString s) = Some s"
| "as_str _ = None"

fun as_object :: "json \<Rightarrow> json_object option" where
  "as_object (JObject ms) = Some ms"
| "as_object _ = None"

fun as_array :: "json \<Rightarrow> json list option" where
  "as_array (JArray xs) = Some xs"
| "as_array _ = None"

fun as_u64 :: "json \<Rightarrow> nat option" where
  "as_u64 (JNumber (PosInt n)) = Some n"
| "as_u64 _ = None"

text \<open>\<^verbatim>\<open>as_i64\<close>: an integer within the signed 64-bit range.\<close>

fun as_i64 :: "json \<Rightarrow> int option" where
  "as_i64 (JNumber (PosInt n)) = (if n \<le> 9223372036854775807 then Some (int n) else None)"
| "as_i64 (JNumber (NegInt i)) = Some i"
| "as_i64 _ = None"

text \<open>\<^verbatim>\<open>get(k).and_then(Value::as_str)\<close> and \<^verbatim>\<open>.filter(|v| !v.trim().is_empty())\<close>\<close>

definition get_str :: "json_object \<Rightarrow> string \<Rightarrow> string option" where
  "get_str ms k = Option.bind (obj_get ms k) as_str"

definition non_blank :: "string option \<Rightarrow> string option" where
  "non_blank v = (case v of None \<Rightarrow> None | Some s \<Rightarrow> if blank s then None else Some s)"


section \<open>Lemmas\<close>

lemma as_str_Some: "as_str v = Some s \<Longrightarrow> v = JString s"
  by (cases v) auto

lemma as_object_Some: "as_object v = Some ms \<Longrightarrow> v = JObject ms"
  by (cases v) auto

lemma obj_get_insert [simp]: "obj_get (obj_insert k v ms) j = (if j = k then Some v else obj_get ms j)"
  by (induction ms) auto

lemma obj_get_remove [simp]: "obj_get (obj_remove k ms) j = (if j = k then None else obj_get ms j)"
  by (induction ms) (auto simp: obj_remove_def)

lemma fst_obj_insert: "fst ` set (obj_insert k v ms) = insert k (fst ` set ms)"
  by (induction k v ms rule: obj_insert.induct) (simp_all add: insert_commute)

lemma obj_wf_insert [simp]: "obj_wf ms \<Longrightarrow> obj_wf (obj_insert k v ms)"
proof (induction ms)
  case (Cons m ms)
  obtain k' v' where m: "m = (k', v')" by force
  have "fst ` set (obj_insert k v ms) = insert k (fst ` set ms)" by (rule fst_obj_insert)
  with Cons show ?case
    by (auto simp: obj_wf_def m image_iff)
qed (simp add: obj_wf_def)

lemma obj_wf_remove [simp]: "obj_wf ms \<Longrightarrow> obj_wf (obj_remove k ms)"
  by (induction ms) (auto simp: obj_wf_def obj_remove_def)

lemma obj_get_None_iff: "obj_get ms k = None \<longleftrightarrow> k \<notin> fst ` set ms"
  by (induction ms k rule: obj_get.induct) auto

lemma non_blank_Some_iff [simp]: "non_blank v = Some s \<longleftrightarrow> v = Some s \<and> \<not> blank s"
  by (auto simp: non_blank_def split: option.splits)

lemma non_blank_None_iff: "non_blank v = None \<longleftrightarrow> (\<forall>s. v = Some s \<longrightarrow> blank s)"
  by (auto simp: non_blank_def split: option.splits)

end
