(* ===== verification/Rust_Strings.thy ===== *)
theory Rust_Strings
  imports Prelude
begin

text \<open>
  The string operations of the Rust standard library that the components call:
  \<^verbatim>\<open>split\<close> on a character or a predicate, \<^verbatim>\<open>lines\<close>, \<^verbatim>\<open>contains\<close>, \<^verbatim>\<open>to_ascii_lowercase\<close> and
  the ASCII character classes, on the UTF-8 bytes of a string. Every separator and every
  class here is ASCII, and a byte of a multi-byte character is never ASCII, so that splitting
  bytes and splitting characters agree up to empty pieces inside such a character.
\<close>

section \<open>Definitions\<close>

text \<open>\<^verbatim>\<open>split\<close>: always at least one piece; a separator at an end gives an empty piece there.\<close>

fun split_by :: "(char \<Rightarrow> bool) \<Rightarrow> string \<Rightarrow> string list" where
  "split_by P [] = [[]]"
| "split_by P (x # xs) =
     (if P x then [] # split_by P xs
      else (case split_by P xs of [] \<Rightarrow> [[x]] | y # ys \<Rightarrow> (x # y) # ys))"

definition split_on :: "char \<Rightarrow> string \<Rightarrow> string list" where
  "split_on c = split_by (\<lambda>x. x = c)"

fun join_with :: "char \<Rightarrow> string list \<Rightarrow> string" where
  "join_with c [] = []"
| "join_with c [x] = x"
| "join_with c (x # y # ys) = x @ c # join_with c (y # ys)"

text \<open>\<^verbatim>\<open>split_once\<close> at the first separator.\<close>

fun split_once :: "char \<Rightarrow> string \<Rightarrow> (string \<times> string) option" where
  "split_once c [] = None"
| "split_once c (x # xs) =
     (if x = c then Some ([], xs)
      else (case split_once c xs of None \<Rightarrow> None | Some (a, b) \<Rightarrow> Some (x # a, b)))"

definition starts_with :: "string \<Rightarrow> string \<Rightarrow> bool" where
  "starts_with s p \<longleftrightarrow> take (length p) s = p"

definition ends_with :: "string \<Rightarrow> string \<Rightarrow> bool" where
  "ends_with s p \<longleftrightarrow> length p \<le> length s \<and> drop (length s - length p) s = p"

text \<open>\<^verbatim>\<open>haystack.contains(needle)\<close>\<close>

fun contains_str :: "string \<Rightarrow> string \<Rightarrow> bool" where
  "contains_str [] n \<longleftrightarrow> n = []"
| "contains_str (x # xs) n \<longleftrightarrow> starts_with (x # xs) n \<or> contains_str xs n"

definition is_ascii_lowercase :: "char \<Rightarrow> bool" where
  "is_ascii_lowercase c \<longleftrightarrow> 97 \<le> (of_char c :: nat) \<and> (of_char c :: nat) \<le> 122"

definition is_ascii_uppercase :: "char \<Rightarrow> bool" where
  "is_ascii_uppercase c \<longleftrightarrow> 65 \<le> (of_char c :: nat) \<and> (of_char c :: nat) \<le> 90"

definition is_ascii_digit :: "char \<Rightarrow> bool" where
  "is_ascii_digit c \<longleftrightarrow> 48 \<le> (of_char c :: nat) \<and> (of_char c :: nat) \<le> 57"

definition is_ascii_alphanumeric :: "char \<Rightarrow> bool" where
  "is_ascii_alphanumeric c \<longleftrightarrow> is_ascii_lowercase c \<or> is_ascii_uppercase c \<or> is_ascii_digit c"

definition to_ascii_lowercase :: "string \<Rightarrow> string" where
  "to_ascii_lowercase s =
     map (\<lambda>c. if is_ascii_uppercase c then char_of ((of_char c :: nat) + 32) else c) s"

text \<open>\<^verbatim>\<open>str::lines\<close>: pieces between newlines without a final carriage return; a newline at the
  end starts no further line.\<close>

definition strip_cr :: "string \<Rightarrow> string" where
  "strip_cr l = (if l \<noteq> [] \<and> last l = CHR 0x0D then butlast l else l)"

definition str_lines :: "string \<Rightarrow> string list" where
  "str_lines s =
     (let ps = split_on CHR 0x0A s
      in (if last ps = [] then map strip_cr (butlast ps)
          else map strip_cr (butlast ps) @ [last ps]))"

section \<open>Lemmas\<close>

lemma split_by_not_Nil [simp]: "split_by P s \<noteq> []"
  by (induction s) (auto split: list.splits)

lemma split_on_not_Nil [simp]: "split_on c s \<noteq> []"
  by (simp add: split_on_def)

lemma split_by_pieces: "p \<in> set (split_by P s) \<Longrightarrow> x \<in> set p \<Longrightarrow> x \<in> set s \<and> \<not> P x"
proof (induction s arbitrary: p)
  case Nil
  then show ?case by simp
next
  case (Cons y s)
  obtain q qs where q: "split_by P s = q # qs" by (cases "split_by P s") auto
  show ?case
    using Cons.IH [of p] Cons.IH [of q] Cons.prems by (auto simp: q split: if_splits)
qed

lemma split_on_pieces: "p \<in> set (split_on c s) \<Longrightarrow> c \<notin> set p"
  using split_by_pieces [of p _ s c] by (auto simp: split_on_def)

lemma join_split [simp]: "join_with c (split_on c s) = s"
  unfolding split_on_def
proof (induction s)
  case Nil
  then show ?case by simp
next
  case (Cons x s)
  obtain q qs where q: "split_by (\<lambda>x. x = c) s = q # qs" by (cases "split_by (\<lambda>x. x = c) s") auto
  show ?case using Cons.IH by (cases qs) (auto simp: q)
qed

lemma split_on_no_sep: "c \<notin> set s \<Longrightarrow> split_on c s = [s]"
  unfolding split_on_def by (induction s) auto

lemma split_on_append: "c \<notin> set a \<Longrightarrow> split_on c (a @ c # b) = a # split_on c b"
  unfolding split_on_def by (induction a) auto

lemma split_join:
  assumes "xs \<noteq> []" "\<And>x. x \<in> set xs \<Longrightarrow> c \<notin> set x"
  shows "split_on c (join_with c xs) = xs"
  using assms by (induction c xs rule: join_with.induct) (auto simp: split_on_no_sep split_on_append)

lemma set_join_with: "set (join_with c xs) \<subseteq> insert c (\<Union>x \<in> set xs. set x)"
  by (induction c xs rule: join_with.induct) auto

lemma set_split_on: "set s \<subseteq> insert c (\<Union>p \<in> set (split_on c s). set p)"
  using set_join_with [of c "split_on c s"] by simp

lemma split_once_Some_iff:
  "split_once c s = Some (a, b) \<longleftrightarrow> s = a @ c # b \<and> c \<notin> set a"
proof (induction s arbitrary: a)
  case Nil
  then show ?case by simp
next
  case (Cons x s)
  note IH = Cons.IH
  show ?case
  proof (cases a)
    case Nil
    then show ?thesis by (cases "split_once c s") auto
  next
    case (Cons y a')
    then show ?thesis using IH [of a'] by (cases "split_once c s") auto
  qed
qed

lemma starts_with_iff: "starts_with s p \<longleftrightarrow> (\<exists>r. s = p @ r)"
  by (auto simp: starts_with_def) (metis append_take_drop_id)

lemma contains_str_iff: "contains_str s n \<longleftrightarrow> (\<exists>a b. s = a @ n @ b)"
proof (induction s)
  case Nil
  then show ?case by simp
next
  case (Cons x s)
  show ?case
  proof
    assume "contains_str (x # s) n"
    then consider "starts_with (x # s) n" | "contains_str s n" by auto
    then show "\<exists>a b. x # s = a @ n @ b"
    proof cases
      case 1
      then show ?thesis unfolding starts_with_iff by (metis append_Nil)
    next
      case 2
      then show ?thesis using Cons.IH by (metis append_Cons)
    qed
  next
    assume "\<exists>a b. x # s = a @ n @ b"
    then obtain a b where ab: "x # s = a @ n @ b" by blast
    show "contains_str (x # s) n"
    proof (cases a)
      case Nil
      then have "starts_with (x # s) n" using ab starts_with_iff [of "x # s" n] by auto
      then show ?thesis by simp
    next
      case (Cons y a')
      then show ?thesis using ab Cons.IH by auto
    qed
  qed
qed

text \<open>An identifier \<open>a.b\<close> whose last part has no dot has only one such decomposition.\<close>

lemma last_sep_unique:
  assumes "a @ c # b = a' @ c # b'" "c \<notin> set b" "c \<notin> set b'"
  shows "a = a' \<and> b = b'"
  using assms
proof (induction a arbitrary: a')
  case Nil
  then show ?case by (cases a') auto
next
  case (Cons x a)
  then show ?case by (cases a') auto
qed

end
