(* ===== verification/Schema_Validation.thy ===== *)
theory Schema_Validation
  imports Json Rust_Strings
begin

text \<open>
  The schema check every payload passes on its way into and out of a capability:
  \<^verbatim>\<open>validate_value_against_schema\<close> and its helpers in
  \<^verbatim>\<open>crates/traverse-runtime/src/lib.rs\<close>. The checker is the source's, with the violations as the
  JSON objects it pushes, in its order; \<open>conforms\<close> is the declarative meaning of the supported
  keywords, and the main theorem relates the two.
\<close>

section \<open>Definitions\<close>

text \<open>\<^verbatim>\<open>json!({...})\<close>: the members in the order of their names.\<close>

definition json_obj :: "(string \<times> json) list \<Rightarrow> json" where
  "json_obj ms = JObject (fold (\<lambda>(k, v). obj_insert k v) ms [])"

fun as_bool :: "json \<Rightarrow> bool option" where
  "as_bool (JBool b) = Some b"
| "as_bool _ = None"

text \<open>\<^verbatim>\<open>text.chars().count()\<close> on UTF-8: the bytes that do not continue a character.\<close>

definition char_count :: "string \<Rightarrow> nat" where
  "char_count s = length (filter (\<lambda>c. \<not> (128 \<le> (of_char c :: nat) \<and> (of_char c :: nat) < 192)) s)"

definition schema_pointer :: "string \<Rightarrow> string \<Rightarrow> string" where
  "schema_pointer path segment = path @ ''/'' @ segment"

definition display_pointer :: "string \<Rightarrow> string" where
  "display_pointer path = (if path = [] then ''/'' else path)"

definition type_error :: "string \<Rightarrow> string \<Rightarrow> json" where
  "type_error path expected =
     json_obj [(''path'', JString (display_pointer path)), (''message'', JString (''expected '' @ expected))]"

definition required_fields :: "json_object \<Rightarrow> string list" where
  "required_fields schema =
     (case Option.bind (obj_get schema ''required'') as_array of
        None \<Rightarrow> []
      | Some required \<Rightarrow> List.map_filter as_str required)"

definition validate_required :: "json_object \<Rightarrow> json_object \<Rightarrow> string \<Rightarrow> json list" where
  "validate_required instance' schema path =
     map (\<lambda>f. json_obj [(''path'', JString (schema_pointer path f)), (''keyword'', JString ''required''),
                       (''message'', JString ''required property is missing'')])
       (filter (\<lambda>f. \<not> contains_key instance' f) (required_fields schema))"

definition property_schema :: "json_object \<Rightarrow> string \<Rightarrow> json option" where
  "property_schema schema key =
     (case Option.bind (obj_get schema ''properties'') as_object of
        None \<Rightarrow> None
      | Some props \<Rightarrow> obj_get props key)"

definition additional_allowed :: "json_object \<Rightarrow> bool" where
  "additional_allowed schema =
     (case Option.bind (obj_get schema ''additionalProperties'') as_bool of None \<Rightarrow> True | Some b \<Rightarrow> b)"

definition max_length_errors :: "json_object \<Rightarrow> string \<Rightarrow> string \<Rightarrow> json list" where
  "max_length_errors schema text path =
     (case Option.bind (obj_get schema ''maxLength'') as_u64 of
        None \<Rightarrow> []
      | Some max_length \<Rightarrow>
          if char_count text > max_length
          then [json_obj [(''path'', JString (display_pointer path)), (''keyword'', JString ''maxLength''),
                          (''message'', JString (''string longer than maxLength '' @ show_nat max_length))]]
          else [])"

text \<open>The types whose check does not look inside the value.\<close>

definition scalar_errors :: "string \<Rightarrow> json_object \<Rightarrow> json \<Rightarrow> string \<Rightarrow> json list" where
  "scalar_errors schema_type schema value path =
     (if schema_type = ''string'' then
        (case as_str value of None \<Rightarrow> [type_error path ''string''] | Some text \<Rightarrow> max_length_errors schema text path)
      else if schema_type = ''integer'' then
        (if as_i64 value = None \<and> as_u64 value = None then [type_error path ''integer''] else [])
      else if schema_type = ''number'' then
        (case value of JNumber n \<Rightarrow> [] | _ \<Rightarrow> [type_error path ''number''])
      else if schema_type = ''boolean'' then
        (case value of JBool b \<Rightarrow> [] | _ \<Rightarrow> [type_error path ''boolean''])
      else if schema_type = ''null'' then
        (if value = JNull then [] else [type_error path ''null''])
      else [])"

definition schema_not_an_object :: "string \<Rightarrow> json" where
  "schema_not_an_object path =
     json_obj [(''path'', JString (display_pointer path)), (''message'', JString ''schema must be an object'')]"

definition additional_error :: "string \<Rightarrow> string \<Rightarrow> json" where
  "additional_error path key =
     json_obj [(''path'', JString (schema_pointer path key)), (''keyword'', JString ''additionalProperties''),
               (''message'', JString ''additional property is not allowed'')]"

text \<open>The three functions recurse through each other: a value, the items of an array from an
  index on, the members of an object.\<close>

fun validate_value_against_schema :: "json \<Rightarrow> json \<Rightarrow> string \<Rightarrow> json list"
  and validate_items :: "json list \<Rightarrow> json \<Rightarrow> nat \<Rightarrow> string \<Rightarrow> json list"
  and validate_properties :: "json_object \<Rightarrow> json_object \<Rightarrow> string \<Rightarrow> json list" where
  "validate_value_against_schema value schema path =
     (case as_object schema of
        None \<Rightarrow> [schema_not_an_object path]
      | Some schema_object \<Rightarrow>
          (case get_str schema_object ''type'' of
             None \<Rightarrow> []
           | Some schema_type \<Rightarrow>
               if schema_type = ''object'' then
                 (case value of
                    JObject ms \<Rightarrow> validate_required ms schema_object path @ validate_properties ms schema_object path
                  | _ \<Rightarrow> [type_error path ''object''])
               else if schema_type = ''array'' then
                 (case value of
                    JArray items \<Rightarrow>
                      (case obj_get schema_object ''items'' of
                         None \<Rightarrow> []
                       | Some item_schema \<Rightarrow> validate_items items item_schema 0 path)
                  | _ \<Rightarrow> [type_error path ''array''])
               else scalar_errors schema_type schema_object value path))"
| "validate_items [] item_schema i path = []"
| "validate_items (item # items) item_schema i path =
     validate_value_against_schema item item_schema (schema_pointer path (show_nat i))
     @ validate_items items item_schema (Suc i) path"
| "validate_properties [] schema path = []"
| "validate_properties ((key, value) # ms) schema path =
     (case property_schema schema key of
        Some prop \<Rightarrow> validate_value_against_schema value prop (schema_pointer path key)
      | None \<Rightarrow> if \<not> additional_allowed schema then [additional_error path key] else [])
     @ validate_properties ms schema path"

declare validate_value_against_schema.simps [simp del]

datatype RuntimeErrorCode =
  RequestInvalid | RtCapabilityNotFound | CapabilityAmbiguous | CapabilityNotRunnable
| PlacementUnsupportedError | ArtifactMissingError | ExecutionFailedError | OutputValidationFailed
| ContractViolationError

record RuntimeError =
  re_code :: RuntimeErrorCode
  re_message :: string
  re_details :: json

definition runtime_error :: "RuntimeErrorCode \<Rightarrow> string \<Rightarrow> json \<Rightarrow> RuntimeError" where
  "runtime_error code message details = \<lparr>re_code = code, re_message = message, re_details = details\<rparr>"

definition validate_payload_against_contract ::
  "json \<Rightarrow> json \<Rightarrow> RuntimeErrorCode \<Rightarrow> string \<Rightarrow> (unit, RuntimeError) result" where
  "validate_payload_against_contract payload schema code message =
     (let errors = validate_value_against_schema payload schema []
      in if errors = [] then Ok ()
         else Err (runtime_error code message (json_obj [(''violations'', JArray errors)])))"

subsection \<open>The meaning of a schema\<close>

text \<open>A schema without a type, or with one outside the seven known types, accepts everything.\<close>

definition known_types :: "string set" where
  "known_types = {''object'', ''array'', ''string'', ''integer'', ''number'', ''boolean'', ''null''}"

definition within_max_length :: "json_object \<Rightarrow> string \<Rightarrow> bool" where
  "within_max_length schema text \<longleftrightarrow>
     (\<forall>n. obj_get schema ''maxLength'' = Some (JNumber (PosInt n)) \<longrightarrow> char_count text \<le> n)"

text \<open>An integer \<^verbatim>\<open>serde_json\<close> holds as one: 64 bits, signed or unsigned.\<close>

definition is_integer :: "json \<Rightarrow> bool" where
  "is_integer v \<longleftrightarrow> (\<exists>n. v = JNumber (PosInt n)) \<or> (\<exists>i. v = JNumber (NegInt i))"

inductive conforms :: "json \<Rightarrow> json \<Rightarrow> bool" where
  untyped: "get_str s ''type'' = None \<Longrightarrow> conforms v (JObject s)"
| unknown: "get_str s ''type'' = Some t \<Longrightarrow> t \<notin> known_types \<Longrightarrow> conforms v (JObject s)"
| object: "get_str s ''type'' = Some ''object'' \<Longrightarrow>
     (\<And>f. f \<in> set (required_fields s) \<Longrightarrow> f \<in> fst ` set ms) \<Longrightarrow>
     (\<And>k v p. (k, v) \<in> set ms \<Longrightarrow> property_schema s k = Some p \<Longrightarrow> conforms v p) \<Longrightarrow>
     (\<And>k. k \<in> fst ` set ms \<Longrightarrow> property_schema s k = None \<Longrightarrow> additional_allowed s) \<Longrightarrow>
     conforms (JObject ms) (JObject s)"
| array: "get_str s ''type'' = Some ''array'' \<Longrightarrow>
     (\<And>p v. obj_get s ''items'' = Some p \<Longrightarrow> v \<in> set xs \<Longrightarrow> conforms v p) \<Longrightarrow>
     conforms (JArray xs) (JObject s)"
| str: "get_str s ''type'' = Some ''string'' \<Longrightarrow> within_max_length s t \<Longrightarrow> conforms (JString t) (JObject s)"
| integer: "get_str s ''type'' = Some ''integer'' \<Longrightarrow> is_integer v \<Longrightarrow> conforms v (JObject s)"
| number: "get_str s ''type'' = Some ''number'' \<Longrightarrow> conforms (JNumber n) (JObject s)"
| boolean: "get_str s ''type'' = Some ''boolean'' \<Longrightarrow> conforms (JBool b) (JObject s)"
| null: "get_str s ''type'' = Some ''null'' \<Longrightarrow> conforms JNull (JObject s)"

inductive_cases conforms_JObjectE: "conforms v (JObject s)"

section \<open>Lemmas\<close>

lemma as_object_None_iff: "as_object v = None \<longleftrightarrow> (\<forall>ms. v \<noteq> JObject ms)"
  by (cases v) auto

lemma conforms_schema_object: "conforms v s \<Longrightarrow> \<exists>ms. s = JObject ms"
  by (cases rule: conforms.cases) auto

text \<open>One clause per type, read backwards.\<close>

lemma validate_required_Nil_iff:
  "validate_required ms s path = [] \<longleftrightarrow> set (required_fields s) \<subseteq> fst ` set ms"
  by (auto simp: validate_required_def filter_empty_conv contains_key_def obj_get_None_iff)

lemma conforms_object_iff:
  assumes "get_str s ''type'' = Some ''object''"
  shows "conforms v (JObject s) \<longleftrightarrow>
     (\<exists>ms. v = JObject ms \<and> set (required_fields s) \<subseteq> fst ` set ms \<and>
        (\<forall>(k, x) \<in> set ms. case property_schema s k of Some p \<Rightarrow> conforms x p | None \<Rightarrow> additional_allowed s))"
  (is "?L \<longleftrightarrow> ?R")
proof
  assume ?L
  then obtain ms where "v = JObject ms" "\<And>f. f \<in> set (required_fields s) \<Longrightarrow> f \<in> fst ` set ms"
    and known: "\<And>k x p. (k, x) \<in> set ms \<Longrightarrow> property_schema s k = Some p \<Longrightarrow> conforms x p"
    and extra: "\<And>k. k \<in> fst ` set ms \<Longrightarrow> property_schema s k = None \<Longrightarrow> additional_allowed s"
    by (cases rule: conforms.cases) (use assms in \<open>simp_all add: known_types_def\<close>)
  moreover have "case property_schema s k of Some p \<Rightarrow> conforms x p | None \<Rightarrow> additional_allowed s"
    if "(k, x) \<in> set ms" for k x
    using known [OF that] extra [of k] that by (cases "property_schema s k") force+
  ultimately show ?R by blast
next
  assume ?R
  then obtain ms where ms: "v = JObject ms" "set (required_fields s) \<subseteq> fst ` set ms"
    and each: "\<forall>(k, x) \<in> set ms. case property_schema s k of Some p \<Rightarrow> conforms x p | None \<Rightarrow> additional_allowed s"
    by blast
  show ?L
    unfolding ms
  proof (rule conforms.object [OF assms])
    fix f assume "f \<in> set (required_fields s)" then show "f \<in> fst ` set ms" using ms by blast
  next
    fix k x p assume "(k, x) \<in> set ms" "property_schema s k = Some p"
    then show "conforms x p" using each by force
  next
    fix k assume "k \<in> fst ` set ms" "property_schema s k = None"
    then show "additional_allowed s" using each by force
  qed
qed

lemma conforms_array_iff:
  assumes "get_str s ''type'' = Some ''array''"
  shows "conforms v (JObject s) \<longleftrightarrow>
     (\<exists>xs. v = JArray xs \<and> (\<forall>p. obj_get s ''items'' = Some p \<longrightarrow> (\<forall>x \<in> set xs. conforms x p)))"
  (is "?L \<longleftrightarrow> ?R")
proof
  assume ?L
  then show ?R
    by (cases rule: conforms.cases) (use assms in \<open>auto simp: known_types_def\<close>)
next
  assume ?R
  then show ?L using assms by (auto intro: conforms.array)
qed

lemma max_length_errors_Nil_iff: "max_length_errors s t path = [] \<longleftrightarrow> within_max_length s t"
proof -
  have "as_u64 v = Some n \<longleftrightarrow> v = JNumber (PosInt n)" for v n
    by (cases v rule: as_u64.cases) auto
  then show ?thesis
    by (cases "obj_get s ''maxLength''") (auto simp: max_length_errors_def within_max_length_def split: option.splits)
qed

lemma not_integer_iff: "as_i64 v = None \<and> as_u64 v = None \<longleftrightarrow> \<not> is_integer v"
  by (cases v rule: as_u64.cases) (auto simp: is_integer_def)

lemma scalar_errors_Nil_iff:
  assumes t: "get_str s ''type'' = Some t" and other: "t \<noteq> ''object''" "t \<noteq> ''array''"
  shows "scalar_errors t s v path = [] \<longleftrightarrow> conforms v (JObject s)"
  (is "?L \<longleftrightarrow> ?R")
proof
  assume ?L
  show ?R
  proof (cases "t \<in> known_types")
    case False
    with t show ?thesis by (rule conforms.unknown)
  next
    case True
    then have "t = ''string'' \<or> t = ''integer'' \<or> t = ''number'' \<or> t = ''boolean'' \<or> t = ''null''"
      using other by (simp add: known_types_def)
    then show ?thesis
    proof (elim disjE, goal_cases)
      case 1
      then obtain w where "v = JString w" "max_length_errors s w path = []"
        using \<open>?L\<close> by (cases v) (simp_all add: scalar_errors_def)
      then show ?thesis using t 1 by (simp add: max_length_errors_Nil_iff conforms.str)
    next
      case 2
      then have "\<not> (as_i64 v = None \<and> as_u64 v = None)"
        using \<open>?L\<close> by (auto simp: scalar_errors_def split: if_splits)
      then have "is_integer v" by (simp add: not_integer_iff)
      then show ?thesis using t 2 by (simp add: conforms.integer)
    next
      case 3
      then obtain n where "v = JNumber n"
        using \<open>?L\<close> by (cases v) (simp_all add: scalar_errors_def)
      then show ?thesis using t 3 by (simp add: conforms.number)
    next
      case 4
      then obtain b where "v = JBool b"
        using \<open>?L\<close> by (cases v) (simp_all add: scalar_errors_def)
      then show ?thesis using t 4 by (simp add: conforms.boolean)
    next
      case 5
      then have "v = JNull"
        using \<open>?L\<close> by (simp add: scalar_errors_def split: if_splits)
      then show ?thesis using t 5 by (simp add: conforms.null)
    qed
  qed
next
  assume ?R
  then show ?L
  proof (cases rule: conforms.cases)
    case integer
    then have "\<not> (as_i64 v = None \<and> as_u64 v = None)" by (simp add: not_integer_iff)
    with integer t show ?thesis by (simp add: scalar_errors_def)
  qed (use t other in \<open>simp_all add: scalar_errors_def max_length_errors_Nil_iff known_types_def\<close>)
qed

lemma validate_Nil_iff:
  "validate_value_against_schema v s path = [] \<longleftrightarrow> conforms v s"
  "validate_items xs p i path = [] \<longleftrightarrow> (\<forall>x \<in> set xs. conforms x p)"
  "validate_properties ms so path = [] \<longleftrightarrow>
     (\<forall>(k, x) \<in> set ms. case property_schema so k of Some q \<Rightarrow> conforms x q | None \<Rightarrow> additional_allowed so)"
proof (induction v s path and xs p i path and ms so path
    rule: validate_value_against_schema_validate_items_validate_properties.induct)
  case (1 v s path)
  show ?case
  proof (cases "as_object s")
    case None
    then show ?thesis
      using conforms_schema_object [of v s] as_object_None_iff [of s]
      by (auto simp: validate_value_against_schema.simps [of v s path])
  next
    case (Some so)
    note so = this as_object_Some [OF this]
    show ?thesis
    proof (cases "get_str so ''type''")
      case None
      then show ?thesis
        using so by (auto simp: validate_value_against_schema.simps intro: conforms.untyped)
    next
      case (Some t)
      consider "t = ''object''" | "t = ''array''" | "t \<noteq> ''object''" "t \<noteq> ''array''" by blast
      then show ?thesis
      proof cases
        case 1
        note IH = "1.IH"(1) [OF so(1) Some 1]
        have t: "get_str so ''type'' = Some ''object''" using Some 1 by simp
        have "validate_value_against_schema v s path =
            (case v of JObject ms \<Rightarrow> validate_required ms so path @ validate_properties ms so path
             | _ \<Rightarrow> [type_error path ''object''])"
          by (simp add: validate_value_against_schema.simps [of v s path] so(1) t)
        then show ?thesis
          unfolding so(2) conforms_object_iff [OF t]
          using IH by (cases v) (simp_all add: validate_required_Nil_iff)
      next
        case 2
        then have no: "t \<noteq> ''object''" by simp
        note IH = "1.IH"(2) [OF so(1) Some no 2]
        have t: "get_str so ''type'' = Some ''array''" using Some 2 by simp
        have "validate_value_against_schema v s path =
            (case v of JArray xs \<Rightarrow> (case obj_get so ''items'' of None \<Rightarrow> [] | Some p \<Rightarrow> validate_items xs p 0 path)
             | _ \<Rightarrow> [type_error path ''array''])"
          by (simp add: validate_value_against_schema.simps [of v s path] so(1) t)
        then show ?thesis
          unfolding so(2) conforms_array_iff [OF t]
          using IH by (cases v; cases "obj_get so ''items''") simp_all
      next
        case 3
        then show ?thesis
          using so Some scalar_errors_Nil_iff [OF Some 3]
          by (simp add: validate_value_against_schema.simps [of v "JObject so" path])
      qed
    qed
  qed
qed (auto split: option.splits)

section \<open>The checker decides conformance\<close>

text \<open>
  C13: The payload check accepts exactly the values that conform to the schema: for every
  value, schema and path the list of violations is empty if and only if the declarative
  conformance relation holds, so that the contract check of a payload succeeds if and only if
  the payload conforms to the schema, and otherwise fails with the given code and message and
  a non-empty array of violations.
\<close>

theorem schema_check_decides_conformance:
  "(validate_value_against_schema v s path = [] \<longleftrightarrow> conforms v s) \<and>
   (case validate_payload_against_contract v s code msg of
      Inr _ \<Rightarrow> conforms v s
    | Inl e \<Rightarrow> \<not> conforms v s \<and> re_code e = code \<and> re_message e = msg \<and>
        (\<exists>x xs. re_details e = json_obj [(''violations'', JArray (x # xs))]))"
proof (cases "validate_value_against_schema v s []")
  case Nil
  then show ?thesis
    using validate_Nil_iff(1) [of v s "[]"] validate_Nil_iff(1) [of v s path]
    by (simp add: validate_payload_against_contract_def Let_def)
next
  case (Cons x xs)
  then show ?thesis
    using validate_Nil_iff(1) [of v s "[]"] validate_Nil_iff(1) [of v s path]
    by (auto simp: validate_payload_against_contract_def runtime_error_def Let_def)
qed

lemma validate_payload_Ok_iff: "validate_payload_against_contract v s code msg = Inr u \<longleftrightarrow> conforms v s"
  using validate_Nil_iff(1) [of v s "[]"] by (simp add: validate_payload_against_contract_def Let_def)

text \<open>
  A violation's path joins member names with slashes and does not escape a slash inside a
  name, so that it does not always name one location.
\<close>

lemma violation_paths_collide:
  "schema_pointer (schema_pointer p ''a'') ''b'' = schema_pointer p ''a/b''"
  by (simp add: schema_pointer_def)

end
