(* ===== verification/Contracts.thy ===== *)
theory Contracts
  imports Json Rust_Strings "HOL-Library.Word"
begin

text \<open>
  Capability, event and connector contracts and their validation:
  \<^verbatim>\<open>crates/traverse-contracts/src/lib.rs\<close>. The contract types with the fields of the source, the
  validation functions as lists of errors in the order in which the source pushes them, and the
  digest that makes a published version immutable.

  \<^item> A validation error keeps its code and path; message and the single severity are left out.
  \<^item> The \<^verbatim>\<open>semver\<close> crate is the parameters \<open>version_ok\<close> and \<open>version_req_ok\<close>: whether
    \<^verbatim>\<open>Version::parse\<close> and \<^verbatim>\<open>VersionReq::parse\<close> succeed.
  \<^item> The digest hashes the derived \<^verbatim>\<open>Debug\<close> rendering of a contract, a parameter \<open>debug\<close>.
\<close>

unbundle bit_operations_syntax

section \<open>Definitions\<close>

subsection \<open>Contract data\<close>

datatype EffectClass = PureRead | StateWrite | ExternalEffect | IrreversibleEffect

datatype DeterminismClass = Deterministic | ExternallyVariable | ModelDerived

datatype DataClassification = Public | Internal | Confidential | Restricted

text \<open>The derived order of the source: the order of declaration.\<close>

fun classification_rank :: "DataClassification \<Rightarrow> nat" where
  "classification_rank Public = 0"
| "classification_rank Internal = 1"
| "classification_rank Confidential = 2"
| "classification_rank Restricted = 3"

lemma classification_rank_inject [simp]: "classification_rank x = classification_rank y \<longleftrightarrow> x = y"
  by (cases x; cases y) simp_all

instantiation DataClassification :: linorder
begin

definition less_eq_DataClassification :: "DataClassification \<Rightarrow> DataClassification \<Rightarrow> bool" where
  "x \<le> y \<longleftrightarrow> classification_rank x \<le> classification_rank y"

definition less_DataClassification :: "DataClassification \<Rightarrow> DataClassification \<Rightarrow> bool" where
  "x < y \<longleftrightarrow> classification_rank x < classification_rank y"

instance
  by standard (auto simp: less_eq_DataClassification_def less_DataClassification_def)

end

record FieldDataClassification =
  field_path :: string
  classification :: DataClassification

datatype EgressPolicy = Denied | AllowedConnectors "string list"

record DataFlowPolicy =
  accepted_data_classifications :: "FieldDataClassification list"
  produced_data_classifications :: "FieldDataClassification list"
  egress_policy :: EgressPolicy

record ReliabilityMetadata =
  idempotency_required :: bool
  retryable :: bool
  compensation_available :: bool

record RiskMetadata =
  effect_class :: EffectClass
  determinism_class :: DeterminismClass
  data_flow :: DataFlowPolicy
  reliability :: ReliabilityMetadata

record ManifestRiskPolicy =
  egress_allowed_connectors :: "string list option"

datatype Lifecycle = Draft | Active | Deprecated | Retired | Archived

fun is_runtime_eligible :: "Lifecycle \<Rightarrow> bool" where
  "is_runtime_eligible Active = True"
| "is_runtime_eligible Deprecated = True"
| "is_runtime_eligible _ = False"

record Owner =
  team :: string
  contact :: string

record Condition =
  condition_id :: string
  condition_description :: string

datatype SideEffectKind =
  NoSideEffect | MemoryOnly | EventEmission | ExternalCall | StateChange

record SideEffect =
  side_effect_kind :: SideEffectKind
  side_effect_description :: string

record EventReference =
  er_event_id :: string
  er_version :: string

record IdReference =
  reference_id :: string

record SchemaContainer =
  sc_schema :: json

datatype BinaryFormat = Wasm

datatype EntrypointKind = WasiCommand

record Entrypoint =
  entrypoint_kind :: EntrypointKind
  entrypoint_command :: string

datatype ExecutionTarget = Local | Browser | Edge | Cloud | Worker | Device

datatype HostApiAccess = NoHostApi | ExceptionRequired

datatype NetworkAccess = Forbidden | NetworkRequired

datatype FilesystemAccess = NoFilesystem | SandboxOnly

record ExecutionConstraints =
  host_api_access :: HostApiAccess
  network_access :: NetworkAccess
  filesystem_access :: FilesystemAccess

record ExecutionResources =
  min_memory_bytes :: "nat option"
  max_fuel :: "nat option"

record Execution =
  binary_format :: BinaryFormat
  entrypoint :: Entrypoint
  preferred_targets :: "ExecutionTarget list"
  constraints :: ExecutionConstraints
  resources :: "ExecutionResources option"

datatype DependencyArtifactType = CapabilityArtifact | EventArtifact | PolicyArtifact

record DependencyReference =
  artifact_type :: DependencyArtifactType
  dependency_id :: string
  dependency_version :: string

datatype ProvenanceSource = Greenfield | BrownfieldExtracted | AiGenerated | AiAssisted

record Provenance =
  provenance_source :: ProvenanceSource
  author :: string
  created_at :: string
  spec_ref :: "string option"
  adr_refs :: "string list"
  exception_refs :: "string list"

datatype EvidenceType = SpecAlignment | ContractValidation | Compatibility

datatype EvidenceStatus = EvidencePassed | EvidenceFailed | Superseded

record ValidationEvidence =
  evidence_id :: string
  evidence_type :: EvidenceType
  evidence_status :: EvidenceStatus

datatype ServiceType = Stateless | Subscribable | Stateful

record ConnectorRequirement =
  requirement_connector_id :: string
  requirement_version :: string

record UseCase =
  scenario :: string
  input_example :: json
  output_example :: json
  happy :: bool
  persona_ref :: "string option"

record CapabilityContract =
  cc_kind :: string
  cc_schema_version :: string
  cc_id :: string
  cc_namespace :: string
  cc_name :: string
  cc_version :: string
  cc_lifecycle :: Lifecycle
  cc_owner :: Owner
  cc_summary :: string
  cc_description :: string
  cc_inputs :: SchemaContainer
  cc_outputs :: SchemaContainer
  cc_preconditions :: "Condition list"
  cc_postconditions :: "Condition list"
  cc_side_effects :: "SideEffect list"
  cc_emits :: "EventReference list"
  cc_consumes :: "EventReference list"
  cc_permissions :: "IdReference list"
  cc_execution :: Execution
  cc_policies :: "IdReference list"
  cc_dependencies :: "DependencyReference list"
  cc_provenance :: Provenance
  cc_evidence :: "ValidationEvidence list"
  cc_service_type :: ServiceType
  cc_permitted_targets :: "ExecutionTarget list"
  cc_event_trigger :: "string option"
  cc_connector_requirements :: "ConnectorRequirement list"
  cc_state_schema :: "json option"
  cc_use_cases :: "UseCase list"
  cc_risk :: RiskMetadata

record HostAdapterWit =
  wit_package :: string
  wit_version :: string
  wit_path :: string
  wit_interface :: string

record ConnectorOperationEnvelope =
  operation_id :: string
  request_schema :: json
  success_schema :: json
  failure_classes :: "string list"

record ConnectorContract =
  con_kind :: string
  con_schema_version :: string
  con_connector_id :: string
  con_version :: string
  capabilities_provided :: "string list"
  required_config_schema :: json
  operation_envelopes :: "ConnectorOperationEnvelope list"
  supported_placement_targets :: "ExecutionTarget list"
  host_adapter_wit :: "HostAdapterWit option"

datatype PayloadCompatibility = BackwardCompatible | ForwardCompatible | Breaking

record EventPayload =
  payload_schema :: json
  compatibility :: PayloadCompatibility

datatype EventType = Domain | Integration | System

record EventClassification =
  ec_domain :: string
  ec_bounded_context :: string
  ec_event_type :: EventType
  ec_tags :: "string list"

record CapabilityReference =
  cr_capability_id :: string
  cr_version :: string

datatype EventProvenanceSource = EvGreenfield | EvBrownfield | EvAiGenerated | EvExtracted

record EventProvenance =
  ev_source :: EventProvenanceSource
  ev_author :: string
  ev_created_at :: string

record EventValidationEvidence =
  eve_kind :: string
  eve_ref :: string

record EventContract =
  evc_kind :: string
  evc_schema_version :: string
  evc_id :: string
  evc_namespace :: string
  evc_name :: string
  evc_version :: string
  evc_lifecycle :: Lifecycle
  evc_owner :: Owner
  evc_summary :: string
  evc_description :: string
  evc_payload :: EventPayload
  evc_classification :: EventClassification
  evc_publishers :: "CapabilityReference list"
  evc_subscribers :: "CapabilityReference list"
  evc_policies :: "IdReference list"
  evc_tags :: "string list"
  evc_provenance :: EventProvenance
  evc_evidence :: "EventValidationEvidence list"

record PublishedRecord =
  published_id :: string
  published_version :: string
  published_digest :: string
  published_lifecycle :: Lifecycle

record ValidationContext =
  governing_spec :: string
  validator_version :: string
  existing_published :: "PublishedRecord option"

record ProducedValidationEvidence =
  artifact_id :: string
  artifact_version :: string
  pve_governing_spec :: string
  pve_validator_version :: string
  pve_status :: EvidenceStatus

datatype ValidationErrorCode =
  MissingRequiredField | InvalidLiteral | InvalidFormat | InvalidSemver | InconsistentIdentity
| DuplicateItem | InvalidCapabilityBoundary | InvalidEventBoundary | UnsupportedBinaryFormat
| UnsupportedEntrypoint | PortabilityExceptionRequired | ImmutableVersionConflict
| InvalidDependencyRef | InvalidPlacementConstraint | MissingEventTrigger | MissingStateSchema
| InvalidConnectorContract | InvalidConnectorRequirement | RiskPolicyWeakened

record ValidationError =
  ve_code :: ValidationErrorCode
  ve_path :: string

type_synonym errors = "ValidationError list"

definition ve :: "ValidationErrorCode \<Rightarrow> string \<Rightarrow> ValidationError" where
  "ve code path = \<lparr>ve_code = code, ve_path = path\<rparr>"

subsection \<open>Risk metadata\<close>

definition default_data_flow :: DataFlowPolicy where
  "default_data_flow = \<lparr>accepted_data_classifications = [], produced_data_classifications = [],
     egress_policy = Denied\<rparr>"

definition default_risk_metadata :: RiskMetadata where
  "default_risk_metadata = \<lparr>effect_class = IrreversibleEffect, determinism_class = ModelDerived,
     data_flow = default_data_flow,
     reliability = \<lparr>idempotency_required = True, retryable = False, compensation_available = False\<rparr>\<rparr>"

definition is_automatic_eligible :: "RiskMetadata \<Rightarrow> bool" where
  "is_automatic_eligible risk \<longleftrightarrow>
     effect_class risk = PureRead \<and> determinism_class risk = Deterministic
   \<and> egress_policy (data_flow risk) = Denied \<and> \<not> idempotency_required (reliability risk)"

definition validate_manifest_risk_policy ::
  "RiskMetadata \<Rightarrow> ManifestRiskPolicy \<Rightarrow> (unit, errors) result" where
  "validate_manifest_risk_policy risk policy =
     (let path = ''$.risk_policy.egress_allowed_connectors'';
          errs = (case egress_allowed_connectors policy of
                    None \<Rightarrow> []
                  | Some declared \<Rightarrow>
                      (case egress_policy (data_flow risk) of
                         Denied \<Rightarrow> if declared \<noteq> [] then [ve RiskPolicyWeakened path] else []
                       | AllowedConnectors allowed \<Rightarrow>
                           concat (map (\<lambda>c. if c \<notin> set allowed then [ve RiskPolicyWeakened path] else []) declared)))
      in if errs = [] then Ok () else Err errs)"

datatype resource_error = MemoryExceedsHost string nat nat | FuelExceedsHost string nat nat

definition host_meets_execution_resources ::
  "string \<Rightarrow> ExecutionResources \<Rightarrow> nat \<Rightarrow> nat \<Rightarrow> (unit, resource_error) result" where
  "host_meets_execution_resources cap res host_memory host_fuel =
     and_then
       (case min_memory_bytes res of
          Some required \<Rightarrow> if required > host_memory then Err (MemoryExceedsHost cap required host_memory) else Ok ()
        | None \<Rightarrow> Ok ())
       (\<lambda>_. case max_fuel res of
          Some required \<Rightarrow> if required > host_fuel then Err (FuelExceedsHost cap required host_fuel) else Ok ()
        | None \<Rightarrow> Ok ())"

subsection \<open>Shared checks\<close>

definition ve_non_empty :: "string \<Rightarrow> string \<Rightarrow> errors" where
  "ve_non_empty value path = (if blank value then [ve MissingRequiredField path] else [])"

definition validate_min_length :: "string \<Rightarrow> string \<Rightarrow> nat \<Rightarrow> errors" where
  "validate_min_length value path n = (if length (trim value) < n then [ve InvalidFormat path] else [])"

text \<open>One error for the first repetition, then \<^verbatim>\<open>break\<close>.\<close>

fun validate_unique_from :: "string list \<Rightarrow> string \<Rightarrow> string set \<Rightarrow> errors" where
  "validate_unique_from [] path seen = []"
| "validate_unique_from (v # vs) path seen =
     (if v \<in> seen then [ve DuplicateItem path] else validate_unique_from vs path (insert v seen))"

definition validate_unique_strings :: "string list \<Rightarrow> string \<Rightarrow> errors" where
  "validate_unique_strings vs path = validate_unique_from vs path {}"

definition validate_semver :: "(string \<Rightarrow> bool) \<Rightarrow> string \<Rightarrow> string \<Rightarrow> errors" where
  "validate_semver version_ok value path = (if version_ok value then [] else [ve InvalidSemver path])"

definition is_valid_segment :: "string \<Rightarrow> bool" where
  "is_valid_segment s \<longleftrightarrow> s \<noteq> [] \<and> list_all (\<lambda>c. is_ascii_lowercase c \<or> is_ascii_digit c) s"

definition is_valid_name :: "string \<Rightarrow> bool" where
  "is_valid_name n \<longleftrightarrow> list_all is_valid_segment (split_on CHR ''-'' n)"

definition is_valid_namespace :: "string \<Rightarrow> bool" where
  "is_valid_namespace n \<longleftrightarrow> list_all is_valid_name (split_on CHR ''.'' n)"

text \<open>
  The shape the item loops share: checks of one item, then an error when its key was already
  seen. \<open>at\<close> is the path of the item at an index.
\<close>

definition at_index :: "string \<Rightarrow> nat \<Rightarrow> string" where
  "at_index path i = path @ ''['' @ show_nat i @ '']''"

fun item_loop ::
  "(string \<Rightarrow> 'a \<Rightarrow> errors) \<Rightarrow> ('a \<Rightarrow> 'k) \<Rightarrow> string \<Rightarrow> string \<Rightarrow> nat \<Rightarrow> 'a list \<Rightarrow> 'k set \<Rightarrow> errors" where
  "item_loop check key field path i [] seen = []"
| "item_loop check key field path i (x # xs) seen =
     check (at_index path i) x
     @ (if key x \<in> seen then [ve DuplicateItem (at_index path i @ field)] else [])
     @ item_loop check key field path (Suc i) xs (insert (key x) seen)"

definition validate_conditions :: "Condition list \<Rightarrow> string \<Rightarrow> errors" where
  "validate_conditions cs path =
     item_loop (\<lambda>p c. ve_non_empty (condition_id c) (p @ ''.id'')
                    @ ve_non_empty (condition_description c) (p @ ''.description''))
       condition_id ''.id'' path 0 cs {}"

definition validate_event_references :: "(string \<Rightarrow> bool) \<Rightarrow> EventReference list \<Rightarrow> string \<Rightarrow> errors" where
  "validate_event_references version_ok rs path =
     item_loop (\<lambda>p r. ve_non_empty (er_event_id r) (p @ ''.event_id'')
                    @ validate_semver version_ok (er_version r) (p @ ''.version''))
       (\<lambda>r. (er_event_id r, er_version r)) ''.event_id'' path 0 rs {}"

definition validate_capability_references ::
  "(string \<Rightarrow> bool) \<Rightarrow> CapabilityReference list \<Rightarrow> string \<Rightarrow> bool \<Rightarrow> errors" where
  "validate_capability_references version_ok rs path require_one =
     (if require_one \<and> rs = [] then [ve MissingRequiredField path] else [])
     @ item_loop (\<lambda>p r. ve_non_empty (cr_capability_id r) (p @ ''.capability_id'')
                    @ validate_semver version_ok (cr_version r) (p @ ''.version''))
       (\<lambda>r. (cr_capability_id r, cr_version r)) ''.capability_id'' path 0 rs {}"

definition validate_id_references :: "IdReference list \<Rightarrow> string \<Rightarrow> errors" where
  "validate_id_references rs path =
     item_loop (\<lambda>p r. ve_non_empty (reference_id r) (p @ ''.id'')) reference_id ''.id'' path 0 rs {}"

definition validate_dependencies :: "(string \<Rightarrow> bool) \<Rightarrow> DependencyReference list \<Rightarrow> errors" where
  "validate_dependencies version_ok ds =
     item_loop (\<lambda>p d. ve_non_empty (dependency_id d) (p @ ''.id'')
                    @ validate_semver version_ok (dependency_version d) (p @ ''.version''))
       (\<lambda>d. (artifact_type d, dependency_id d, dependency_version d)) ''.id'' ''$.dependencies'' 0 ds {}"

definition validate_connector_requirements ::
  "(string \<Rightarrow> bool) \<Rightarrow> ConnectorRequirement list \<Rightarrow> errors" where
  "validate_connector_requirements version_req_ok rs =
     item_loop (\<lambda>p r. ve_non_empty (requirement_connector_id r) (p @ ''.connector_id'')
                    @ (if version_req_ok (requirement_version r) then []
                       else [ve InvalidConnectorRequirement (p @ ''.version'')]))
       (\<lambda>r. (requirement_connector_id r, requirement_version r)) ''.connector_id''
       ''$.connector_requirements'' 0 rs {}"

definition validate_evidence :: "ValidationEvidence list \<Rightarrow> errors" where
  "validate_evidence es =
     item_loop (\<lambda>p e. ve_non_empty (evidence_id e) (p @ ''.evidence_id'')) evidence_id ''.evidence_id''
       ''$.evidence'' 0 es {}"

definition validate_event_evidence :: "EventValidationEvidence list \<Rightarrow> errors" where
  "validate_event_evidence es =
     item_loop (\<lambda>p e. ve_non_empty (eve_kind e) (p @ ''.kind'') @ ve_non_empty (eve_ref e) (p @ ''.ref''))
       (\<lambda>e. (eve_kind e, eve_ref e)) ''.kind'' ''$.evidence'' 0 es {}"

definition validate_field_classifications :: "FieldDataClassification list \<Rightarrow> string \<Rightarrow> errors" where
  "validate_field_classifications fs path =
     item_loop (\<lambda>p f. ve_non_empty (field_path f) (p @ ''.field_path'')) field_path ''.field_path'' path 0 fs {}"

text \<open>An index loop without a uniqueness check.\<close>

fun each_item :: "(string \<Rightarrow> 'a \<Rightarrow> errors) \<Rightarrow> string \<Rightarrow> nat \<Rightarrow> 'a list \<Rightarrow> errors" where
  "each_item check path i [] = []"
| "each_item check path i (x # xs) = check (at_index path i) x @ each_item check path (Suc i) xs"

definition validate_tags :: "string list \<Rightarrow> string \<Rightarrow> bool \<Rightarrow> errors" where
  "validate_tags tags path require_one =
     (if require_one \<and> tags = [] then [ve MissingRequiredField path] else [])
     @ each_item (\<lambda>p t. ve_non_empty t p) path 0 tags
     @ validate_unique_strings tags path"

definition validate_side_effects :: "SideEffect list \<Rightarrow> errors" where
  "validate_side_effects es =
     (if es = [] then [ve MissingRequiredField ''$.side_effects''] else [])
     @ each_item (\<lambda>p e. ve_non_empty (side_effect_description e) (p @ ''.description'')) ''$.side_effects'' 0 es"

definition validate_owner :: "Owner \<Rightarrow> errors" where
  "validate_owner ow = ve_non_empty (team ow) ''$.owner.team'' @ ve_non_empty (contact ow) ''$.owner.contact''"

definition validate_summary :: "string \<Rightarrow> string \<Rightarrow> errors" where
  "validate_summary s path =
     (if length (trim s) < 10 \<or> length s > 200 then [ve InvalidFormat path] else [])"

definition validate_description :: "string \<Rightarrow> string \<Rightarrow> errors" where
  "validate_description s path = (if length (trim s) < 20 then [ve InvalidFormat path] else [])"

definition validate_schema_value :: "json \<Rightarrow> string \<Rightarrow> errors" where
  "validate_schema_value v path = (if as_object v = None then [ve InvalidFormat path] else [])"

definition validate_schema_container :: "SchemaContainer \<Rightarrow> string \<Rightarrow> errors" where
  "validate_schema_container c path = validate_schema_value (sc_schema c) path"

subsection \<open>Capability contracts\<close>

definition CAPABILITY_CONTRACT_KIND :: string where
  "CAPABILITY_CONTRACT_KIND = ''capability_contract''"

definition EVENT_CONTRACT_KIND :: string where
  "EVENT_CONTRACT_KIND = ''event_contract''"

definition CONNECTOR_CONTRACT_KIND :: string where
  "CONNECTOR_CONTRACT_KIND = ''connector_contract''"

definition SUPPORTED_SCHEMA_VERSION :: string where
  "SUPPORTED_SCHEMA_VERSION = ''1.0.0''"

definition GOVERNED_CONTENT_VERSION :: string where
  "GOVERNED_CONTENT_VERSION = ''0.1.0''"

definition validate_kind :: "CapabilityContract \<Rightarrow> errors" where
  "validate_kind c = (if cc_kind c \<noteq> CAPABILITY_CONTRACT_KIND then [ve InvalidLiteral ''$.kind''] else [])"

definition validate_schema_version :: "CapabilityContract \<Rightarrow> errors" where
  "validate_schema_version c =
     (if cc_schema_version c \<noteq> SUPPORTED_SCHEMA_VERSION then [ve InvalidLiteral ''$.schema_version''] else [])"

definition validate_identity :: "CapabilityContract \<Rightarrow> errors" where
  "validate_identity c =
     (if is_valid_namespace (cc_namespace c) then [] else [ve InvalidFormat ''$.namespace''])
     @ (if is_valid_name (cc_name c) then [] else [ve InvalidFormat ''$.name''])
     @ (if cc_id c \<noteq> cc_namespace c @ ''.'' @ cc_name c then [ve InconsistentIdentity ''$.id''] else [])"

definition validate_execution :: "Execution \<Rightarrow> Provenance \<Rightarrow> errors" where
  "validate_execution ex prov =
     ve_non_empty (entrypoint_command (entrypoint ex)) ''$.execution.entrypoint.command''
     @ (if preferred_targets ex = [] then [ve MissingRequiredField ''$.execution.preferred_targets''] else [])
     @ (if card (set (preferred_targets ex)) \<noteq> length (preferred_targets ex)
        then [ve DuplicateItem ''$.execution.preferred_targets''] else [])
     @ (if host_api_access (constraints ex) = ExceptionRequired \<and> exception_refs prov = []
        then [ve PortabilityExceptionRequired ''$.execution.constraints.host_api_access''] else [])"

definition validate_provenance :: "Provenance \<Rightarrow> errors" where
  "validate_provenance p =
     ve_non_empty (author p) ''$.provenance.author''
     @ ve_non_empty (created_at p) ''$.provenance.created_at''
     @ (case spec_ref p of None \<Rightarrow> [] | Some r \<Rightarrow> ve_non_empty r ''$.provenance.spec_ref'')
     @ validate_unique_strings (adr_refs p) ''$.provenance.adr_refs''
     @ validate_unique_strings (exception_refs p) ''$.provenance.exception_refs''"

definition banned_capability_terms :: "string list" where
  "banned_capability_terms = [''utility function'', ''helper function'', ''crud wrapper'',
     ''transport handler'', ''database insert'', ''full application'', ''subsystem'']"

definition validate_boundary :: "CapabilityContract \<Rightarrow> errors" where
  "validate_boundary c =
     (let combined = to_ascii_lowercase (cc_summary c) @ '' '' @ to_ascii_lowercase (cc_description c)
      in if list_ex (contains_str combined) banned_capability_terms
         then [ve InvalidCapabilityBoundary ''$.summary''] else [])"

definition properties_empty :: "json option \<Rightarrow> bool" where
  "properties_empty schema =
     (case schema of
        None \<Rightarrow> True
      | Some s \<Rightarrow>
          (case json_get s ''properties'' of
             None \<Rightarrow> True
           | Some ps \<Rightarrow> (case as_object ps of None \<Rightarrow> True | Some ms \<Rightarrow> ms = [])))"

definition schema_not_object :: "json option \<Rightarrow> bool" where
  "schema_not_object schema = (case schema of None \<Rightarrow> True | Some s \<Rightarrow> as_object s = None)"

definition validate_placement_constraints :: "CapabilityContract \<Rightarrow> errors" where
  "validate_placement_constraints c =
     (if cc_service_type c = Stateful
         \<and> (cc_state_schema c = None \<or> schema_not_object (cc_state_schema c) \<or> properties_empty (cc_state_schema c))
      then [ve MissingStateSchema ''$.state_schema''] else [])
     @ (if cc_service_type c = Subscribable
           \<and> (case cc_event_trigger c of None \<Rightarrow> True | Some t \<Rightarrow> t = [])
        then [ve MissingEventTrigger ''$.event_trigger''] else [])"

definition validate_risk_metadata :: "RiskMetadata \<Rightarrow> errors" where
  "validate_risk_metadata risk =
     validate_field_classifications (accepted_data_classifications (data_flow risk))
       ''$.risk.data_flow.accepted_data_classifications''
     @ validate_field_classifications (produced_data_classifications (data_flow risk))
       ''$.risk.data_flow.produced_data_classifications''"

text \<open>The 64-bit FNV-1a hash of the rendering without evidence, as sixteen hex digits.\<close>

definition fnv_step :: "64 word \<Rightarrow> char \<Rightarrow> 64 word" where
  "fnv_step hash byte = (hash XOR of_nat (of_char byte)) * 0x00000001000001b3"

definition fnv1a :: "string \<Rightarrow> 64 word" where
  "fnv1a s = foldl fnv_step 0xcbf29ce484222325 s"

definition hex_digit :: "nat \<Rightarrow> char" where
  "hex_digit n = (if n < 10 then char_of (48 + n) else char_of (87 + n))"

definition hex016 :: "64 word \<Rightarrow> string" where
  "hex016 w = map (\<lambda>i. hex_digit ((unat w div 16 ^ (15 - i)) mod 16)) [0..<16]"

definition governed_content_digest :: "(CapabilityContract \<Rightarrow> string) \<Rightarrow> CapabilityContract \<Rightarrow> string" where
  "governed_content_digest debug c =
     GOVERNED_CONTENT_VERSION @ '':'' @ hex016 (fnv1a (debug (c\<lparr>cc_evidence := []\<rparr>)))"

definition validate_published_record ::
  "(CapabilityContract \<Rightarrow> string) \<Rightarrow> CapabilityContract \<Rightarrow> PublishedRecord option \<Rightarrow> errors" where
  "validate_published_record debug c published =
     (case published of
        None \<Rightarrow> []
      | Some r \<Rightarrow>
          if published_id r \<noteq> cc_id c \<or> published_version r \<noteq> cc_version c then []
          else if published_digest r \<noteq> governed_content_digest debug c
          then [ve ImmutableVersionConflict ''$.version''] else [])"

definition contract_errors ::
  "(string \<Rightarrow> bool) \<Rightarrow> (string \<Rightarrow> bool) \<Rightarrow> (CapabilityContract \<Rightarrow> string) \<Rightarrow>
     CapabilityContract \<Rightarrow> ValidationContext \<Rightarrow> errors" where
  "contract_errors version_ok version_req_ok debug c ctx =
     validate_kind c @ validate_schema_version c @ validate_identity c
     @ validate_semver version_ok (cc_version c) ''$.version''
     @ validate_owner (cc_owner c)
     @ validate_summary (cc_summary c) ''$.summary''
     @ validate_description (cc_description c) ''$.description''
     @ validate_schema_container (cc_inputs c) ''$.inputs.schema''
     @ validate_schema_container (cc_outputs c) ''$.outputs.schema''
     @ validate_conditions (cc_preconditions c) ''$.preconditions''
     @ validate_conditions (cc_postconditions c) ''$.postconditions''
     @ validate_side_effects (cc_side_effects c)
     @ validate_event_references version_ok (cc_emits c) ''$.emits''
     @ validate_event_references version_ok (cc_consumes c) ''$.consumes''
     @ validate_id_references (cc_permissions c) ''$.permissions''
     @ validate_execution (cc_execution c) (cc_provenance c)
     @ validate_id_references (cc_policies c) ''$.policies''
     @ validate_dependencies version_ok (cc_dependencies c)
     @ validate_connector_requirements version_req_ok (cc_connector_requirements c)
     @ validate_provenance (cc_provenance c)
     @ validate_evidence (cc_evidence c)
     @ validate_boundary c
     @ validate_placement_constraints c
     @ validate_risk_metadata (cc_risk c)
     @ validate_published_record debug c (existing_published ctx)"

record ValidationResult =
  normalized :: CapabilityContract
  produced_evidence :: ProducedValidationEvidence

definition validate_contract ::
  "(string \<Rightarrow> bool) \<Rightarrow> (string \<Rightarrow> bool) \<Rightarrow> (CapabilityContract \<Rightarrow> string) \<Rightarrow>
     CapabilityContract \<Rightarrow> ValidationContext \<Rightarrow> (ValidationResult, errors) result" where
  "validate_contract version_ok version_req_ok debug c ctx =
     (let errs = contract_errors version_ok version_req_ok debug c ctx
      in if errs \<noteq> [] then Err errs
         else Ok \<lparr>normalized = c\<lparr>cc_evidence := []\<rparr>,
                  produced_evidence = \<lparr>artifact_id = cc_id c, artifact_version = cc_version c,
                    pve_governing_spec = governing_spec ctx, pve_validator_version = validator_version ctx,
                    pve_status = EvidencePassed\<rparr>\<rparr>)"

subsection \<open>Event contracts\<close>

definition validate_event_kind :: "EventContract \<Rightarrow> errors" where
  "validate_event_kind c = (if evc_kind c \<noteq> EVENT_CONTRACT_KIND then [ve InvalidLiteral ''$.kind''] else [])"

definition validate_event_schema_version :: "EventContract \<Rightarrow> errors" where
  "validate_event_schema_version c =
     (if evc_schema_version c \<noteq> SUPPORTED_SCHEMA_VERSION then [ve InvalidLiteral ''$.schema_version''] else [])"

definition validate_event_identity :: "EventContract \<Rightarrow> errors" where
  "validate_event_identity c =
     (if is_valid_namespace (evc_namespace c) then [] else [ve InvalidFormat ''$.namespace''])
     @ (if is_valid_name (evc_name c) then [] else [ve InvalidFormat ''$.name''])
     @ (if evc_id c \<noteq> evc_namespace c @ ''.'' @ evc_name c then [ve InconsistentIdentity ''$.id''] else [])"

definition validate_event_payload :: "EventPayload \<Rightarrow> errors" where
  "validate_event_payload p =
     (if as_object (payload_schema p) = None then [ve InvalidFormat ''$.payload.schema''] else [])"

definition validate_event_classification :: "EventClassification \<Rightarrow> errors" where
  "validate_event_classification c =
     validate_min_length (ec_domain c) ''$.classification.domain'' 2
     @ validate_min_length (ec_bounded_context c) ''$.classification.bounded_context'' 2
     @ validate_tags (ec_tags c) ''$.classification.tags'' True"

definition validate_event_provenance :: "EventProvenance \<Rightarrow> errors" where
  "validate_event_provenance p =
     ve_non_empty (ev_author p) ''$.provenance.author'' @ ve_non_empty (ev_created_at p) ''$.provenance.created_at''"

definition banned_event_terms :: "string list" where
  "banned_event_terms = [''kafka topic'', ''transport topic'', ''websocket channel'',
     ''queue binding'', ''broker partition'', ''payload wrapper'']"

definition validate_event_boundary :: "EventContract \<Rightarrow> errors" where
  "validate_event_boundary c =
     (let combined = to_ascii_lowercase (evc_summary c) @ '' '' @ to_ascii_lowercase (evc_description c)
      in if list_ex (contains_str combined) banned_event_terms
         then [ve InvalidEventBoundary ''$.summary''] else [])"

definition governed_event_content_digest :: "(EventContract \<Rightarrow> string) \<Rightarrow> EventContract \<Rightarrow> string" where
  "governed_event_content_digest debug c =
     GOVERNED_CONTENT_VERSION @ '':'' @ hex016 (fnv1a (debug (c\<lparr>evc_evidence := []\<rparr>)))"

definition validate_published_event_record ::
  "(EventContract \<Rightarrow> string) \<Rightarrow> EventContract \<Rightarrow> PublishedRecord option \<Rightarrow> errors" where
  "validate_published_event_record debug c published =
     (case published of
        None \<Rightarrow> []
      | Some r \<Rightarrow>
          if published_id r \<noteq> evc_id c \<or> published_version r \<noteq> evc_version c then []
          else if published_digest r \<noteq> governed_event_content_digest debug c
          then [ve ImmutableVersionConflict ''$.version''] else [])"

definition event_contract_errors ::
  "(string \<Rightarrow> bool) \<Rightarrow> (EventContract \<Rightarrow> string) \<Rightarrow> EventContract \<Rightarrow> ValidationContext \<Rightarrow> errors" where
  "event_contract_errors version_ok debug c ctx =
     validate_event_kind c @ validate_event_schema_version c @ validate_event_identity c
     @ validate_semver version_ok (evc_version c) ''$.version''
     @ validate_owner (evc_owner c)
     @ validate_summary (evc_summary c) ''$.summary''
     @ validate_description (evc_description c) ''$.description''
     @ validate_event_payload (evc_payload c)
     @ validate_event_classification (evc_classification c)
     @ validate_capability_references version_ok (evc_publishers c) ''$.publishers'' True
     @ validate_capability_references version_ok (evc_subscribers c) ''$.subscribers'' False
     @ validate_id_references (evc_policies c) ''$.policies''
     @ validate_tags (evc_tags c) ''$.tags'' True
     @ validate_event_provenance (evc_provenance c)
     @ validate_event_evidence (evc_evidence c)
     @ validate_event_boundary c
     @ validate_published_event_record debug c (existing_published ctx)"

record EventValidationResult =
  ev_normalized :: EventContract
  ev_produced_evidence :: ProducedValidationEvidence

definition validate_event_contract ::
  "(string \<Rightarrow> bool) \<Rightarrow> (EventContract \<Rightarrow> string) \<Rightarrow> EventContract \<Rightarrow> ValidationContext \<Rightarrow>
     (EventValidationResult, errors) result" where
  "validate_event_contract version_ok debug c ctx =
     (let errs = event_contract_errors version_ok debug c ctx
      in if errs \<noteq> [] then Err errs
         else Ok \<lparr>ev_normalized = c\<lparr>evc_evidence := []\<rparr>,
                  ev_produced_evidence = \<lparr>artifact_id = evc_id c, artifact_version = evc_version c,
                    pve_governing_spec = governing_spec ctx, pve_validator_version = validator_version ctx,
                    pve_status = EvidencePassed\<rparr>\<rparr>)"

subsection \<open>Connector contracts and host-adapter pins\<close>

text \<open>
  \<^verbatim>\<open>Path::extension\<close> on a Unix path: the last component that is neither empty nor \<^verbatim>\<open>.\<close>
  (\<^verbatim>\<open>..\<close> is no file name), and in it the part after the last dot, unless nothing precedes
  that dot.
\<close>

definition path_extension :: "string \<Rightarrow> string option" where
  "path_extension path =
     (let parts = filter (\<lambda>c. c \<noteq> [] \<and> c \<noteq> ''.'') (split_on CHR ''/'' path)
      in if parts = [] \<or> last parts = ''..'' then None
         else (let pieces = split_on CHR ''.'' (last parts)
               in if length pieces < 2 \<or> (length pieces = 2 \<and> hd pieces = []) then None
                  else Some (last pieces)))"

definition validate_host_adapter_wit_pin :: "(string \<Rightarrow> bool) \<Rightarrow> HostAdapterWit \<Rightarrow> errors" where
  "validate_host_adapter_wit_pin version_ok pin =
     (if (case split_once CHR '':'' (wit_package pin) of
            None \<Rightarrow> False
          | Some (ns, name) \<Rightarrow> is_valid_name ns \<and> is_valid_name name)
      then [] else [ve InvalidConnectorContract ''$.host_adapter_wit.package''])
     @ validate_semver version_ok (wit_version pin) ''$.host_adapter_wit.version''
     @ (if starts_with (wit_path pin) ''wit/''
           \<and> path_extension (wit_path pin) = Some ''wit''
           \<and> \<not> contains_str (wit_path pin) ''..''
           \<and> CHR 0x5C \<notin> set (wit_path pin)
        then [] else [ve InvalidConnectorContract ''$.host_adapter_wit.path''])
     @ (if is_valid_name (wit_interface pin) then []
        else [ve InvalidConnectorContract ''$.host_adapter_wit.interface''])"

definition envelope_checks :: "string \<Rightarrow> ConnectorOperationEnvelope \<Rightarrow> errors" where
  "envelope_checks p e =
     validate_schema_value (request_schema e) (p @ ''.request_schema'')
     @ validate_schema_value (success_schema e) (p @ ''.success_schema'')
     @ (if failure_classes e = [] then [ve MissingRequiredField (p @ ''.failure_classes'')] else [])
     @ validate_unique_strings (failure_classes e) (p @ ''.failure_classes'')
     @ each_item (\<lambda>q f. ve_non_empty f q) (p @ ''.failure_classes'') 0 (failure_classes e)"

fun envelope_loop :: "nat \<Rightarrow> ConnectorOperationEnvelope list \<Rightarrow> string set \<Rightarrow> errors" where
  "envelope_loop i [] seen = []"
| "envelope_loop i (e # es) seen =
     (let p = at_index ''$.operation_envelopes'' i
      in ve_non_empty (operation_id e) (p @ ''.operation_id'')
         @ (if operation_id e \<in> seen then [ve DuplicateItem (p @ ''.operation_id'')] else [])
         @ envelope_checks p e
         @ envelope_loop (Suc i) es (insert (operation_id e) seen))"

definition validate_connector_operation_envelopes :: "ConnectorOperationEnvelope list \<Rightarrow> errors" where
  "validate_connector_operation_envelopes es =
     (if es = [] then [ve MissingRequiredField ''$.operation_envelopes''] else envelope_loop 0 es {})"

definition connector_errors :: "(string \<Rightarrow> bool) \<Rightarrow> ConnectorContract \<Rightarrow> errors" where
  "connector_errors version_ok c =
     (if con_kind c \<noteq> CONNECTOR_CONTRACT_KIND then [ve InvalidLiteral ''$.kind''] else [])
     @ (if con_schema_version c \<noteq> SUPPORTED_SCHEMA_VERSION then [ve InvalidLiteral ''$.schema_version''] else [])
     @ ve_non_empty (con_connector_id c) ''$.connector_id''
     @ validate_semver version_ok (con_version c) ''$.version''
     @ validate_unique_strings (capabilities_provided c) ''$.capabilities_provided''
     @ (if capabilities_provided c = [] then [ve MissingRequiredField ''$.capabilities_provided''] else [])
     @ validate_schema_value (required_config_schema c) ''$.required_config_schema''
     @ validate_connector_operation_envelopes (operation_envelopes c)
     @ (if supported_placement_targets c = [] then [ve MissingRequiredField ''$.supported_placement_targets''] else [])
     @ (if card (set (supported_placement_targets c)) \<noteq> length (supported_placement_targets c)
        then [ve DuplicateItem ''$.supported_placement_targets''] else [])
     @ (case host_adapter_wit c of None \<Rightarrow> [] | Some pin \<Rightarrow> validate_host_adapter_wit_pin version_ok pin)"

definition validate_connector_contract ::
  "(string \<Rightarrow> bool) \<Rightarrow> ConnectorContract \<Rightarrow> (ConnectorContract, errors) result" where
  "validate_connector_contract version_ok c =
     (let errs = connector_errors version_ok c in if errs \<noteq> [] then Err errs else Ok c)"

definition FORBIDDEN_WIT_SEGMENTS :: "string list" where
  "FORBIDDEN_WIT_SEGMENTS = [''device'', ''path'', ''filename'', ''url'', ''uri'', ''endpoint'',
     ''credential'', ''credentials'', ''password'', ''secret'', ''token'', ''apikey'', ''apple'',
     ''google'', ''microsoft'', ''amazon'', ''openai'', ''coreaudio'', ''avfoundation'',
     ''mediarecorder'', ''getusermedia'', ''workflow'', ''callweave'']"

definition wit_identifiers :: "string \<Rightarrow> string list" where
  "wit_identifiers src =
     filter (\<lambda>w. w \<noteq> []) (split_by (\<lambda>c. \<not> (is_ascii_alphanumeric c \<or> c = CHR ''-'')) src)"

text \<open>\<^verbatim>\<open>windows(2)\<close>\<close>

fun has_pair :: "string \<Rightarrow> string \<Rightarrow> string list \<Rightarrow> bool" where
  "has_pair a b (x # y # zs) \<longleftrightarrow> (x = a \<and> y = b) \<or> has_pair a b (y # zs)"
| "has_pair a b _ \<longleftrightarrow> False"

definition line_segments :: "string \<Rightarrow> string list" where
  "line_segments l = map to_ascii_lowercase (split_by (\<lambda>c. \<not> is_ascii_alphanumeric c) l)"

fun forbidden_lines :: "nat \<Rightarrow> string list \<Rightarrow> errors" where
  "forbidden_lines i [] = []"
| "forbidden_lines i (l # ls) =
     (if list_ex (\<lambda>w. w \<in> set FORBIDDEN_WIT_SEGMENTS) (line_segments l)
      then [ve InvalidConnectorContract (''$.wit.line['' @ show_nat (i + 1) @ '']'')] else [])
     @ forbidden_lines (Suc i) ls"

definition validate_host_adapter_wit :: "HostAdapterWit \<Rightarrow> string \<Rightarrow> (unit, errors) result" where
  "validate_host_adapter_wit pin src =
     (let decl = ''package '' @ wit_package pin @ ''@'' @ wit_version pin @ '';'';
          errs = (if list_ex (\<lambda>l. trim l = decl) (str_lines src) then []
                  else [ve InvalidConnectorContract ''$.wit.package''])
               @ (if has_pair ''interface'' (wit_interface pin) (wit_identifiers src) then []
                  else [ve InvalidConnectorContract ''$.wit.interface''])
               @ forbidden_lines 0 (str_lines src)
      in if errs = [] then Ok () else Err errs)"

subsection \<open>Specification\<close>

text \<open>What a valid capability contract is, field by field.\<close>

definition well_formed_contract ::
  "(string \<Rightarrow> bool) \<Rightarrow> (string \<Rightarrow> bool) \<Rightarrow> CapabilityContract \<Rightarrow> bool" where
  "well_formed_contract version_ok version_req_ok c \<longleftrightarrow>
     cc_kind c = CAPABILITY_CONTRACT_KIND \<and> cc_schema_version c = SUPPORTED_SCHEMA_VERSION
   \<and> is_valid_namespace (cc_namespace c) \<and> is_valid_name (cc_name c)
   \<and> cc_id c = cc_namespace c @ ''.'' @ cc_name c \<and> version_ok (cc_version c)
   \<and> \<not> blank (team (cc_owner c)) \<and> \<not> blank (contact (cc_owner c))
   \<and> 10 \<le> length (trim (cc_summary c)) \<and> length (cc_summary c) \<le> 200
   \<and> 20 \<le> length (trim (cc_description c))
   \<and> as_object (sc_schema (cc_inputs c)) \<noteq> None \<and> as_object (sc_schema (cc_outputs c)) \<noteq> None
   \<and> (\<forall>cs \<in> {cc_preconditions c, cc_postconditions c}.
        (\<forall>x \<in> set cs. \<not> blank (condition_id x) \<and> \<not> blank (condition_description x))
        \<and> distinct (map condition_id cs))
   \<and> cc_side_effects c \<noteq> [] \<and> (\<forall>x \<in> set (cc_side_effects c). \<not> blank (side_effect_description x))
   \<and> (\<forall>rs \<in> {cc_emits c, cc_consumes c}.
        (\<forall>r \<in> set rs. \<not> blank (er_event_id r) \<and> version_ok (er_version r))
        \<and> distinct (map (\<lambda>r. (er_event_id r, er_version r)) rs))
   \<and> (\<forall>rs \<in> {cc_permissions c, cc_policies c}.
        (\<forall>r \<in> set rs. \<not> blank (reference_id r)) \<and> distinct (map reference_id rs))
   \<and> \<not> blank (entrypoint_command (entrypoint (cc_execution c)))
   \<and> preferred_targets (cc_execution c) \<noteq> [] \<and> distinct (preferred_targets (cc_execution c))
   \<and> \<not> (host_api_access (constraints (cc_execution c)) = ExceptionRequired
        \<and> exception_refs (cc_provenance c) = [])
   \<and> (\<forall>d \<in> set (cc_dependencies c). \<not> blank (dependency_id d) \<and> version_ok (dependency_version d))
   \<and> distinct (map (\<lambda>d. (artifact_type d, dependency_id d, dependency_version d)) (cc_dependencies c))
   \<and> (\<forall>r \<in> set (cc_connector_requirements c).
        \<not> blank (requirement_connector_id r) \<and> version_req_ok (requirement_version r))
   \<and> distinct (map (\<lambda>r. (requirement_connector_id r, requirement_version r)) (cc_connector_requirements c))
   \<and> \<not> blank (author (cc_provenance c)) \<and> \<not> blank (created_at (cc_provenance c))
   \<and> (case spec_ref (cc_provenance c) of None \<Rightarrow> True | Some r \<Rightarrow> \<not> blank r)
   \<and> distinct (adr_refs (cc_provenance c)) \<and> distinct (exception_refs (cc_provenance c))
   \<and> (\<forall>e \<in> set (cc_evidence c). \<not> blank (evidence_id e)) \<and> distinct (map evidence_id (cc_evidence c))
   \<and> (\<forall>t \<in> set banned_capability_terms. \<not> contains_str
        (to_ascii_lowercase (cc_summary c) @ '' '' @ to_ascii_lowercase (cc_description c)) t)
   \<and> (case cc_service_type c of
        Stateless \<Rightarrow> True
      | Subscribable \<Rightarrow> (\<exists>t. cc_event_trigger c = Some t \<and> t \<noteq> [])
      | Stateful \<Rightarrow> (\<exists>ms ps. cc_state_schema c = Some (JObject ms)
                       \<and> obj_get ms ''properties'' = Some (JObject ps) \<and> ps \<noteq> []))
   \<and> (\<forall>fs \<in> {accepted_data_classifications (data_flow (cc_risk c)),
              produced_data_classifications (data_flow (cc_risk c))}.
        (\<forall>f \<in> set fs. \<not> blank (field_path f)) \<and> distinct (map field_path fs))"

text \<open>A published record allows a contract unless it fixes other content for its version.\<close>

definition respects_published ::
  "(CapabilityContract \<Rightarrow> string) \<Rightarrow> CapabilityContract \<Rightarrow> PublishedRecord option \<Rightarrow> bool" where
  "respects_published debug c published \<longleftrightarrow>
     (case published of
        None \<Rightarrow> True
      | Some r \<Rightarrow> published_id r = cc_id c \<and> published_version r = cc_version c
                    \<longrightarrow> published_digest r = governed_content_digest debug c)"

section \<open>Emptiness of the checks\<close>

named_theorems check_simps \<open>when a validation step reports nothing\<close>

lemma ve_non_empty_Nil [check_simps]: "ve_non_empty v p = [] \<longleftrightarrow> \<not> blank v"
  by (simp add: ve_non_empty_def)

lemma validate_min_length_Nil [check_simps]: "validate_min_length v p n = [] \<longleftrightarrow> n \<le> length (trim v)"
  by (auto simp: validate_min_length_def)

lemma validate_unique_strings_Nil [check_simps]: "validate_unique_strings vs p = [] \<longleftrightarrow> distinct vs"
proof -
  have "validate_unique_from vs p seen = [] \<longleftrightarrow> distinct vs \<and> set vs \<inter> seen = {}" for seen
    by (induction vs p seen rule: validate_unique_from.induct) auto
  then show ?thesis by (simp add: validate_unique_strings_def)
qed

lemma validate_semver_Nil [check_simps]: "validate_semver ok v p = [] \<longleftrightarrow> ok v"
  by (simp add: validate_semver_def)

lemma item_loop_Nil:
  assumes "\<And>p x. check p x = [] \<longleftrightarrow> Q x"
  shows "item_loop check key field path i xs seen = [] \<longleftrightarrow>
    (\<forall>x \<in> set xs. Q x) \<and> distinct (map key xs) \<and> key ` set xs \<inter> seen = {}"
  by (induction xs arbitrary: i seen) (auto simp: assms)

lemma each_item_Nil:
  assumes "\<And>p x. check p x = [] \<longleftrightarrow> Q x"
  shows "each_item check path i xs = [] \<longleftrightarrow> (\<forall>x \<in> set xs. Q x)"
  by (induction xs arbitrary: i) (auto simp: assms)

lemma validate_conditions_Nil [check_simps]:
  "validate_conditions cs p = [] \<longleftrightarrow>
     (\<forall>x \<in> set cs. \<not> blank (condition_id x) \<and> \<not> blank (condition_description x)) \<and> distinct (map condition_id cs)"
  unfolding validate_conditions_def by (subst item_loop_Nil) (auto simp: check_simps)

lemma validate_event_references_Nil [check_simps]:
  "validate_event_references ok rs p = [] \<longleftrightarrow>
     (\<forall>r \<in> set rs. \<not> blank (er_event_id r) \<and> ok (er_version r))
     \<and> distinct (map (\<lambda>r. (er_event_id r, er_version r)) rs)"
  unfolding validate_event_references_def by (subst item_loop_Nil) (auto simp: check_simps)

lemma validate_id_references_Nil [check_simps]:
  "validate_id_references rs p = [] \<longleftrightarrow> (\<forall>r \<in> set rs. \<not> blank (reference_id r)) \<and> distinct (map reference_id rs)"
  unfolding validate_id_references_def by (subst item_loop_Nil) (auto simp: check_simps)

lemma validate_dependencies_Nil [check_simps]:
  "validate_dependencies ok ds = [] \<longleftrightarrow>
     (\<forall>d \<in> set ds. \<not> blank (dependency_id d) \<and> ok (dependency_version d))
     \<and> distinct (map (\<lambda>d. (artifact_type d, dependency_id d, dependency_version d)) ds)"
  unfolding validate_dependencies_def by (subst item_loop_Nil) (auto simp: check_simps)

lemma validate_connector_requirements_Nil [check_simps]:
  "validate_connector_requirements ok rs = [] \<longleftrightarrow>
     (\<forall>r \<in> set rs. \<not> blank (requirement_connector_id r) \<and> ok (requirement_version r))
     \<and> distinct (map (\<lambda>r. (requirement_connector_id r, requirement_version r)) rs)"
  unfolding validate_connector_requirements_def by (subst item_loop_Nil) (auto simp: check_simps)

lemma validate_evidence_Nil [check_simps]:
  "validate_evidence es = [] \<longleftrightarrow> (\<forall>e \<in> set es. \<not> blank (evidence_id e)) \<and> distinct (map evidence_id es)"
  unfolding validate_evidence_def by (subst item_loop_Nil) (auto simp: check_simps)

lemma validate_field_classifications_Nil [check_simps]:
  "validate_field_classifications fs p = [] \<longleftrightarrow>
     (\<forall>f \<in> set fs. \<not> blank (field_path f)) \<and> distinct (map field_path fs)"
  unfolding validate_field_classifications_def by (subst item_loop_Nil) (auto simp: check_simps)

lemma validate_side_effects_Nil [check_simps]:
  "validate_side_effects es = [] \<longleftrightarrow> es \<noteq> [] \<and> (\<forall>x \<in> set es. \<not> blank (side_effect_description x))"
  unfolding validate_side_effects_def
  using each_item_Nil [of "\<lambda>p e. ve_non_empty (side_effect_description e) (p @ ''.description'')"
      "\<lambda>e. \<not> blank (side_effect_description e)" "''$.side_effects''" 0 es]
  by (auto simp: check_simps)

lemma validate_owner_Nil [check_simps]:
  "validate_owner ow = [] \<longleftrightarrow> \<not> blank (team ow) \<and> \<not> blank (contact ow)"
  by (simp add: validate_owner_def check_simps)

lemma validate_text_Nil [check_simps]:
  "validate_summary s p = [] \<longleftrightarrow> 10 \<le> length (trim s) \<and> length s \<le> 200"
  "validate_description s p = [] \<longleftrightarrow> 20 \<le> length (trim s)"
  by (auto simp: validate_summary_def validate_description_def)

lemma validate_schema_Nil [check_simps]:
  "validate_schema_value v p = [] \<longleftrightarrow> as_object v \<noteq> None"
  "validate_schema_container sc p = [] \<longleftrightarrow> as_object (sc_schema sc) \<noteq> None"
  by (simp_all add: validate_schema_container_def validate_schema_value_def)

lemma validate_literals_Nil [check_simps]:
  "validate_kind c = [] \<longleftrightarrow> cc_kind c = CAPABILITY_CONTRACT_KIND"
  "validate_schema_version c = [] \<longleftrightarrow> cc_schema_version c = SUPPORTED_SCHEMA_VERSION"
  by (simp_all add: validate_kind_def validate_schema_version_def)

lemma validate_identity_Nil [check_simps]:
  "validate_identity c = [] \<longleftrightarrow> is_valid_namespace (cc_namespace c) \<and> is_valid_name (cc_name c)
     \<and> cc_id c = cc_namespace c @ ''.'' @ cc_name c"
  by (simp add: validate_identity_def)

lemma card_distinct': "card (set xs) = length xs \<longleftrightarrow> distinct xs"
  using card_distinct distinct_card by blast

lemma validate_execution_Nil [check_simps]:
  "validate_execution ex prov = [] \<longleftrightarrow> \<not> blank (entrypoint_command (entrypoint ex))
     \<and> preferred_targets ex \<noteq> [] \<and> distinct (preferred_targets ex)
     \<and> \<not> (host_api_access (constraints ex) = ExceptionRequired \<and> exception_refs prov = [])"
  by (simp add: validate_execution_def check_simps card_distinct')

lemma validate_provenance_Nil [check_simps]:
  "validate_provenance p = [] \<longleftrightarrow> \<not> blank (author p) \<and> \<not> blank (created_at p)
     \<and> (case spec_ref p of None \<Rightarrow> True | Some r \<Rightarrow> \<not> blank r) \<and> distinct (adr_refs p) \<and> distinct (exception_refs p)"
  by (simp add: validate_provenance_def check_simps split: option.split)

lemma validate_boundary_Nil [check_simps]:
  "validate_boundary c = [] \<longleftrightarrow> (\<forall>t \<in> set banned_capability_terms. \<not> contains_str
     (to_ascii_lowercase (cc_summary c) @ '' '' @ to_ascii_lowercase (cc_description c)) t)"
  by (auto simp: validate_boundary_def Let_def list_ex_iff)

lemma validate_placement_Nil [check_simps]:
  "validate_placement_constraints c = [] \<longleftrightarrow>
     (case cc_service_type c of
        Stateless \<Rightarrow> True
      | Subscribable \<Rightarrow> (\<exists>t. cc_event_trigger c = Some t \<and> t \<noteq> [])
      | Stateful \<Rightarrow> (\<exists>ms ps. cc_state_schema c = Some (JObject ms)
                       \<and> obj_get ms ''properties'' = Some (JObject ps) \<and> ps \<noteq> []))"
proof (cases "cc_service_type c")
  case Stateful
  show ?thesis
  proof (cases "cc_state_schema c")
    case None
    then show ?thesis using Stateful by (simp add: validate_placement_constraints_def)
  next
    case (Some s)
    then show ?thesis using Stateful
      by (cases s) (auto simp: validate_placement_constraints_def schema_not_object_def
          properties_empty_def split: option.split dest: as_object_Some)
  qed
qed (auto simp: validate_placement_constraints_def split: option.splits)

lemma validate_risk_Nil [check_simps]:
  "validate_risk_metadata r = [] \<longleftrightarrow>
     (\<forall>fs \<in> {accepted_data_classifications (data_flow r), produced_data_classifications (data_flow r)}.
        (\<forall>f \<in> set fs. \<not> blank (field_path f)) \<and> distinct (map field_path fs))"
  by (auto simp: validate_risk_metadata_def check_simps)

lemma validate_published_Nil [check_simps]:
  "validate_published_record debug c published = [] \<longleftrightarrow> respects_published debug c published"
  by (auto simp: validate_published_record_def respects_published_def split: option.split)

lemma contract_errors_Nil:
  "contract_errors ok rok debug c ctx = [] \<longleftrightarrow>
     well_formed_contract ok rok c \<and> respects_published debug c (existing_published ctx)"
  unfolding contract_errors_def well_formed_contract_def append_is_Nil_conv check_simps
  unfolding ball_simps simp_thms by (rule iffI; elim conjE; intro conjI; assumption)

section \<open>Capability contracts\<close>

text \<open>
  C25: \<^verbatim>\<open>validate_contract\<close> accepts exactly the well-formed contracts that do not change the
  content of an already published version.
\<close>

theorem validate_contract_accepts:
  "is_ok (validate_contract ok rok debug c ctx) \<longleftrightarrow>
     well_formed_contract ok rok c \<and> respects_published debug c (existing_published ctx)"
  by (auto simp: validate_contract_def Let_def is_ok_iff contract_errors_Nil)

lemma well_formed_clear_evidence:
  "well_formed_contract ok rok c \<Longrightarrow> well_formed_contract ok rok (c\<lparr>cc_evidence := []\<rparr>)"
  unfolding well_formed_contract_def by (simp cong: ServiceType.case_cong)

lemma digest_clear_evidence:
  "governed_content_digest debug (c\<lparr>cc_evidence := e\<rparr>) = governed_content_digest debug c"
  by (simp add: governed_content_digest_def)

text \<open>
  C37: A rejection lists all errors of the checks, and never none. An acceptance records the
  contract's id, version and the context as passed, only clears the author-supplied evidence, and
  validating the normalized contract again gives the very same result.
\<close>

theorem validate_contract_normalizes:
  "case validate_contract ok rok debug c ctx of
     Inl es \<Rightarrow> es \<noteq> [] \<and> es = contract_errors ok rok debug c ctx
   | Inr r \<Rightarrow> normalized r = c\<lparr>cc_evidence := []\<rparr>
       \<and> artifact_id (produced_evidence r) = cc_id c \<and> artifact_version (produced_evidence r) = cc_version c
       \<and> pve_status (produced_evidence r) = EvidencePassed
       \<and> validate_contract ok rok debug (normalized r) ctx = Ok r"
proof (cases "contract_errors ok rok debug c ctx = []")
  case True
  let ?c = "c\<lparr>cc_evidence := []\<rparr>"
  have "contract_errors ok rok debug ?c ctx = []"
    using True well_formed_clear_evidence unfolding contract_errors_Nil
    by (auto simp: respects_published_def digest_clear_evidence split: option.splits)
  with True show ?thesis by (simp add: validate_contract_def Let_def)
next
  case False
  then show ?thesis by (simp add: validate_contract_def Let_def)
qed

text \<open>The sixteen digits of the digest determine the hash.\<close>

lemma hex_digit_inj: "m < 16 \<Longrightarrow> n < 16 \<Longrightarrow> hex_digit m = hex_digit n \<Longrightarrow> m = n"
proof -
  assume mn: "m < 16" "n < 16" and eq: "hex_digit m = hex_digit n"
  have code: "of_char (hex_digit k) = (if k < 10 then 48 + k else 87 + k)" if "k < 16" for k :: nat
    using that by (simp add: hex_digit_def)
  have "(of_char (hex_digit m) :: nat) = of_char (hex_digit n)" using eq by simp
  then show "m = n" using mn unfolding code [OF mn(1)] code [OF mn(2)] by (auto split: if_splits)
qed

lemma base16_digits_inj:
  fixes a b :: nat
  assumes "a < 16 ^ k" "b < 16 ^ k" "\<And>i. i < k \<Longrightarrow> a div 16 ^ i mod 16 = b div 16 ^ i mod 16"
  shows "a = b"
  using assms
proof (induction k arbitrary: a b)
  case 0
  then show ?case by simp
next
  case (Suc k)
  have shift: "x div 16 div 16 ^ i = x div 16 ^ Suc i" for x i :: nat
    by (simp add: div_mult2_eq)
  have "a div 16 = b div 16"
  proof (rule Suc.IH)
    show "a div 16 < 16 ^ k" "b div 16 < 16 ^ k" using Suc.prems(1,2) by (simp_all add: less_mult_imp_div_less mult.commute)
    show "a div 16 div 16 ^ i mod 16 = b div 16 div 16 ^ i mod 16" if "i < k" for i
      using Suc.prems(3) [of "Suc i"] that unfolding shift by simp
  qed
  moreover have "a mod 16 = b mod 16" using Suc.prems(3) [of 0] by simp
  ultimately show ?case by (metis div_mult_mod_eq)
qed

lemma hex016_inj: "hex016 u = hex016 v \<longleftrightarrow> u = v"
proof
  assume eq: "hex016 u = hex016 v"
  have "unat u div 16 ^ i mod 16 = unat v div 16 ^ i mod 16" if "i < 16" for i
  proof -
    have "hex016 u ! (15 - i) = hex016 v ! (15 - i)" using eq by simp
    moreover have "hex016 w ! (15 - i) = hex_digit (unat w div 16 ^ i mod 16)" for w :: "64 word"
    proof -
      have "15 - i < length [0..<16]" and "15 - (15 - i) = i" using that by simp_all
      then show ?thesis unfolding hex016_def by (simp only: nth_map nth_upt) simp
    qed
    ultimately have "hex_digit (unat u div 16 ^ i mod 16) = hex_digit (unat v div 16 ^ i mod 16)"
      by simp
    then show ?thesis by (rule hex_digit_inj [rotated 2]) simp_all
  qed
  moreover have "unat u < 16 ^ 16" "unat v < 16 ^ 16"
    using unsigned_less [of u, where 'a = nat] unsigned_less [of v, where 'a = nat] by simp_all
  ultimately have "unat u = unat v" using base16_digits_inj [of "unat u" 16 "unat v"] by blast
  then show "u = v" by (rule unsigned_word_eqI)
qed simp

definition published_from :: "(CapabilityContract \<Rightarrow> string) \<Rightarrow> CapabilityContract \<Rightarrow> PublishedRecord" where
  "published_from debug c = \<lparr>published_id = cc_id c, published_version = cc_version c,
     published_digest = governed_content_digest debug c, published_lifecycle = cc_lifecycle c\<rparr>"

text \<open>
  C34: Published versions are immutable up to the hash. Once \<open>c0\<close> is published, a contract with its
  id and version passes exactly when it is well formed and its content without evidence has the
  hash of \<open>c0\<close>; every other id or version is judged on its own.
\<close>

theorem published_version_immutable:
  "is_ok (validate_contract ok rok debug c (ctx\<lparr>existing_published := Some (published_from debug c0)\<rparr>)) \<longleftrightarrow>
     well_formed_contract ok rok c
   \<and> (if cc_id c = cc_id c0 \<and> cc_version c = cc_version c0
      then fnv1a (debug (c\<lparr>cc_evidence := []\<rparr>)) = fnv1a (debug (c0\<lparr>cc_evidence := []\<rparr>))
      else True)"
proof -
  have "governed_content_digest debug c0 = governed_content_digest debug c \<longleftrightarrow>
      fnv1a (debug (c\<lparr>cc_evidence := []\<rparr>)) = fnv1a (debug (c0\<lparr>cc_evidence := []\<rparr>))"
    by (auto simp: governed_content_digest_def hex016_inj)
  then show ?thesis
    by (auto simp: validate_contract_def Let_def is_ok_iff contract_errors_Nil respects_published_def
        published_from_def)
qed

subsection \<open>Identity\<close>

lemma valid_name_no_dot:
  assumes "is_valid_name n"
  shows "CHR ''.'' \<notin> set n"
proof
  assume dot: "CHR ''.'' \<in> set n"
  have "set n \<subseteq> insert CHR ''-'' (\<Union>p \<in> set (split_on CHR ''-'' n). set p)" by (rule set_split_on)
  then obtain p where p: "p \<in> set (split_on CHR ''-'' n)" "CHR ''.'' \<in> set p"
    using dot by auto
  then have "is_ascii_lowercase CHR ''.'' \<or> is_ascii_digit CHR ''.''"
    using assms by (auto simp: is_valid_name_def is_valid_segment_def list_all_iff)
  then show False by (simp add: is_ascii_lowercase_def is_ascii_digit_def)
qed

text \<open>
  The id of a contract determines its namespace and name: joining a valid namespace and a
  valid name with a dot is injective, so no two accepted contracts share an id by accident.
\<close>

theorem contract_identity_injective:
  "inj_on (\<lambda>(ns, n). ns @ ''.'' @ n) {(ns, n). is_valid_namespace ns \<and> is_valid_name n}"
  by (rule inj_onI) (auto dest: valid_name_no_dot last_sep_unique [of _ "CHR ''.''"])

subsection \<open>Risk policies\<close>

definition egress_surface :: "EgressPolicy \<Rightarrow> string set" where
  "egress_surface p = (case p of Denied \<Rightarrow> {} | AllowedConnectors cs \<Rightarrow> set cs)"

text \<open>
  C33: A manifest risk policy passes exactly when it only narrows the egress surface the contract
  declares: with no override, or with connectors that the contract already allows.
\<close>

theorem manifest_policy_only_narrows:
  "is_ok (validate_manifest_risk_policy risk policy) \<longleftrightarrow>
     (case egress_allowed_connectors policy of
        None \<Rightarrow> True
      | Some declared \<Rightarrow> set declared \<subseteq> egress_surface (egress_policy (data_flow risk)))"
  by (auto simp: validate_manifest_risk_policy_def Let_def egress_surface_def is_ok_iff
      split: option.splits EgressPolicy.splits if_splits)

text \<open>The default of contracts without risk metadata is never eligible to run unapproved.\<close>

lemma default_risk_not_automatic: "\<not> is_automatic_eligible default_risk_metadata"
  by (simp add: is_automatic_eligible_def default_risk_metadata_def)

text \<open>
  The upper limit of a summary counts bytes: 101 characters of two bytes each are too long,
  although the message speaks of 200 characters.
\<close>

lemma summary_limit_counts_bytes:
  "validate_summary (concat (replicate 101 [CHR 0xC3, CHR 0xA9])) ''$.summary'' = [ve InvalidFormat ''$.summary'']"
  by (simp add: validate_summary_def length_concat sum_list_replicate)

section \<open>Host-adapter interfaces\<close>

lemma forbidden_lines_Nil:
  "forbidden_lines i ls = [] \<longleftrightarrow> (\<forall>l \<in> set ls. \<forall>w \<in> set (line_segments l). w \<notin> set FORBIDDEN_WIT_SEGMENTS)"
  by (induction i ls rule: forbidden_lines.induct) (auto simp: list_ex_iff)

lemma has_pair_iff: "has_pair a b ws \<longleftrightarrow> (\<exists>xs ys. ws = xs @ a # b # ys)"
proof (induction a b ws rule: has_pair.induct)
  case (1 a b x y zs)
  show ?case
  proof
    assume "has_pair a b (x # y # zs)"
    then show "\<exists>xs ys. x # y # zs = xs @ a # b # ys"
      using 1 by (auto intro: exI [of _ "[]"]) (metis append_Cons)
  next
    assume "\<exists>xs ys. x # y # zs = xs @ a # b # ys"
    then obtain xs ys where "x # y # zs = xs @ a # b # ys" by blast
    then have "(x = a \<and> y = b) \<or> (\<exists>xs ys. y # zs = xs @ a # b # ys)" by (cases xs) auto
    then show "has_pair a b (x # y # zs)" using 1 by simp
  qed
qed (auto simp: Cons_eq_append_conv)


end
