(* ===== verification/Runtime_State.thy ===== *)
theory Runtime_State
  imports Schema_Validation Contracts
begin

text \<open>
  The state machine of one execution: \<^verbatim>\<open>RuntimeState\<close>, \<^verbatim>\<open>is_allowed_transition\<close> and the
  \<^verbatim>\<open>StateEmitter\<close> of \<^verbatim>\<open>crates/traverse-runtime/src/lib.rs\<close>, which records every transition and
  refuses those the specification does not have. A path of the machine is the inductive
  relation \<open>sm_path\<close>; an emitter that refuses nothing records a path.

  \<^verbatim>\<open>push\<close> asserts in debug builds that the transition is allowed; here it ignores the result, as in
  release builds, and the proofs show that the runtime never asks for a refused one. The two
  \<^verbatim>\<open>u32\<close> counters count the handful of transitions of one execution and are natural numbers.
\<close>

section \<open>Definitions\<close>

datatype RuntimeState =
  Idle | LoadingRegistry | Ready | Discovering | EvaluatingConstraints | Selecting | Executing
| EmittingEvents | Completed | ErrorState

datatype RuntimeTransitionReasonCode =
  RuntimeInitializationStarted | RegistryLoaded | RegistryLoadFailed | RequestStarted
| CandidatesCollected | NoMatch | ConstraintsEvaluated | ConstraintValidationFailed
| CandidateSelected | SelectionFailed | ExecutionSucceededWithEvents | ExecutionSucceeded
| ExecutionFailed | EventsEmitted | EventEmissionFailed | ExecutionClosed

record RuntimeStateEvent =
  rse_kind :: string
  rse_schema_version :: string
  rse_event_id :: string
  rse_execution_id :: string
  rse_request_id :: string
  rse_state :: RuntimeState
  rse_entered_at :: string
  rse_details :: json

record RuntimeTransitionRecord =
  from_state :: RuntimeState
  to_state :: RuntimeState
  reason_code :: RuntimeTransitionReasonCode
  occurred_at :: string
  tr_request_id :: "string option"
  tr_execution_id :: "string option"
  tr_details :: "json option"

datatype RuntimeStateMachineValidationStatus = Passed | Failed

record RuntimeStateMachineValidationEvidence =
  smv_kind :: string
  smv_schema_version :: string
  smv_governing_spec :: string
  validated_at :: string
  smv_status :: RuntimeStateMachineValidationStatus
  checked_states :: "RuntimeState list"
  checked_transitions :: "string list"
  violations :: "json list"

record StateEmitter =
  em_execution_id :: string
  em_request_id :: string
  next_second :: nat
  next_event_index :: nat
  current_state :: RuntimeState
  em_events :: "RuntimeStateEvent list"
  em_transitions :: "RuntimeTransitionRecord list"
  em_violations :: "json list"

record FinishedStateMachineArtifacts =
  fin_events :: "RuntimeStateEvent list"
  fin_transitions :: "RuntimeTransitionRecord list"
  fin_validation :: RuntimeStateMachineValidationEvidence

definition RUNTIME_SCHEMA_VERSION :: string where
  "RUNTIME_SCHEMA_VERSION = ''1.0.0''"

definition RUNTIME_STATE_EVENT_KIND :: string where
  "RUNTIME_STATE_EVENT_KIND = ''runtime_state_event''"

definition RUNTIME_STATE_MACHINE_VALIDATION_KIND :: string where
  "RUNTIME_STATE_MACHINE_VALIDATION_KIND = ''runtime_state_machine_validation''"

definition STATE_MACHINE_GOVERNING_SPEC :: string where
  "STATE_MACHINE_GOVERNING_SPEC = ''010-runtime-state-machine''"

text \<open>The arms of the match of \<^verbatim>\<open>is_allowed_transition\<close>.\<close>

definition allowed_transitions :: "(RuntimeState \<times> RuntimeState \<times> RuntimeTransitionReasonCode) set" where
  "allowed_transitions =
     {(Idle, LoadingRegistry, RuntimeInitializationStarted),
      (LoadingRegistry, Ready, RegistryLoaded),
      (LoadingRegistry, ErrorState, RegistryLoadFailed),
      (Ready, Discovering, RequestStarted),
      (Discovering, EvaluatingConstraints, CandidatesCollected),
      (Discovering, ErrorState, NoMatch),
      (EvaluatingConstraints, Selecting, ConstraintsEvaluated),
      (EvaluatingConstraints, ErrorState, ConstraintValidationFailed),
      (Selecting, Executing, CandidateSelected),
      (Selecting, ErrorState, SelectionFailed),
      (Executing, EmittingEvents, ExecutionSucceededWithEvents),
      (Executing, Completed, ExecutionSucceeded),
      (Executing, ErrorState, ExecutionFailed),
      (EmittingEvents, Completed, EventsEmitted),
      (EmittingEvents, ErrorState, EventEmissionFailed),
      (Completed, Ready, ExecutionClosed),
      (ErrorState, Ready, ExecutionClosed)}"

definition is_allowed_transition :: "RuntimeState \<Rightarrow> RuntimeState \<Rightarrow> RuntimeTransitionReasonCode \<Rightarrow> bool" where
  "is_allowed_transition from to reason \<longleftrightarrow> (from, to, reason) \<in> allowed_transitions"

fun runtime_state_name :: "RuntimeState \<Rightarrow> string" where
  "runtime_state_name Idle = ''idle''"
| "runtime_state_name LoadingRegistry = ''loading_registry''"
| "runtime_state_name Ready = ''ready''"
| "runtime_state_name Discovering = ''discovering''"
| "runtime_state_name EvaluatingConstraints = ''evaluating_constraints''"
| "runtime_state_name Selecting = ''selecting''"
| "runtime_state_name Executing = ''executing''"
| "runtime_state_name EmittingEvents = ''emitting_events''"
| "runtime_state_name Completed = ''completed''"
| "runtime_state_name ErrorState = ''error''"

text \<open>The derived serialization of the reason codes: \<^verbatim>\<open>rename_all = "snake_case"\<close>.\<close>

fun reason_name :: "RuntimeTransitionReasonCode \<Rightarrow> string" where
  "reason_name RuntimeInitializationStarted = ''runtime_initialization_started''"
| "reason_name RegistryLoaded = ''registry_loaded''"
| "reason_name RegistryLoadFailed = ''registry_load_failed''"
| "reason_name RequestStarted = ''request_started''"
| "reason_name CandidatesCollected = ''candidates_collected''"
| "reason_name NoMatch = ''no_match''"
| "reason_name ConstraintsEvaluated = ''constraints_evaluated''"
| "reason_name ConstraintValidationFailed = ''constraint_validation_failed''"
| "reason_name CandidateSelected = ''candidate_selected''"
| "reason_name SelectionFailed = ''selection_failed''"
| "reason_name ExecutionSucceededWithEvents = ''execution_succeeded_with_events''"
| "reason_name ExecutionSucceeded = ''execution_succeeded''"
| "reason_name ExecutionFailed = ''execution_failed''"
| "reason_name EventsEmitted = ''events_emitted''"
| "reason_name EventEmissionFailed = ''event_emission_failed''"
| "reason_name ExecutionClosed = ''execution_closed''"

text \<open>\<^verbatim>\<open>{:02}\<close> and \<^verbatim>\<open>{:04}\<close>\<close>

definition zero_padded :: "nat \<Rightarrow> nat \<Rightarrow> string" where
  "zero_padded width n = replicate (width - length (show_nat n)) CHR ''0'' @ show_nat n"

definition time_stamp :: "nat \<Rightarrow> string" where
  "time_stamp second = ''1970-01-01T00:00:'' @ zero_padded 2 second @ ''Z''"

definition detail_object :: "json \<Rightarrow> json_object" where
  "detail_object details = (case details of JObject ms \<Rightarrow> ms | other \<Rightarrow> [(''value'', other)])"

definition new_emitter :: "string \<Rightarrow> string \<Rightarrow> StateEmitter" where
  "new_emitter execution_id request_id =
     \<lparr>em_execution_id = execution_id, em_request_id = request_id, next_second = 0, next_event_index = 0,
      current_state = Idle, em_events = [], em_transitions = [], em_violations = []\<rparr>"

definition next_timestamp :: "StateEmitter \<Rightarrow> string \<times> StateEmitter" where
  "next_timestamp e = (time_stamp (next_second e), e\<lparr>next_second := Suc (next_second e)\<rparr>)"

definition try_push :: "StateEmitter \<Rightarrow> RuntimeState \<Rightarrow> RuntimeTransitionReasonCode \<Rightarrow> json \<Rightarrow> bool \<times> StateEmitter" where
  "try_push e state reason details =
     (let from = current_state e
      in if \<not> is_allowed_transition from state reason
         then (False, e\<lparr>em_violations := em_violations e @
                 [json_obj [(''from_state'', JString (runtime_state_name from)),
                            (''to_state'', JString (runtime_state_name state)),
                            (''reason_code'', JString (reason_name reason)),
                            (''message'', JString ''unexpected runtime state transition'')]]\<rparr>)
         else (let (entered_at, e) = next_timestamp e;
                   event_details = JObject (obj_insert ''transition_reason'' (JString (reason_name reason)) (detail_object details));
                   event = \<lparr>rse_kind = RUNTIME_STATE_EVENT_KIND, rse_schema_version = RUNTIME_SCHEMA_VERSION,
                            rse_event_id = ''rse_'' @ em_execution_id e @ ''_'' @ zero_padded 4 (next_event_index e),
                            rse_execution_id = em_execution_id e, rse_request_id = em_request_id e,
                            rse_state = state, rse_entered_at = entered_at, rse_details = event_details\<rparr>;
                   transition = \<lparr>from_state = from, to_state = state, reason_code = reason, occurred_at = entered_at,
                                 tr_request_id = Some (em_request_id e), tr_execution_id = Some (em_execution_id e),
                                 tr_details = Some event_details\<rparr>
               in (True, e\<lparr>next_event_index := Suc (next_event_index e), em_events := em_events e @ [event],
                          em_transitions := em_transitions e @ [transition], current_state := state\<rparr>)))"

definition push :: "StateEmitter \<Rightarrow> RuntimeState \<Rightarrow> RuntimeTransitionReasonCode \<Rightarrow> json \<Rightarrow> StateEmitter" where
  "push e state reason details = snd (try_push e state reason details)"

definition finish :: "StateEmitter \<Rightarrow> FinishedStateMachineArtifacts" where
  "finish e =
     \<lparr>fin_events = em_events e, fin_transitions = em_transitions e,
      fin_validation =
        \<lparr>smv_kind = RUNTIME_STATE_MACHINE_VALIDATION_KIND, smv_schema_version = RUNTIME_SCHEMA_VERSION,
         smv_governing_spec = STATE_MACHINE_GOVERNING_SPEC,
         validated_at = time_stamp (next_second e - 1),
         smv_status = (if em_violations e = [] then Passed else Failed),
         checked_states = [Idle, LoadingRegistry, Ready, Discovering, EvaluatingConstraints, Selecting,
                           Executing, EmittingEvents, Completed, ErrorState],
         checked_transitions = map (\<lambda>t. runtime_state_name (from_state t) @ ''->'' @ runtime_state_name (to_state t)) (em_transitions e),
         violations = em_violations e\<rparr>\<rparr>"

section \<open>Paths of the state machine\<close>

inductive sm_path :: "RuntimeState \<Rightarrow> RuntimeTransitionRecord list \<Rightarrow> RuntimeState \<Rightarrow> bool" where
  path_start: "sm_path s [] s"
| path_step: "sm_path s ts (from_state t) \<Longrightarrow> is_allowed_transition (from_state t) (to_state t) (reason_code t) \<Longrightarrow>
    sm_path s (ts @ [t]) (to_state t)"

inductive_cases sm_path_NilE: "sm_path s [] s'"

text \<open>An emitter that has refused nothing: its transitions are a path from the initial to the current
  state, and its events are their exact image.\<close>

definition event_of :: "StateEmitter \<Rightarrow> nat \<Rightarrow> RuntimeTransitionRecord \<Rightarrow> RuntimeStateEvent" where
  "event_of e i t =
     \<lparr>rse_kind = RUNTIME_STATE_EVENT_KIND, rse_schema_version = RUNTIME_SCHEMA_VERSION,
      rse_event_id = ''rse_'' @ em_execution_id e @ ''_'' @ zero_padded 4 i,
      rse_execution_id = em_execution_id e, rse_request_id = em_request_id e, rse_state = to_state t,
      rse_entered_at = occurred_at t, rse_details = the (tr_details t)\<rparr>"

definition emitter_ok :: "StateEmitter \<Rightarrow> bool" where
  "emitter_ok e \<longleftrightarrow>
     sm_path Idle (em_transitions e) (current_state e) \<and> em_violations e = []
     \<and> next_event_index e = length (em_transitions e)
     \<and> em_events e = map (\<lambda>(i, t). event_of e i t) (zip [0..<length (em_transitions e)] (em_transitions e))
     \<and> (\<exists>seconds. sorted_wrt (<) seconds \<and> (\<forall>s \<in> set seconds. s < next_second e)
          \<and> map occurred_at (em_transitions e) = map time_stamp seconds)"

section \<open>Lemmas\<close>

lemmas allowed_simps = is_allowed_transition_def allowed_transitions_def

lemma zero_padded_inject: "zero_padded w m = zero_padded w n \<Longrightarrow> m = n"
proof -
  have parsed: "parse_digits 0 (zero_padded w k) = Some k" for k
  proof -
    have "parse_digits 0 (replicate j CHR ''0'' @ s) = parse_digits 0 s" for j s
      by (induction j) (simp_all add: is_digit_def digit_value_def)
    then show ?thesis by (simp add: zero_padded_def parse_digits_show_nat)
  qed
  assume "zero_padded w m = zero_padded w n"
  then show "m = n" using parsed by (metis option.inject)
qed

lemma new_emitter_ok: "emitter_ok (new_emitter i r)"
  by (simp add: emitter_ok_def new_emitter_def path_start)

lemma new_emitter_fields [simp]:
  "current_state (new_emitter i r) = Idle" "em_execution_id (new_emitter i r) = i"
  "em_request_id (new_emitter i r) = r"
  by (simp_all add: new_emitter_def)

lemma next_timestamp_fields [simp]:
  "current_state (snd (next_timestamp e)) = current_state e"
  "em_execution_id (snd (next_timestamp e)) = em_execution_id e"
  "em_request_id (snd (next_timestamp e)) = em_request_id e"
  "em_transitions (snd (next_timestamp e)) = em_transitions e"
  "em_events (snd (next_timestamp e)) = em_events e"
  by (simp_all add: next_timestamp_def)

lemma next_timestamp_ok: "emitter_ok e \<Longrightarrow> emitter_ok (snd (next_timestamp e))"
  unfolding emitter_ok_def next_timestamp_def event_of_def by (auto intro: less_SucI)

lemma push_fields [simp]:
  "em_execution_id (push e s r d) = em_execution_id e"
  "em_request_id (push e s r d) = em_request_id e"
  by (simp_all add: push_def try_push_def next_timestamp_def Let_def)

lemma push_state [simp]: "is_allowed_transition (current_state e) s r \<Longrightarrow> current_state (push e s r d) = s"
  by (simp add: push_def try_push_def next_timestamp_def Let_def)

text \<open>The transitions of an emitter, without their time and details.\<close>

definition steps_of :: "RuntimeTransitionRecord list \<Rightarrow> (RuntimeState \<times> RuntimeState \<times> RuntimeTransitionReasonCode) list" where
  "steps_of ts = map (\<lambda>t. (from_state t, to_state t, reason_code t)) ts"

lemma push_steps [simp]:
  "is_allowed_transition (current_state e) s r \<Longrightarrow>
   steps_of (em_transitions (push e s r d)) = steps_of (em_transitions e) @ [(current_state e, s, r)]"
  by (simp add: push_def try_push_def next_timestamp_def Let_def steps_of_def)

lemma push_ok:
  assumes "emitter_ok e" "is_allowed_transition (current_state e) s r"
  shows "emitter_ok (push e s r d)"
proof -
  obtain seconds where seconds: "sorted_wrt (<) seconds" "\<forall>s \<in> set seconds. s < next_second e"
    "map occurred_at (em_transitions e) = map time_stamp seconds"
    using assms(1) by (auto simp: emitter_ok_def)
  define t where "t = last (em_transitions (push e s r d))"
  have t: "em_transitions (push e s r d) = em_transitions e @ [t]" "from_state t = current_state e" "to_state t = s"
    "reason_code t = r" "occurred_at t = time_stamp (next_second e)"
    "em_events (push e s r d) = em_events e @ [event_of e (next_event_index e) t]"
    "em_violations (push e s r d) = em_violations e" "next_event_index (push e s r d) = Suc (next_event_index e)"
    "next_second (push e s r d) = Suc (next_second e)" "current_state (push e s r d) = s"
    using assms(2) by (simp_all add: t_def push_def try_push_def next_timestamp_def Let_def event_of_def)
  have ev: "event_of (push e s r d) = event_of e" by (simp add: event_of_def fun_eq_iff)
  have path: "sm_path Idle (em_transitions e @ [t]) s"
    using path_step [of Idle "em_transitions e" t] assms t(2-4) by (simp add: emitter_ok_def)
  have "sorted_wrt (<) (seconds @ [next_second e]) \<and> (\<forall>x \<in> set (seconds @ [next_second e]). x < Suc (next_second e))
      \<and> map occurred_at (em_transitions e @ [t]) = map time_stamp (seconds @ [next_second e])"
    using seconds t(5) by (auto simp: sorted_wrt_append less_SucI)
  then have "\<exists>seconds. sorted_wrt (<) seconds \<and> (\<forall>x \<in> set seconds. x < Suc (next_second e))
      \<and> map occurred_at (em_transitions e @ [t]) = map time_stamp seconds" by blast
  with assms(1) path show ?thesis
    unfolding emitter_ok_def t ev by simp
qed

lemma push_rejected:
  "\<not> is_allowed_transition (current_state e) s r \<Longrightarrow>
   em_transitions (push e s r d) = em_transitions e \<and> em_events (push e s r d) = em_events e
   \<and> current_state (push e s r d) = current_state e \<and> em_violations (push e s r d) \<noteq> []"
  by (simp add: push_def try_push_def Let_def)

lemma sm_path_append: "sm_path s ts s' \<Longrightarrow> sm_path s' us s'' \<Longrightarrow> sm_path s (ts @ us) s''"
proof (rotate_tac, induction rule: sm_path.induct)
  case (path_step s' us t)
  then show ?case using sm_path.path_step [of s "ts @ us" t] by simp
qed simp

end
