(* ===== verification/Registry.thy ===== *)
theory Registry
  imports Contracts
begin

text \<open>
  What the runtime reads of the capability registry. The registry is the package
  \<^verbatim>\<open>traverse-registry\<close>, outside this repository: only the fields of its records that the
  sources read are given here, and its operations are parameters of the definitions that call
  them (\<open>find_exact\<close> as the type \<open>registry\<close>).
\<close>

datatype LookupScope = PublicOnly | PreferPrivate

datatype RegistryScope = PublicScope | PrivateScope

datatype ImplementationKind = ExecutableKind | WorkflowKind

datatype SourceKind = LocalSource | OtherSource

datatype ArtifactSignatureScheme = Ed25519Signature | SigstoreSignature

record ArtifactSignature =
  signature_scheme :: ArtifactSignatureScheme
  public_key_hex :: "string option"
  signature_hex :: "string option"

record BinaryReference =
  binary_location :: string
  binary_signature :: "ArtifactSignature option"

record WorkflowReference =
  wref_workflow_id :: string
  wref_workflow_version :: string

record ArtifactRecord =
  artifact_binary :: "BinaryReference option"
  binary_digest :: "string option"
  source_digest :: string
  artifact_source_kind :: SourceKind
  artifact_workflow_ref :: "WorkflowReference option"

record CapabilityRecord =
  rec_scope :: RegistryScope
  rec_id :: string
  rec_version :: string
  rec_artifact_ref :: string
  rec_contract_path :: string
  rec_implementation_kind :: ImplementationKind
  rec_lifecycle :: Lifecycle

record ResolvedCapability =
  rc_record :: CapabilityRecord
  rc_contract :: CapabilityContract
  rc_artifact :: ArtifactRecord

text \<open>\<^verbatim>\<open>CapabilityRegistry::find_exact\<close>: scope, capability id, version.\<close>

type_synonym registry = "LookupScope \<Rightarrow> string \<Rightarrow> string \<Rightarrow> ResolvedCapability option"

text \<open>What the runtime reads of a registered workflow.\<close>

datatype WorkflowEdgeTrigger = DirectTrigger | EventTrigger

record WorkflowEdgePredicate =
  wp_field :: string
  wp_equals :: json

record WorkflowEdge =
  we_edge_id :: string
  we_from :: string
  we_to :: string
  we_trigger :: WorkflowEdgeTrigger
  we_event :: "EventReference option"
  we_predicate :: "WorkflowEdgePredicate option"

record WorkflowNode =
  wn_node_id :: string
  wn_capability_id :: string
  wn_capability_version :: string
  from_workflow_input :: "string list"
  to_workflow_state :: "string list"
  publish_to_state_as :: "string option"

record WorkflowDefinition =
  wd_id :: string
  wd_version :: string
  wd_inputs :: SchemaContainer
  wd_outputs :: SchemaContainer
  wd_nodes :: "WorkflowNode list"
  wd_edges :: "WorkflowEdge list"
  wd_start_node :: string
  wd_terminal_nodes :: "string list"
  wd_output_projection :: "string list"

text \<open>\<^verbatim>\<open>WorkflowRegistry::find_exact\<close>; only the definition of a resolved workflow is read.\<close>

type_synonym workflow_registry = "LookupScope \<Rightarrow> string \<Rightarrow> string \<Rightarrow> WorkflowDefinition option"

end
