(* ===== verification/Proposal_Graph.thy ===== *)
theory Proposal_Graph
  imports Json "HOL-Library.Product_Lexorder"
begin

text \<open>
  Structural validation of workflow proposals and their execution schedules:
  \<^verbatim>\<open>crates/traverse-contracts/src/proposal.rs\<close>. The data of a proposal, the checks of
  \<^verbatim>\<open>canonicalize_proposal\<close> in their order, Kahn's algorithm with lexicographic tie-breaking
  (\<^verbatim>\<open>topological_order\<close>) and the levels of \<^verbatim>\<open>compute_parallel_schedule\<close>.

  \<^item> A \<^verbatim>\<open>BTreeSet<String>\<close> is a set; iterating it is \<open>sorted_list_of_set\<close>, its first element
    \<open>Min\<close>. A \<^verbatim>\<open>BTreeMap\<close> that is only read with a default is a total function to that default.
  \<^item> The decrement of an in-degree is a checked subtraction: \<open>None\<close> stands for the arithmetic
    panic of the source, and for a loop that runs past its fuel. Both are proved impossible.
  \<^item> An error carries its code and its path; the message text is left out.
  \<^item> \<^verbatim>\<open>serde_json::to_vec\<close> is a parameter that gives the length of the encoding, if it encodes.
\<close>

section \<open>Definitions\<close>

subsection \<open>Data\<close>

definition PROPOSAL_KIND :: string where
  "PROPOSAL_KIND = ''workflow_proposal''"

definition PROPOSAL_SCHEMA_VERSION :: string where
  "PROPOSAL_SCHEMA_VERSION = ''1.0.0''"

record ManifestReference =
  app_id :: string
  app_version :: string
  manifest_digest :: string

record ProposalNode =
  node_id :: string
  capability_id :: string
  capability_version :: string
  artifact_digest :: string

record ProposalEdge =
  from_node_id :: string
  to_node_id :: string

datatype MappingSource = InitialInput | NodeSource string

record ProposalMapping =
  mapping_source :: MappingSource
  source_path :: string
  target_node_id :: string
  target_path :: string

record WorkflowProposal =
  kind :: string
  schema_version :: string
  proposal_id :: string
  workspace_id :: string
  app_manifest :: ManifestReference
  nodes :: "ProposalNode list"
  edges :: "ProposalEdge list"
  mappings :: "ProposalMapping list"
  initial_input :: json

record ProposalLimits =
  max_nodes :: nat
  max_edges :: nat
  max_mappings :: nat
  max_initial_input_bytes :: nat

definition default_proposal_limits :: ProposalLimits where
  "default_proposal_limits =
     \<lparr>max_nodes = 32, max_edges = 64, max_mappings = 128, max_initial_input_bytes = 262144\<rparr>"

record CanonicalProposal =
  proposal :: WorkflowProposal
  execution_order :: "string list"

datatype ProposalValidationErrorCode =
  InvalidLiteral | MissingRequiredField | NodeLimitExceeded | EdgeLimitExceeded
| MappingLimitExceeded | PayloadLimitExceeded | DuplicateNodeId | UnknownEdgeEndpoint
| SelfLoopEdge | DuplicateEdge | CyclicGraph | UnknownMappingEndpoint
| AmbiguousMultiWriterTarget | MissingDependencyEdgeForMapping

record ProposalValidationError =
  pve_code :: ProposalValidationErrorCode
  pve_path :: string

definition pve :: "ProposalValidationErrorCode \<Rightarrow> string \<Rightarrow> ProposalValidationError" where
  "pve code path = \<lparr>pve_code = code, pve_path = path\<rparr>"

definition validate_non_empty :: "string \<Rightarrow> string \<Rightarrow> ProposalValidationError list" where
  "validate_non_empty value path = (if blank value then [pve MissingRequiredField path] else [])"

subsection \<open>The checks of canonicalize\_proposal\<close>

text \<open>The literals, the limits and the payload size (\<^verbatim>\<open>usize::MAX\<close> when it does not encode).\<close>

definition check_header ::
  "(json \<Rightarrow> nat option) \<Rightarrow> WorkflowProposal \<Rightarrow> ProposalLimits \<Rightarrow> ProposalValidationError list" where
  "check_header to_vec_len p l =
     (if kind p \<noteq> PROPOSAL_KIND then [pve InvalidLiteral ''$.kind''] else [])
   @ (if schema_version p \<noteq> PROPOSAL_SCHEMA_VERSION then [pve InvalidLiteral ''$.schema_version''] else [])
   @ validate_non_empty (proposal_id p) ''$.proposal_id''
   @ validate_non_empty (workspace_id p) ''$.workspace_id''
   @ (if length (nodes p) > max_nodes l then [pve NodeLimitExceeded ''$.nodes''] else [])
   @ (if length (edges p) > max_edges l then [pve EdgeLimitExceeded ''$.edges''] else [])
   @ (if length (mappings p) > max_mappings l then [pve MappingLimitExceeded ''$.mappings''] else [])
   @ (if (case to_vec_len (initial_input p) of None \<Rightarrow> u64_max | Some n \<Rightarrow> n) > max_initial_input_bytes l
      then [pve PayloadLimitExceeded ''$.initial_input''] else [])"

definition indexed :: "string \<Rightarrow> nat \<Rightarrow> string" where
  "indexed name i = ''$.'' @ name @ ''['' @ show_nat i @ '']''"

text \<open>The node loop: the errors, and the set of node ids seen.\<close>

fun check_nodes ::
  "nat \<Rightarrow> ProposalNode list \<Rightarrow> string set \<Rightarrow> ProposalValidationError list \<times> string set" where
  "check_nodes i [] seen = ([], seen)"
| "check_nodes i (n # ns) seen =
     (let path = indexed ''nodes'' i;
          errs = validate_non_empty (node_id n) (path @ ''.node_id'')
               @ validate_non_empty (capability_id n) (path @ ''.capability_id'')
               @ validate_non_empty (capability_version n) (path @ ''.capability_version'')
               @ validate_non_empty (artifact_digest n) (path @ ''.artifact_digest'')
               @ (if node_id n \<in> seen then [pve DuplicateNodeId (path @ ''.node_id'')] else []);
          rest = check_nodes (Suc i) ns (insert (node_id n) seen)
      in (errs @ fst rest, snd rest))"

text \<open>The edge loop with its adjacency, in-degree and declared-edge tables.\<close>

record EdgeScan =
  adjacency :: "string \<Rightarrow> string set"
  in_degree :: "string \<Rightarrow> nat"
  declared_edges :: "(string \<times> string) set"
  edge_errors :: "ProposalValidationError list"

definition empty_scan :: EdgeScan where
  "empty_scan = \<lparr>adjacency = (\<lambda>_. {}), in_degree = (\<lambda>_. 0), declared_edges = {}, edge_errors = []\<rparr>"

definition push_edge_error :: "ProposalValidationErrorCode \<Rightarrow> string \<Rightarrow> EdgeScan \<Rightarrow> EdgeScan" where
  "push_edge_error code path st = st\<lparr>edge_errors := edge_errors st @ [pve code path]\<rparr>"

definition scan_edge :: "string set \<Rightarrow> nat \<Rightarrow> ProposalEdge \<Rightarrow> EdgeScan \<Rightarrow> EdgeScan" where
  "scan_edge ids i e st =
     (let path = indexed ''edges'' i; u = from_node_id e; v = to_node_id e
      in if u = v then push_edge_error SelfLoopEdge path st
         else if u \<notin> ids then push_edge_error UnknownEdgeEndpoint (path @ ''.from_node_id'') st
         else if v \<notin> ids then push_edge_error UnknownEdgeEndpoint (path @ ''.to_node_id'') st
         else if (u, v) \<in> declared_edges st then push_edge_error DuplicateEdge path st
         else st\<lparr>declared_edges := insert (u, v) (declared_edges st),
                 adjacency := (adjacency st)(u := insert v (adjacency st u)),
                 in_degree := (in_degree st)(v := in_degree st v + 1)\<rparr>)"

fun scan_edges :: "string set \<Rightarrow> nat \<Rightarrow> ProposalEdge list \<Rightarrow> EdgeScan \<Rightarrow> EdgeScan" where
  "scan_edges ids i [] st = st"
| "scan_edges ids i (e # es) st = scan_edges ids (Suc i) es (scan_edge ids i e st)"

text \<open>
  The mapping loop. \<^verbatim>\<open>writer_targets\<close> counts the writers of a target; the model keeps the list
  of written targets, whose occurrences are that count.
\<close>

fun check_mappings ::
  "string set \<Rightarrow> (string \<times> string) set \<Rightarrow> nat \<Rightarrow> ProposalMapping list \<Rightarrow>
     ProposalValidationError list \<times> (string \<times> string) list" where
  "check_mappings ids declared i [] = ([], [])"
| "check_mappings ids declared i (m # ms) =
     (let path = indexed ''mappings'' i;
          errs = validate_non_empty (source_path m) (path @ ''.source_path'')
               @ validate_non_empty (target_path m) (path @ ''.target_path'');
          rest = check_mappings ids declared (Suc i) ms;
          skip = (\<lambda>e. (errs @ [e] @ fst rest, snd rest));
          accept = (errs @ fst rest, (target_node_id m, target_path m) # snd rest)
      in if target_node_id m \<notin> ids then skip (pve UnknownMappingEndpoint (path @ ''.target_node_id''))
         else (case mapping_source m of
                 InitialInput \<Rightarrow> accept
               | NodeSource s \<Rightarrow>
                   if s \<notin> ids then skip (pve UnknownMappingEndpoint (path @ ''.source''))
                   else if (s, target_node_id m) \<notin> declared
                   then skip (pve MissingDependencyEdgeForMapping path)
                   else accept))"

definition multi_writer_errors :: "(string \<times> string) list \<Rightarrow> ProposalValidationError list" where
  "multi_writer_errors writers =
     map (\<lambda>(node, path). pve AmbiguousMultiWriterTarget
            (''$.mappings[?target_node_id='' @ node @ ''][?target_path='' @ path @ '']''))
       (filter (\<lambda>w. count_list writers w > 1) (sorted_list_of_set (set writers)))"

subsection \<open>Topological order\<close>

text \<open>
  One pass over the successors of a finished node: decrement, and collect those that reach
  zero. The subtraction of a zero degree is the panic.
\<close>

type_synonym degrees = "string \<Rightarrow> nat"

fun relax :: "string list \<Rightarrow> degrees \<times> string set \<Rightarrow> (degrees \<times> string set) option" where
  "relax [] st = Some st"
| "relax (v # vs) (d, ready) =
     (if d v = 0 then None
      else relax vs (d(v := d v - 1), if d v - 1 = 0 then insert v ready else ready))"

fun kahn ::
  "nat \<Rightarrow> (string \<Rightarrow> string set) \<Rightarrow> string set \<Rightarrow> degrees \<Rightarrow> string list \<Rightarrow> string list option" where
  "kahn 0 adj ready d order = (if ready = {} then Some order else None)"
| "kahn (Suc fuel) adj ready d order =
     (if ready = {} then Some order
      else (let u = Min ready
            in case relax (sorted_list_of_set (adj u)) (d, ready - {u}) of
                 None \<Rightarrow> None
               | Some (d', ready') \<Rightarrow> kahn fuel adj ready' d' (order @ [u])))"

definition topological_order ::
  "string set \<Rightarrow> (string \<Rightarrow> string set) \<Rightarrow> degrees \<Rightarrow> (string list, unit) result option" where
  "topological_order ids adj deg =
     (case kahn (card ids) adj {v \<in> ids. deg v = 0} deg [] of
        None \<Rightarrow> None
      | Some order \<Rightarrow> Some (if length order = card ids then Ok order else Err ()))"

definition node_ids :: "WorkflowProposal \<Rightarrow> string set" where
  "node_ids p = snd (check_nodes 0 (nodes p) {})"

definition edge_tables :: "WorkflowProposal \<Rightarrow> EdgeScan" where
  "edge_tables p = scan_edges (node_ids p) 0 (edges p) empty_scan"

definition structural_errors ::
  "(json \<Rightarrow> nat option) \<Rightarrow> WorkflowProposal \<Rightarrow> ProposalLimits \<Rightarrow> ProposalValidationError list" where
  "structural_errors to_vec_len p l =
     (let st = edge_tables p;
          (mapping_errors, writers) = check_mappings (node_ids p) (declared_edges st) 0 (mappings p)
      in check_header to_vec_len p l @ fst (check_nodes 0 (nodes p) {}) @ edge_errors st
         @ mapping_errors @ multi_writer_errors writers)"

definition canonicalize_proposal ::
  "(json \<Rightarrow> nat option) \<Rightarrow> WorkflowProposal \<Rightarrow> ProposalLimits \<Rightarrow>
     (CanonicalProposal, ProposalValidationError list) result option" where
  "canonicalize_proposal to_vec_len p l =
     (let errors = structural_errors to_vec_len p l; st = edge_tables p
      in if errors \<noteq> [] then Some (Err errors)
         else (case topological_order (node_ids p) (adjacency st) (in_degree st) of
                 None \<Rightarrow> None
               | Some (Inl _) \<Rightarrow> Some (Err [pve CyclicGraph ''$.edges''])
               | Some (Inr order) \<Rightarrow> Some (Ok \<lparr>proposal = p, execution_order = order\<rparr>)))"

subsection \<open>Parallel schedule\<close>

record ParallelScheduleLimits =
  max_fan_out :: nat
  max_join_width :: nat
  max_queue_depth :: nat
  max_concurrent_nodes :: nat

definition default_schedule_limits :: ParallelScheduleLimits where
  "default_schedule_limits =
     \<lparr>max_fan_out = 8, max_join_width = 8, max_queue_depth = 16, max_concurrent_nodes = 8\<rparr>"

datatype ParallelScheduleErrorCode = FanOutExceeded | JoinWidthExceeded | QueueDepthExceeded

record ParallelScheduleError =
  pse_code :: ParallelScheduleErrorCode
  pse_path :: string

definition pse :: "ParallelScheduleErrorCode \<Rightarrow> string \<Rightarrow> ParallelScheduleError" where
  "pse code path = \<lparr>pse_code = code, pse_path = path\<rparr>"

record ParallelSchedule =
  waves :: "string list list"

text \<open>The tables the schedule builds again from the edge list, without the edge checks.\<close>

fun schedule_tables ::
  "ProposalEdge list \<Rightarrow> (string \<Rightarrow> string set) \<times> degrees \<Rightarrow> (string \<Rightarrow> string set) \<times> degrees" where
  "schedule_tables [] st = st"
| "schedule_tables (e # es) (adj, deg) =
     schedule_tables es
       (adj(from_node_id e := insert (to_node_id e) (adj (from_node_id e))),
        deg(to_node_id e := deg (to_node_id e) + 1))"

fun relax_wave ::
  "(string \<Rightarrow> string set) \<Rightarrow> string list \<Rightarrow> degrees \<times> string set \<Rightarrow> (degrees \<times> string set) option" where
  "relax_wave adj [] st = Some st"
| "relax_wave adj (u # us) st =
     (case relax (sorted_list_of_set (adj u)) st of
        None \<Rightarrow> None
      | Some st' \<Rightarrow> relax_wave adj us st')"

fun wave_loop ::
  "nat \<Rightarrow> (string \<Rightarrow> string set) \<Rightarrow> nat \<Rightarrow> string set \<Rightarrow> degrees \<Rightarrow> string list list \<Rightarrow>
     ParallelScheduleError list \<Rightarrow> (string list list \<times> ParallelScheduleError list) option" where
  "wave_loop 0 adj fan ready d ws errs = (if ready = {} then Some (ws, errs) else None)"
| "wave_loop (Suc fuel) adj fan ready d ws errs =
     (if ready = {} then Some (ws, errs)
      else (let wave = sorted_list_of_set ready;
                errs' = errs @ (if length wave > fan then [pse FanOutExceeded ''$.nodes''] else [])
            in case relax_wave adj wave (d, {}) of
                 None \<Rightarrow> None
               | Some (d', next_ready) \<Rightarrow> wave_loop fuel adj fan next_ready d' (ws @ [wave]) errs'))"

definition compute_parallel_schedule ::
  "CanonicalProposal \<Rightarrow> ParallelScheduleLimits \<Rightarrow>
     (ParallelSchedule, ParallelScheduleError list) result option" where
  "compute_parallel_schedule c l =
     (let ids = node_id ` set (nodes (proposal c));
          queue_errors = (if card ids > max_queue_depth l then [pse QueueDepthExceeded ''$.nodes''] else []);
          (adj, deg) = schedule_tables (edges (proposal c)) (\<lambda>_. {}, \<lambda>_. 0);
          degree_keys = ids \<union> to_node_id ` set (edges (proposal c));
          join_errors =
            map (\<lambda>v. pse JoinWidthExceeded (''$.nodes[?node_id='' @ v @ '']''))
              (filter (\<lambda>v. deg v > max_join_width l) (sorted_list_of_set degree_keys))
      in case wave_loop (card ids) adj (max_fan_out l) {v \<in> ids. deg v = 0} deg []
                (queue_errors @ join_errors) of
           None \<Rightarrow> None
         | Some (ws, errs) \<Rightarrow> Some (if errs = [] then Ok \<lparr>waves = ws\<rparr> else Err errs))"

subsection \<open>Specification\<close>

text \<open>
  The nodes that may run once the nodes of \<open>S\<close> are done, the order in which the
  lexicographically least such node runs next, and the levels in which all of them run.
\<close>

definition preds :: "(string \<times> string) set \<Rightarrow> string \<Rightarrow> string set" where
  "preds E v = {u. (u, v) \<in> E}"

definition ready_set :: "string set \<Rightarrow> (string \<times> string) set \<Rightarrow> string set \<Rightarrow> string set" where
  "ready_set ids E S = {v \<in> ids - S. preds E v \<subseteq> S}"

definition greedy_order :: "string set \<Rightarrow> (string \<times> string) set \<Rightarrow> string list \<Rightarrow> bool" where
  "greedy_order ids E L \<longleftrightarrow>
     (\<forall>i < length L. ready_set ids E (set (take i L)) \<noteq> {} \<and>
        L ! i = Min (ready_set ids E (set (take i L))))"

definition greedy_waves :: "string set \<Rightarrow> (string \<times> string) set \<Rightarrow> string list list \<Rightarrow> bool" where
  "greedy_waves ids E W \<longleftrightarrow>
     (\<forall>i < length W. W ! i \<noteq> [] \<and>
        W ! i = sorted_list_of_set (ready_set ids E (set (concat (take i W)))))"

definition edge_pairs :: "WorkflowProposal \<Rightarrow> (string \<times> string) list" where
  "edge_pairs p = map (\<lambda>e. (from_node_id e, to_node_id e)) (edges p)"

definition declared_ids :: "WorkflowProposal \<Rightarrow> string set" where
  "declared_ids p = node_id ` set (nodes p)"

text \<open>What a structurally valid proposal is, said without the loops.\<close>

definition well_formed_proposal ::
  "(json \<Rightarrow> nat option) \<Rightarrow> WorkflowProposal \<Rightarrow> ProposalLimits \<Rightarrow> bool" where
  "well_formed_proposal to_vec_len p l \<longleftrightarrow>
     kind p = PROPOSAL_KIND \<and> schema_version p = PROPOSAL_SCHEMA_VERSION
   \<and> \<not> blank (proposal_id p) \<and> \<not> blank (workspace_id p)
   \<and> length (nodes p) \<le> max_nodes l \<and> length (edges p) \<le> max_edges l
   \<and> length (mappings p) \<le> max_mappings l
   \<and> (case to_vec_len (initial_input p) of None \<Rightarrow> u64_max | Some n \<Rightarrow> n) \<le> max_initial_input_bytes l
   \<and> (\<forall>n \<in> set (nodes p). \<not> blank (node_id n) \<and> \<not> blank (capability_id n)
        \<and> \<not> blank (capability_version n) \<and> \<not> blank (artifact_digest n))
   \<and> distinct (map node_id (nodes p))
   \<and> (\<forall>(u, v) \<in> set (edge_pairs p). u \<noteq> v \<and> u \<in> declared_ids p \<and> v \<in> declared_ids p)
   \<and> distinct (edge_pairs p)
   \<and> (\<forall>m \<in> set (mappings p). \<not> blank (source_path m) \<and> \<not> blank (target_path m)
        \<and> target_node_id m \<in> declared_ids p
        \<and> (case mapping_source m of InitialInput \<Rightarrow> True
           | NodeSource s \<Rightarrow> (s, target_node_id m) \<in> set (edge_pairs p)))
   \<and> distinct (map (\<lambda>m. (target_node_id m, target_path m)) (mappings p))
   \<and> acyclic (set (edge_pairs p))"

section \<open>The tables of the edge scan\<close>

definition fan_errors :: "nat \<Rightarrow> string list list \<Rightarrow> ParallelScheduleError list" where
  "fan_errors fan W = concat (map (\<lambda>w. if length w > fan then [pse FanOutExceeded ''$.nodes''] else []) W)"

lemma greedy_order_snoc:
  "greedy_order ids E (L @ [x]) \<longleftrightarrow>
     greedy_order ids E L \<and> ready_set ids E (set L) \<noteq> {} \<and> x = Min (ready_set ids E (set L))"
  by (auto simp: greedy_order_def less_Suc_eq nth_append)

lemma greedy_waves_snoc:
  "greedy_waves ids E (W @ [w]) \<longleftrightarrow>
     greedy_waves ids E W \<and> w \<noteq> [] \<and> w = sorted_list_of_set (ready_set ids E (set (concat W)))"
  by (auto simp: greedy_waves_def less_Suc_eq nth_append)

text \<open>The contract between the tables a scan builds and the loops that consume them.\<close>

locale dependency_tables =
  fixes ids :: "string set"
    and E :: "(string \<times> string) set"
    and adj :: "string \<Rightarrow> string set"
    and deg :: degrees
  assumes finite_ids: "finite ids"
    and E_ids: "E \<subseteq> ids \<times> ids"
    and adj_E: "adj u = {v. (u, v) \<in> E}"
    and deg_E: "deg v = card (preds E v)"
begin

lemma finite_preds: "finite (preds E v)"
  by (rule finite_subset [OF _ finite_ids]) (use E_ids in \<open>auto simp: preds_def\<close>)

lemma finite_adj: "finite (adj u)"
  by (rule finite_subset [OF _ finite_ids]) (use E_ids adj_E in auto)

lemma finite_ready: "finite (ready_set ids E S)"
  using finite_ids by (auto simp: ready_set_def)

lemma ready_initial: "{v \<in> ids. deg v = 0} = ready_set ids E {}"
  by (auto simp: ready_set_def deg_E finite_preds)

lemma card_preds_insert:
  assumes "u \<notin> S"
  shows "card (preds E v - insert u S) = (if v \<in> adj u then card (preds E v - S) - 1 else card (preds E v - S))"
proof (cases "v \<in> adj u")
  case True
  then have "u \<in> preds E v - S" using assms by (auto simp: adj_E preds_def)
  moreover have "preds E v - insert u S = (preds E v - S) - {u}" by auto
  ultimately show ?thesis using True finite_preds by simp
next
  case False
  then have "preds E v - insert u S = preds E v - S" by (auto simp: adj_E preds_def)
  then show ?thesis using False by simp
qed

lemma relax_distinct:
  assumes "distinct vs" "\<forall>v \<in> set vs. 0 < d v"
  shows "relax vs (d, R) =
    Some (\<lambda>v. if v \<in> set vs then d v - 1 else d v, R \<union> {v \<in> set vs. d v = 1})"
  using assms
proof (induction vs arbitrary: d R)
  case Nil
  then show ?case by simp
next
  case (Cons w ws)
  let ?d = "d(w := d w - 1)" and ?R = "if d w - 1 = 0 then insert w R else R"
  have pos: "\<forall>v \<in> set ws. 0 < ?d v" using Cons.prems by auto
  have "relax (w # ws) (d, R) = relax ws (?d, ?R)" using Cons.prems by simp
  also have "\<dots> = Some (\<lambda>v. if v \<in> set ws then ?d v - 1 else ?d v, ?R \<union> {v \<in> set ws. ?d v = 1})"
    by (rule Cons.IH [OF _ pos]) (use Cons.prems in simp)
  also have "\<dots> = Some (\<lambda>v. if v \<in> set (w # ws) then d v - 1 else d v, R \<union> {v \<in> set (w # ws). d v = 1})"
  proof -
    have "(\<lambda>v. if v \<in> set ws then ?d v - 1 else ?d v) = (\<lambda>v. if v \<in> set (w # ws) then d v - 1 else d v)"
      using Cons.prems by (auto simp: fun_eq_iff)
    moreover have "?R \<union> {v \<in> set ws. ?d v = 1} = R \<union> {v \<in> set (w # ws). d v = 1}"
      using Cons.prems by (auto split: if_splits)
    ultimately show ?thesis by (simp only:)
  qed
  finally show ?case .
qed

text \<open>Relaxing one finished node moves the remaining degrees from \<open>S\<close> to \<open>insert u S\<close>.\<close>

lemma relax_step:
  assumes "u \<notin> S" and d: "d = (\<lambda>v. card (preds E v - S))"
  shows "relax (sorted_list_of_set (adj u)) (d, R) =
    Some (\<lambda>v. card (preds E v - insert u S), R \<union> {v. u \<in> preds E v \<and> preds E v \<subseteq> insert u S})"
proof -
  have mem: "v \<in> adj u \<longleftrightarrow> u \<in> preds E v" for v by (simp add: adj_E preds_def)
  have pos: "\<forall>v \<in> set (sorted_list_of_set (adj u)). 0 < d v"
    using assms(1) finite_preds
    by (auto simp: finite_adj d mem card_gt_0_iff)
  have one: "d v = 1 \<longleftrightarrow> preds E v \<subseteq> insert u S" if "u \<in> preds E v" for v
  proof -
    have "0 < d v" using pos that mem by (simp add: finite_adj)
    then have "d v = 1 \<longleftrightarrow> card (preds E v - insert u S) = 0"
      using card_preds_insert [OF assms(1), of v] that mem by (simp add: d) linarith
    also have "\<dots> \<longleftrightarrow> preds E v \<subseteq> insert u S" using finite_preds by auto
    finally show ?thesis .
  qed
  have "(\<lambda>v. if v \<in> adj u then d v - 1 else d v) = (\<lambda>v. card (preds E v - insert u S))"
    by (simp add: fun_eq_iff card_preds_insert [OF assms(1)] d)
  moreover have "{v \<in> adj u. d v = 1} = {v. u \<in> preds E v \<and> preds E v \<subseteq> insert u S}"
    using one mem by auto
  ultimately show ?thesis
    using relax_distinct [OF _ pos, of R] by (simp add: finite_adj)
qed

lemma ready_set_insert:
  assumes "u \<in> ready_set ids E S" "\<forall>v \<in> S. preds E v \<subseteq> S"
  shows "ready_set ids E (insert u S) =
    (ready_set ids E S - {u}) \<union> {v. u \<in> preds E v \<and> preds E v \<subseteq> insert u S}"
  using assms E_ids by (auto simp: ready_set_def preds_def)

lemma ready_set_level:
  assumes "\<forall>v \<in> S. preds E v \<subseteq> S"
  shows "ready_set ids E (S \<union> ready_set ids E S) =
    {v. \<exists>u \<in> ready_set ids E S. u \<in> preds E v \<and> preds E v \<subseteq> S \<union> ready_set ids E S}"
    (is "?L = ?R")
proof (rule set_eqI)
  fix v
  show "v \<in> ?L \<longleftrightarrow> v \<in> ?R"
  proof
    assume v: "v \<in> ?L"
    then have "\<not> preds E v \<subseteq> S" by (auto simp: ready_set_def)
    with v show "v \<in> ?R" by (auto simp: ready_set_def)
  next
    assume "v \<in> ?R"
    then obtain u where u: "u \<in> ready_set ids E S" "u \<in> preds E v"
      and sub: "preds E v \<subseteq> S \<union> ready_set ids E S" by auto
    have "u \<notin> S" using u(1) by (simp add: ready_set_def)
    moreover have "v \<in> ids" using u(2) E_ids by (auto simp: preds_def)
    ultimately show "v \<in> ?L" using u sub assms by (auto simp: ready_set_def)
  qed
qed

text \<open>Facts that the greedy choice alone gives.\<close>

lemma greedy_order_facts:
  assumes "greedy_order ids E L"
  shows "distinct L \<and> set L \<subseteq> ids \<and> (\<forall>v \<in> set L. preds E v \<subseteq> set L)"
  using assms
proof (induction L rule: rev_induct)
  case Nil
  then show ?case by simp
next
  case (snoc x L)
  then have g: "greedy_order ids E L" "ready_set ids E (set L) \<noteq> {}" "x = Min (ready_set ids E (set L))"
    by (simp_all add: greedy_order_snoc)
  then have "x \<in> ready_set ids E (set L)" using Min_in [OF finite_ready] by blast
  then show ?case using snoc.IH [OF g(1)] by (auto simp: ready_set_def)
qed

lemma greedy_waves_facts:
  assumes "greedy_waves ids E W"
  shows "distinct (concat W) \<and> set (concat W) \<subseteq> ids \<and>
    (\<forall>v \<in> set (concat W). preds E v \<subseteq> set (concat W))"
  using assms
proof (induction W rule: rev_induct)
  case Nil
  then show ?case by simp
next
  case (snoc w W)
  then have g: "greedy_waves ids E W" "w = sorted_list_of_set (ready_set ids E (set (concat W)))"
    by (simp_all add: greedy_waves_snoc)
  then have w: "distinct w" "set w = ready_set ids E (set (concat W))"
    by (simp_all add: finite_ready)
  obtain S where S: "S = set (concat W)" by simp
  have IH: "distinct (concat W)" "S \<subseteq> ids" "\<forall>v \<in> S. preds E v \<subseteq> S"
    using snoc.IH [OF g(1)] unfolding S by blast+
  have S': "set (concat (W @ [w])) = S \<union> set w" using S by simp
  have disj: "set (concat W) \<inter> set w = {}" unfolding w(2) by (auto simp only: ready_set_def)
  have "distinct (concat W @ w)" using IH(1) w(1) disj by (simp only: distinct_append)
  then have "distinct (concat (W @ [w]))" by simp
  moreover have "S \<union> ready_set ids E S \<subseteq> ids" using IH(2) by (auto simp: ready_set_def)
  moreover have "\<forall>v \<in> S \<union> ready_set ids E S. preds E v \<subseteq> S \<union> ready_set ids E S"
    using IH(3) by (auto simp: ready_set_def)
  ultimately show ?case unfolding S' w(2) S [symmetric] by blast
qed

text \<open>A run that is stuck before it has every node witnesses a cycle.\<close>

lemma stuck_complete:
  assumes "acyclic E" "ready_set ids E S = {}" "S \<subseteq> ids"
  shows "S = ids"
proof (rule ccontr)
  assume "S \<noteq> ids"
  then obtain x where "x \<in> ids - S" using assms(3) by auto
  moreover have "wf E"
    using finite_acyclic_wf [OF finite_subset [OF E_ids]] finite_ids assms(1) by simp
  ultimately obtain z where "z \<in> ids - S" "\<And>y. (y, z) \<in> E \<Longrightarrow> y \<notin> ids - S"
    by (meson wfE_min)
  then have "z \<in> ready_set ids E S" using E_ids by (auto simp: ready_set_def preds_def)
  with assms(2) show False by simp
qed

lemma greedy_order_before:
  assumes "greedy_order ids E L" "(u, v) \<in> E" "j < length L" "L ! j = v"
  shows "\<exists>i < j. L ! i = u"
proof -
  have "v \<in> ready_set ids E (set (take j L))"
    using assms Min_in [OF finite_ready] unfolding greedy_order_def by metis
  then have "u \<in> set (take j L)" using assms(2) by (auto simp: ready_set_def preds_def)
  then show ?thesis using assms(3) by (auto simp: in_set_conv_nth)
qed

lemma greedy_waves_before:
  assumes "greedy_waves ids E W" "(u, v) \<in> E" "j < length W" "v \<in> set (W ! j)"
  shows "\<exists>i < j. u \<in> set (W ! i)"
proof -
  have "W ! j = sorted_list_of_set (ready_set ids E (set (concat (take j W))))"
    using assms(1,3) by (simp only: greedy_waves_def)
  then have "v \<in> ready_set ids E (set (concat (take j W)))"
    using assms(4) finite_ready by (metis set_sorted_list_of_set)
  then have "u \<in> set (concat (take j W))" using assms(2) unfolding ready_set_def preds_def by blast
  then obtain w where w: "w \<in> set (take j W)" "u \<in> set w" unfolding set_concat by blast
  then obtain i where "i < j" "w = W ! i" using assms(3) by (auto simp: in_set_conv_nth)
  with w(2) show ?thesis by blast
qed

lemma greedy_complete_acyclic:
  assumes "greedy_order ids E L" "set L = ids"
  shows "acyclic E"
proof -
  let ?idx = "\<lambda>v. length (takeWhile ((\<noteq>) v) L)"
  have L: "distinct L" using greedy_order_facts [OF assms(1)] by simp
  have idx: "?idx (L ! i) = i" if "i < length L" for i
    using that L by (subst takeWhile_eq_take_P_nth [of i]) (auto simp: nth_eq_iff_index_eq)
  have "E \<subseteq> measure ?idx"
  proof
    fix x assume "x \<in> E"
    then obtain u v where x: "x = (u, v)" "(u, v) \<in> E" by (cases x) auto
    then obtain j where j: "j < length L" "L ! j = v"
      using E_ids assms(2) by (metis in_set_conv_nth mem_Sigma_iff subsetD)
    then obtain i where "i < j" "L ! i = u" using greedy_order_before [OF assms(1) x(2)] by auto
    then show "x \<in> measure ?idx" using x j idx [of i] idx [of j] by simp
  qed
  then show ?thesis using wf_subset [OF wf_measure] wf_acyclic by blast
qed

subsection \<open>Kahn's loop\<close>

lemma kahn_run:
  assumes "card (ids - set L) \<le> fuel" "greedy_order ids E L"
  shows "\<exists>L'. kahn fuel adj (ready_set ids E (set L)) (\<lambda>v. card (preds E v - set L)) L = Some L'
    \<and> greedy_order ids E L' \<and> ready_set ids E (set L') = {}"
  using assms
proof (induction fuel arbitrary: L)
  case 0
  then have "ready_set ids E (set L) = {}" using finite_ids by (auto simp: ready_set_def)
  with 0 show ?case by auto
next
  case (Suc fuel)
  show ?case
  proof (cases "ready_set ids E (set L) = {}")
    case True
    with Suc.prems show ?thesis by auto
  next
    case False
    define u where "u = Min (ready_set ids E (set L))"
    have u: "u \<in> ready_set ids E (set L)" unfolding u_def by (rule Min_in [OF finite_ready False])
    then have new: "u \<notin> set L" "u \<in> ids" by (simp_all add: ready_set_def)
    have closed: "\<forall>v \<in> set L. preds E v \<subseteq> set L" using greedy_order_facts Suc.prems by blast
    have step: "kahn (Suc fuel) adj (ready_set ids E (set L)) (\<lambda>v. card (preds E v - set L)) L =
        kahn fuel adj (ready_set ids E (set (L @ [u]))) (\<lambda>v. card (preds E v - set (L @ [u]))) (L @ [u])"
      using False relax_step [OF new(1) refl, of "ready_set ids E (set L) - {u}"]
        ready_set_insert [OF u closed] by (simp add: u_def [symmetric])
    have "ids - set (L @ [u]) = (ids - set L) - {u}" by auto
    then have "card (ids - set (L @ [u])) \<le> fuel"
      using Suc.prems(1) new finite_ids by simp
    moreover have "greedy_order ids E (L @ [u])"
      using Suc.prems(2) False by (simp add: greedy_order_snoc u_def)
    ultimately show ?thesis unfolding step by (rule Suc.IH)
  qed
qed

lemma topological_order_spec:
  "\<exists>L. greedy_order ids E L \<and>
     topological_order ids adj deg = Some (if acyclic E then Ok L else Err ()) \<and>
     (acyclic E \<longrightarrow> set L = ids)"
proof -
  have deg: "deg = (\<lambda>v. card (preds E v - set []))" by (simp add: fun_eq_iff deg_E)
  have "greedy_order ids E []" by (simp add: greedy_order_def)
  then obtain L where L: "greedy_order ids E L" "ready_set ids E (set L) = {}"
    and run: "kahn (card ids) adj (ready_set ids E (set [])) (\<lambda>v. card (preds E v - set [])) [] = Some L"
    using kahn_run [of "[]" "card ids"] by auto
  have facts: "distinct L" "set L \<subseteq> ids" using greedy_order_facts [OF L(1)] by auto
  then have len: "length L = card ids \<longleftrightarrow> set L = ids"
    by (metis card_subset_eq distinct_card finite_ids)
  have "acyclic E \<longleftrightarrow> set L = ids"
    using stuck_complete [OF _ L(2) facts(2)] greedy_complete_acyclic [OF L(1)] by blast
  moreover have "topological_order ids adj deg = Some (if set L = ids then Ok L else Err ())"
    using run len unfolding topological_order_def ready_initial unfolding deg by simp
  ultimately show ?thesis using L(1) by auto
qed

subsection \<open>The levels of the parallel schedule\<close>

lemma relax_wave_step:
  assumes "distinct us" "set us \<inter> T = {}"
  shows "relax_wave adj us (\<lambda>v. card (preds E v - T), R) =
    Some (\<lambda>v. card (preds E v - (T \<union> set us)),
          R \<union> {v. \<exists>u \<in> set us. u \<in> preds E v \<and> preds E v \<subseteq> T \<union> set us})"
  using assms
proof (induction us arbitrary: T R)
  case Nil
  then show ?case by simp
next
  case (Cons u us)
  let ?R1 = "R \<union> {v. u \<in> preds E v \<and> preds E v \<subseteq> insert u T}"
  have u: "u \<notin> T" using Cons.prems by auto
  have "relax_wave adj (u # us) (\<lambda>v. card (preds E v - T), R) =
      relax_wave adj us (\<lambda>v. card (preds E v - insert u T), ?R1)"
    using relax_step [OF u refl] by simp
  also have "\<dots> = Some (\<lambda>v. card (preds E v - (insert u T \<union> set us)),
      ?R1 \<union> {v. \<exists>w \<in> set us. w \<in> preds E v \<and> preds E v \<subseteq> insert u T \<union> set us})"
    by (rule Cons.IH) (use Cons.prems in auto)
  also have "?R1 \<union> {v. \<exists>w \<in> set us. w \<in> preds E v \<and> preds E v \<subseteq> insert u T \<union> set us} =
      R \<union> {v. \<exists>w \<in> set (u # us). w \<in> preds E v \<and> preds E v \<subseteq> T \<union> set (u # us)}"
    by auto
  finally show ?case by simp
qed

lemma wave_loop_run:
  assumes "card (ids - set (concat W)) \<le> fuel" "greedy_waves ids E W"
  shows "\<exists>W'. wave_loop fuel adj fan (ready_set ids E (set (concat W)))
              (\<lambda>v. card (preds E v - set (concat W))) W errs = Some (W @ W', errs @ fan_errors fan W')
    \<and> greedy_waves ids E (W @ W') \<and> ready_set ids E (set (concat (W @ W'))) = {}"
  using assms
proof (induction fuel arbitrary: W errs)
  case 0
  then have "ready_set ids E (set (concat W)) = {}" using finite_ids by (auto simp: ready_set_def)
  with 0 show ?case by (intro exI [of _ "[]"]) (simp add: fan_errors_def)
next
  case (Suc fuel)
  define S where "S = set (concat W)"
  show ?case
  proof (cases "ready_set ids E S = {}")
    case True
    with Suc.prems show ?thesis by (intro exI [of _ "[]"]) (simp add: S_def fan_errors_def)
  next
    case False
    define w where "w = sorted_list_of_set (ready_set ids E S)"
    have w: "distinct w" "set w = ready_set ids E S" "w \<noteq> []"
      using False finite_ready by (auto simp: w_def)
    have closed: "\<forall>v \<in> S. preds E v \<subseteq> S" using greedy_waves_facts Suc.prems S_def by blast
    have disj: "set w \<inter> S = {}" using w(2) by (auto simp: ready_set_def)
    have S': "set (concat (W @ [w])) = S \<union> set w" by (simp add: S_def)
    have step: "wave_loop (Suc fuel) adj fan (ready_set ids E S) (\<lambda>v. card (preds E v - S)) W errs =
        wave_loop fuel adj fan (ready_set ids E (S \<union> set w)) (\<lambda>v. card (preds E v - (S \<union> set w)))
          (W @ [w]) (errs @ fan_errors fan [w])"
      using False relax_wave_step [OF w(1) disj, of "{}"] ready_set_level [OF closed] w(2)
      by (simp add: w_def [symmetric] fan_errors_def)
    have "card (ids - (S \<union> set w)) < card (ids - S)"
      using False finite_ids w(2) by (intro psubset_card_mono) (auto simp: ready_set_def)
    then have fuel: "card (ids - set (concat (W @ [w]))) \<le> fuel"
      using Suc.prems(1) S' S_def by simp
    have g: "greedy_waves ids E (W @ [w])"
      using Suc.prems(2) w(3) by (simp add: greedy_waves_snoc w_def S_def)
    obtain W' where "wave_loop fuel adj fan (ready_set ids E (S \<union> set w))
          (\<lambda>v. card (preds E v - (S \<union> set w))) (W @ [w]) (errs @ fan_errors fan [w])
        = Some ((W @ [w]) @ W', (errs @ fan_errors fan [w]) @ fan_errors fan W')"
      and "greedy_waves ids E ((W @ [w]) @ W')" "ready_set ids E (set (concat ((W @ [w]) @ W'))) = {}"
      using Suc.IH [OF fuel g, of "errs @ fan_errors fan [w]"] unfolding S' by auto
    then show ?thesis using step unfolding S_def
      by (intro exI [of _ "w # W'"]) (simp add: fan_errors_def)
  qed
qed

end

lemma node_ids_declared: "node_ids p = declared_ids p"
proof -
  have "snd (check_nodes i ns seen) = seen \<union> node_id ` set ns" for i ns seen
    by (induction i ns seen rule: check_nodes.induct) (auto simp: Let_def)
  then show ?thesis by (simp add: node_ids_def declared_ids_def)
qed

text \<open>Every step of the scan keeps the tables consistent, whatever the edge is.\<close>

definition scan_inv :: "string set \<Rightarrow> EdgeScan \<Rightarrow> bool" where
  "scan_inv ids st \<longleftrightarrow>
     declared_edges st \<subseteq> ids \<times> ids
   \<and> (\<forall>u. adjacency st u = {v. (u, v) \<in> declared_edges st})
   \<and> (\<forall>v. in_degree st v = card (preds (declared_edges st) v))"

lemma scan_edge_inv:
  assumes "finite ids" "scan_inv ids st"
  shows "scan_inv ids (scan_edge ids i e st)"
proof -
  let ?u = "from_node_id e" and ?v = "to_node_id e" and ?D = "declared_edges st"
  have fin: "finite (preds ?D v)" for v
    by (rule finite_subset [OF _ assms(1)]) (use assms(2) in \<open>auto simp: preds_def scan_inv_def\<close>)
  have pre: "preds (insert (?u, ?v) ?D) w = (if w = ?v then insert ?u (preds ?D w) else preds ?D w)" for w
    by (auto simp: preds_def)
  have new: "?u \<notin> preds ?D ?v" if "(?u, ?v) \<notin> ?D" using that by (simp add: preds_def)
  have "card (preds (insert (?u, ?v) ?D) w) = (if w = ?v then in_degree st ?v + 1 else in_degree st w)"
    if "(?u, ?v) \<notin> ?D" for w
    using assms(2) fin new [OF that] by (simp add: pre scan_inv_def)
  then show ?thesis using assms(2)
    by (auto simp: scan_edge_def Let_def push_edge_error_def scan_inv_def)
qed

lemma scan_edges_inv:
  assumes "finite ids" "scan_inv ids st"
  shows "scan_inv ids (scan_edges ids i es st)"
  using assms(2) by (induction es arbitrary: i st) (simp_all add: scan_edge_inv [OF assms(1)])

lemma edge_tables_inv: "scan_inv (node_ids p) (edge_tables p)"
proof -
  have "scan_inv (node_ids p) empty_scan" by (simp add: scan_inv_def empty_scan_def preds_def)
  then show ?thesis
    unfolding edge_tables_def by (rule scan_edges_inv [rotated]) (simp add: node_ids_declared declared_ids_def)
qed

text \<open>The tables \<^verbatim>\<open>canonicalize_proposal\<close> hands to \<^verbatim>\<open>topological_order\<close> meet the contract.\<close>

interpretation scanned: dependency_tables "node_ids p" "declared_edges (edge_tables p)"
    "adjacency (edge_tables p)" "in_degree (edge_tables p)" for p
  using edge_tables_inv [of p]
  by unfold_locales (auto simp: scan_inv_def node_ids_declared declared_ids_def)

section \<open>What the checks accept\<close>

lemma validate_non_empty_Nil [simp]: "validate_non_empty v path = [] \<longleftrightarrow> \<not> blank v"
  by (simp add: validate_non_empty_def)

lemma check_nodes_Nil_iff:
  "fst (check_nodes i ns seen) = [] \<longleftrightarrow>
     (\<forall>n \<in> set ns. \<not> blank (node_id n) \<and> \<not> blank (capability_id n)
        \<and> \<not> blank (capability_version n) \<and> \<not> blank (artifact_digest n))
   \<and> distinct (map node_id ns) \<and> node_id ` set ns \<inter> seen = {}"
  by (induction i ns seen rule: check_nodes.induct) (auto simp: Let_def)

lemma scan_edge_errors:
  "edge_errors (scan_edge ids i e st) = [] \<longleftrightarrow>
     edge_errors st = [] \<and> from_node_id e \<noteq> to_node_id e \<and> from_node_id e \<in> ids \<and> to_node_id e \<in> ids
   \<and> (from_node_id e, to_node_id e) \<notin> declared_edges st"
  by (auto simp: scan_edge_def Let_def push_edge_error_def)

lemma scan_edge_declared:
  assumes "edge_errors (scan_edge ids i e st) = []"
  shows "declared_edges (scan_edge ids i e st) = insert (from_node_id e, to_node_id e) (declared_edges st)"
  using assms by (auto simp: scan_edge_errors) (auto simp: scan_edge_def Let_def)

lemma scan_edges_errors:
  "edge_errors (scan_edges ids i es st) = [] \<longleftrightarrow>
     edge_errors st = [] \<and> (\<forall>e \<in> set es. from_node_id e \<noteq> to_node_id e \<and> from_node_id e \<in> ids \<and> to_node_id e \<in> ids)
   \<and> distinct (map (\<lambda>e. (from_node_id e, to_node_id e)) es)
   \<and> (\<lambda>e. (from_node_id e, to_node_id e)) ` set es \<inter> declared_edges st = {}"
proof (induction es arbitrary: i st)
  case Nil
  then show ?case by simp
next
  case (Cons e es)
  show ?case
  proof (cases "edge_errors (scan_edge ids i e st) = []")
    case True
    then show ?thesis
      using Cons.IH [of "Suc i" "scan_edge ids i e st"] scan_edge_declared [OF True] True
      unfolding scan_edge_errors by auto
  next
    case False
    then show ?thesis
      using Cons.IH [of "Suc i" "scan_edge ids i e st"] unfolding scan_edge_errors by auto
  qed
qed

lemma scan_edges_declared:
  assumes "edge_errors (scan_edges ids i es st) = []"
  shows "declared_edges (scan_edges ids i es st) =
    declared_edges st \<union> (\<lambda>e. (from_node_id e, to_node_id e)) ` set es"
  using assms
proof (induction es arbitrary: i st)
  case Nil
  then show ?case by simp
next
  case (Cons e es)
  then have "edge_errors (scan_edges ids (Suc i) es (scan_edge ids i e st)) = []" by simp
  then have "edge_errors (scan_edge ids i e st) = []" unfolding scan_edges_errors by simp
  then show ?case using Cons scan_edge_declared by auto
qed

lemma edge_tables_errors:
  "edge_errors (edge_tables p) = [] \<longleftrightarrow>
     (\<forall>(u, v) \<in> set (edge_pairs p). u \<noteq> v \<and> u \<in> declared_ids p \<and> v \<in> declared_ids p)
   \<and> distinct (edge_pairs p)"
  unfolding edge_tables_def scan_edges_errors
  by (simp add: empty_scan_def edge_pairs_def node_ids_declared)

lemma edge_tables_declared:
  assumes "edge_errors (edge_tables p) = []"
  shows "declared_edges (edge_tables p) = set (edge_pairs p)"
  using scan_edges_declared [OF assms [unfolded edge_tables_def]]
  by (simp add: edge_tables_def empty_scan_def edge_pairs_def)

lemma check_mappings_Nil_iff:
  "fst (check_mappings ids declared i ms) = [] \<longleftrightarrow>
     (\<forall>m \<in> set ms. \<not> blank (source_path m) \<and> \<not> blank (target_path m) \<and> target_node_id m \<in> ids
        \<and> (case mapping_source m of InitialInput \<Rightarrow> True
           | NodeSource s \<Rightarrow> s \<in> ids \<and> (s, target_node_id m) \<in> declared))"
  by (induction ids declared i ms rule: check_mappings.induct)
    (auto simp: Let_def split: MappingSource.splits)

lemma check_mappings_writers:
  assumes "fst (check_mappings ids declared i ms) = []"
  shows "snd (check_mappings ids declared i ms) = map (\<lambda>m. (target_node_id m, target_path m)) ms"
  using assms
  by (induction ids declared i ms rule: check_mappings.induct)
    (auto simp: Let_def split: MappingSource.splits if_splits)

lemma count_list_distinct: "(\<forall>x \<in> set xs. count_list xs x \<le> 1) \<longleftrightarrow> distinct xs"
proof (induction xs)
  case Nil
  then show ?case by simp
next
  case (Cons x xs)
  have "(\<forall>y \<in> set (x # xs). count_list (x # xs) y \<le> 1) \<longleftrightarrow>
      x \<notin> set xs \<and> (\<forall>y \<in> set xs. count_list xs y \<le> 1)"
    by (auto simp: count_list_0_iff count_notin)
  with Cons show ?case by simp
qed

lemma multi_writer_errors_Nil: "multi_writer_errors ws = [] \<longleftrightarrow> distinct ws"
  unfolding multi_writer_errors_def count_list_distinct [symmetric]
  by (auto simp: filter_empty_conv not_less)

lemma structural_errors_Nil_iff:
  "structural_errors to_vec_len p l = [] \<and> acyclic (set (edge_pairs p)) \<longleftrightarrow>
     well_formed_proposal to_vec_len p l"
proof (cases "edge_errors (edge_tables p) = []")
  case True
  have decl: "declared_edges (edge_tables p) = set (edge_pairs p)" by (rule edge_tables_declared [OF True])
  have sub: "u \<in> declared_ids p" if "(u, v) \<in> set (edge_pairs p)" for u v
    using True that unfolding edge_tables_errors by auto
  let ?cm = "check_mappings (declared_ids p) (set (edge_pairs p)) 0 (mappings p)"
  have maps: "fst ?cm = [] \<longleftrightarrow>
      (\<forall>m \<in> set (mappings p). \<not> blank (source_path m) \<and> \<not> blank (target_path m)
        \<and> target_node_id m \<in> declared_ids p
        \<and> (case mapping_source m of InitialInput \<Rightarrow> True
           | NodeSource s \<Rightarrow> (s, target_node_id m) \<in> set (edge_pairs p)))"
    unfolding check_mappings_Nil_iff by (auto split: MappingSource.splits intro: sub)
  have errs: "structural_errors to_vec_len p l =
      check_header to_vec_len p l @ fst (check_nodes 0 (nodes p) {}) @ fst ?cm @ multi_writer_errors (snd ?cm)"
    using True by (simp add: structural_errors_def Let_def decl node_ids_declared case_prod_unfold)
  have writers: "fst ?cm = [] \<Longrightarrow>
      multi_writer_errors (snd ?cm) = [] \<longleftrightarrow> distinct (map (\<lambda>m. (target_node_id m, target_path m)) (mappings p))"
    by (simp add: multi_writer_errors_Nil check_mappings_writers)
  have nodes: "fst (check_nodes 0 (nodes p) {}) = [] \<longleftrightarrow>
      (\<forall>n \<in> set (nodes p). \<not> blank (node_id n) \<and> \<not> blank (capability_id n)
        \<and> \<not> blank (capability_version n) \<and> \<not> blank (artifact_digest n))
      \<and> distinct (map node_id (nodes p))"
    by (simp add: check_nodes_Nil_iff)
  show ?thesis
    using True [unfolded edge_tables_errors] writers
    unfolding errs append_is_Nil_conv nodes well_formed_proposal_def maps [symmetric]
    by (auto simp: check_header_def)
next
  case False
  then have "structural_errors to_vec_len p l \<noteq> []"
    by (simp add: structural_errors_def Let_def case_prod_unfold)
  moreover have "\<not> well_formed_proposal to_vec_len p l"
    using False unfolding edge_tables_errors well_formed_proposal_def by blast
  ultimately show ?thesis by simp
qed

section \<open>Canonicalization\<close>

text \<open>With no structural error, the result is decided by the cycle alone.\<close>

lemma canonicalize_no_errors:
  assumes "structural_errors to_vec_len p l = []"
  shows "\<exists>L. greedy_order (declared_ids p) (set (edge_pairs p)) L \<and>
    canonicalize_proposal to_vec_len p l =
      Some (if acyclic (set (edge_pairs p)) then Ok \<lparr>proposal = p, execution_order = L\<rparr>
            else Err [pve CyclicGraph ''$.edges'']) \<and>
    (acyclic (set (edge_pairs p)) \<longrightarrow> set L = declared_ids p)"
proof -
  have "edge_errors (edge_tables p) = []"
    using assms by (simp add: structural_errors_def Let_def case_prod_unfold)
  note E = edge_tables_declared [OF this]
  show ?thesis
    using scanned.topological_order_spec [of p] assms unfolding E node_ids_declared
    by (auto simp: canonicalize_proposal_def Let_def node_ids_declared)
qed

lemma canonicalize_Ok_iff:
  "canonicalize_proposal to_vec_len p l = Some (Ok c) \<Longrightarrow>
     structural_errors to_vec_len p l = [] \<and> acyclic (set (edge_pairs p)) \<and> proposal c = p
   \<and> greedy_order (declared_ids p) (set (edge_pairs p)) (execution_order c)
   \<and> set (execution_order c) = declared_ids p"
  by (cases "structural_errors to_vec_len p l = []")
    (use canonicalize_no_errors [of to_vec_len p l] in
      \<open>auto simp: canonicalize_proposal_def Let_def split: if_splits\<close>)

text \<open>
  C7: \<^verbatim>\<open>canonicalize_proposal\<close> always returns, without an arithmetic panic, and it accepts
  exactly the well-formed proposals: literals, limits, unique non-blank nodes, edges between
  distinct declared nodes without repetition, mappings backed by a declared edge with one writer
  per target, and an acyclic graph.
\<close>

theorem canonicalize_accepts_exactly_well_formed:
  "\<exists>r. canonicalize_proposal to_vec_len p l = Some r \<and> (is_ok r \<longleftrightarrow> well_formed_proposal to_vec_len p l)"
proof (cases "structural_errors to_vec_len p l = []")
  case True
  then show ?thesis
    using canonicalize_no_errors [OF True] structural_errors_Nil_iff [of to_vec_len p l]
    by (auto simp: is_ok_iff)
next
  case False
  then show ?thesis
    using structural_errors_Nil_iff [of to_vec_len p l]
    by (auto simp: canonicalize_proposal_def Let_def is_ok_iff)
qed

text \<open>
  C30: Every rejection is either the full, non-empty list of structural errors in the order of
  the checks or, when there is none, the single error \<open>CyclicGraph\<close> for a graph with a cycle.
\<close>

theorem canonicalize_rejections:
  "canonicalize_proposal to_vec_len p l = Some (Err es) \<longleftrightarrow>
     (if structural_errors to_vec_len p l = []
      then \<not> acyclic (set (edge_pairs p)) \<and> es = [pve CyclicGraph ''$.edges'']
      else es = structural_errors to_vec_len p l)"
proof (cases "structural_errors to_vec_len p l = []")
  case True
  then show ?thesis using canonicalize_no_errors [OF True] by (auto split: if_splits)
next
  case False
  then show ?thesis by (auto simp: canonicalize_proposal_def Let_def)
qed

text \<open>
  C8: The execution order of an accepted proposal lists every node exactly once, puts the source
  of every edge before its target, and at each position holds the lexicographically least node
  all of whose predecessors have already run (so the order is the only one the rule allows).
\<close>

theorem execution_order_topological:
  assumes "canonicalize_proposal to_vec_len p l = Some (Ok c)"
  shows "proposal c = p \<and> distinct (execution_order c) \<and> set (execution_order c) = declared_ids p
    \<and> (\<forall>(u, v) \<in> set (edge_pairs p). \<exists>j < length (execution_order c). \<exists>i < j.
           execution_order c ! i = u \<and> execution_order c ! j = v)
    \<and> (\<forall>i < length (execution_order c). execution_order c ! i =
           Min (ready_set (declared_ids p) (set (edge_pairs p)) (set (take i (execution_order c)))))"
proof -
  note ok = canonicalize_Ok_iff [OF assms]
  have err: "edge_errors (edge_tables p) = []"
    using ok by (simp add: structural_errors_def Let_def case_prod_unfold)
  have g: "greedy_order (node_ids p) (declared_edges (edge_tables p)) (execution_order c)"
    using ok by (simp add: node_ids_declared edge_tables_declared [OF err])
  have "\<exists>j < length (execution_order c). \<exists>i < j. execution_order c ! i = u \<and> execution_order c ! j = v"
    if e: "(u, v) \<in> set (edge_pairs p)" for u v
  proof -
    have "v \<in> set (execution_order c)" using e err ok unfolding edge_tables_errors by auto
    then obtain j where j: "j < length (execution_order c)" "execution_order c ! j = v"
      by (auto simp: in_set_conv_nth)
    then have "\<exists>i < j. execution_order c ! i = u"
      using scanned.greedy_order_before [OF g _ j] e edge_tables_declared [OF err] by simp
    with j show ?thesis by blast
  qed
  moreover have "distinct (execution_order c)" using scanned.greedy_order_facts [OF g] by blast
  ultimately show ?thesis using ok by (auto simp: greedy_order_def)
qed

section \<open>The parallel schedule\<close>

text \<open>
  On the edges of an accepted proposal, the tables the schedule rebuilds are those of the scan.
\<close>

lemma schedule_tables_scan:
  assumes "edge_errors (scan_edges ids i es st) = []"
  shows "schedule_tables es (adjacency st, in_degree st) =
    (adjacency (scan_edges ids i es st), in_degree (scan_edges ids i es st))"
  using assms
proof (induction es arbitrary: i st)
  case Nil
  then show ?case by simp
next
  case (Cons e es)
  then have "edge_errors (scan_edge ids i e st) = []"
    using scan_edges_errors [of ids "Suc i" es "scan_edge ids i e st"] by simp
  then have "adjacency (scan_edge ids i e st) =
        (adjacency st)(from_node_id e := insert (to_node_id e) (adjacency st (from_node_id e)))"
    and "in_degree (scan_edge ids i e st) = (in_degree st)(to_node_id e := in_degree st (to_node_id e) + 1)"
    unfolding scan_edge_errors by (simp_all add: scan_edge_def Let_def)
  then have "schedule_tables (e # es) (adjacency st, in_degree st) =
      schedule_tables es (adjacency (scan_edge ids i e st), in_degree (scan_edge ids i e st))"
    unfolding schedule_tables.simps by (rule arg_cong2 [of _ _ _ _ "\<lambda>a d. schedule_tables es (a, d)", OF sym sym])
  also have "\<dots> = (adjacency (scan_edges ids i (e # es) st), in_degree (scan_edges ids i (e # es) st))"
    using Cons.IH [of "Suc i" "scan_edge ids i e st"] Cons.prems by simp
  finally show ?case .
qed

lemma fan_errors_Nil: "fan_errors fan W = [] \<longleftrightarrow> (\<forall>w \<in> set W. length w \<le> fan)"
  by (induction W) (simp_all add: fan_errors_def not_less)

definition within_bounds :: "WorkflowProposal \<Rightarrow> ParallelScheduleLimits \<Rightarrow> string list list \<Rightarrow> bool" where
  "within_bounds p l W \<longleftrightarrow>
     card (declared_ids p) \<le> max_queue_depth l
   \<and> (\<forall>v \<in> declared_ids p. card (preds (set (edge_pairs p)) v) \<le> max_join_width l)
   \<and> (\<forall>w \<in> set W. length w \<le> max_fan_out l)"

lemma schedule_run:
  assumes "canonicalize_proposal to_vec_len p l = Some (Ok c)"
  shows "\<exists>W es. greedy_waves (declared_ids p) (set (edge_pairs p)) W \<and>
    ready_set (declared_ids p) (set (edge_pairs p)) (set (concat W)) = {} \<and>
    compute_parallel_schedule c sl = Some (if within_bounds p sl W then Ok \<lparr>waves = W\<rparr> else Err es) \<and>
    (es = [] \<longleftrightarrow> within_bounds p sl W)"
proof -
  note ok = canonicalize_Ok_iff [OF assms]
  have err: "edge_errors (edge_tables p) = []"
    using ok by (simp add: structural_errors_def Let_def case_prod_unfold)
  note E = edge_tables_declared [OF err]
  have pc: "proposal c = p" using ok by simp
  let ?ids = "declared_ids p" and ?E = "set (edge_pairs p)"
  let ?adj = "adjacency (edge_tables p)" and ?deg = "in_degree (edge_tables p)"
  have tables: "schedule_tables (edges p) (\<lambda>_. {}, \<lambda>_. 0) = (?adj, ?deg)"
    using schedule_tables_scan [OF err [unfolded edge_tables_def]]
    by (simp add: edge_tables_def empty_scan_def)
  have keys: "?ids \<union> to_node_id ` set (edges p) = ?ids"
    using err unfolding edge_tables_errors by (auto simp: edge_pairs_def)
  have deg: "?deg v = card (preds ?E v)" for v using scanned.deg_E [of p v] by (simp add: E)
  have fin: "finite ?ids" by (simp add: declared_ids_def)
  define errs where "errs =
      (if card ?ids > max_queue_depth sl then [pse QueueDepthExceeded ''$.nodes''] else [])
      @ map (\<lambda>v. pse JoinWidthExceeded (''$.nodes[?node_id='' @ v @ '']''))
          (filter (\<lambda>v. ?deg v > max_join_width sl) (sorted_list_of_set ?ids))"
  have ready: "{v \<in> ?ids. ?deg v = 0} = ready_set (node_ids p) (declared_edges (edge_tables p)) (set (concat []))"
    using scanned.ready_initial [of p] by (simp add: node_ids_declared)
  have deg0: "?deg = (\<lambda>v. card (preds (declared_edges (edge_tables p)) v - set (concat [])))"
    by (simp add: fun_eq_iff scanned.deg_E)
  have nil: "greedy_waves (node_ids p) (declared_edges (edge_tables p)) []" by (simp add: greedy_waves_def)
  have fuel: "card (node_ids p - set (concat [])) \<le> card ?ids" by (simp add: node_ids_declared)
  obtain W where run: "wave_loop (card ?ids) ?adj (max_fan_out sl) {v \<in> ?ids. ?deg v = 0} ?deg [] errs =
        Some (W, errs @ fan_errors (max_fan_out sl) W)"
    and W: "greedy_waves ?ids ?E W" "ready_set ?ids ?E (set (concat W)) = {}"
    using scanned.wave_loop_run [OF fuel nil, of "max_fan_out sl" errs]
    unfolding ready [symmetric] deg0 [symmetric] append_Nil unfolding E node_ids_declared by blast
  have bounds: "errs @ fan_errors (max_fan_out sl) W = [] \<longleftrightarrow> within_bounds p sl W"
    using fin by (auto simp: errs_def within_bounds_def fan_errors_Nil filter_empty_conv deg not_less)
  have "compute_parallel_schedule c sl =
      (case wave_loop (card ?ids) ?adj (max_fan_out sl) {v \<in> ?ids. ?deg v = 0} ?deg [] errs of
         None \<Rightarrow> None
       | Some (ws, es) \<Rightarrow> Some (if es = [] then Ok \<lparr>waves = ws\<rparr> else Err es))"
    unfolding compute_parallel_schedule_def errs_def Let_def pc
      declared_ids_def [symmetric] keys tables prod.case ..
  then have "compute_parallel_schedule c sl =
      Some (if within_bounds p sl W then Ok \<lparr>waves = W\<rparr> else Err (errs @ fan_errors (max_fan_out sl) W))"
    unfolding run option.case prod.case bounds .
  with W bounds show ?thesis by blast
qed

lemma schedule_run_complete:
  assumes "canonicalize_proposal to_vec_len p l = Some (Ok c)"
    and "greedy_waves (declared_ids p) (set (edge_pairs p)) W"
    and "ready_set (declared_ids p) (set (edge_pairs p)) (set (concat W)) = {}"
  shows "distinct (concat W) \<and> set (concat W) = declared_ids p"
proof -
  note ok = canonicalize_Ok_iff [OF assms(1)]
  have "edge_errors (edge_tables p) = []"
    using ok by (simp add: structural_errors_def Let_def case_prod_unfold)
  note E = edge_tables_declared [OF this]
  show ?thesis
    using scanned.greedy_waves_facts [of p W] scanned.stuck_complete [of p "set (concat W)"] ok assms(2,3)
    unfolding E node_ids_declared by blast
qed

text \<open>
  C21: The schedule of an accepted proposal never panics and always ends. There is one sequence of
  non-empty levels, each the sorted nodes whose predecessors all lie in earlier levels, that covers
  every node once; it is returned exactly when queue depth, join width and fan-out keep to the
  limits, and otherwise the bounds exceeded are reported.
\<close>

theorem parallel_schedule_decided:
  assumes "canonicalize_proposal to_vec_len p l = Some (Ok c)"
  shows "\<exists>W. distinct (concat W) \<and> set (concat W) = declared_ids p
    \<and> (\<forall>k < length W. W ! k \<noteq> [] \<and>
         W ! k = sorted_list_of_set (ready_set (declared_ids p) (set (edge_pairs p)) (set (concat (take k W)))))
    \<and> (if within_bounds p sl W then compute_parallel_schedule c sl = Some (Ok \<lparr>waves = W\<rparr>)
       else \<exists>es. es \<noteq> [] \<and> compute_parallel_schedule c sl = Some (Err es))"
proof -
  obtain W es where W: "greedy_waves (declared_ids p) (set (edge_pairs p)) W"
      "ready_set (declared_ids p) (set (edge_pairs p)) (set (concat W)) = {}"
    and run: "compute_parallel_schedule c sl = Some (if within_bounds p sl W then Ok \<lparr>waves = W\<rparr> else Err es)"
      "es = [] \<longleftrightarrow> within_bounds p sl W"
    using schedule_run [OF assms, of sl] by blast
  have "if within_bounds p sl W then compute_parallel_schedule c sl = Some (Ok \<lparr>waves = W\<rparr>)
      else \<exists>es. es \<noteq> [] \<and> compute_parallel_schedule c sl = Some (Err es)"
    using run by simp
  with schedule_run_complete [OF assms W] W(1) [unfolded greedy_waves_def] show ?thesis
    by (intro exI [of _ W] conjI) (erule conjE, assumption)+
qed

text \<open>
  C22: A schedule that is returned is a rearrangement of the sequential execution order in which
  every edge leads from an earlier wave to a strictly later one, within all three bounds.
\<close>

theorem parallel_schedule_sound:
  assumes "canonicalize_proposal to_vec_len p l = Some (Ok c)"
    and "compute_parallel_schedule c sl = Some (Ok s)"
  shows "mset (concat (waves s)) = mset (execution_order c)
    \<and> (\<forall>(u, v) \<in> set (edge_pairs p). \<exists>j < length (waves s). \<exists>i < j.
         u \<in> set (waves s ! i) \<and> v \<in> set (waves s ! j))
    \<and> within_bounds p sl (waves s)"
proof -
  note ok = canonicalize_Ok_iff [OF assms(1)]
  have err: "edge_errors (edge_tables p) = []"
    using ok by (simp add: structural_errors_def Let_def case_prod_unfold)
  note E = edge_tables_declared [OF err]
  have g: "greedy_order (node_ids p) (declared_edges (edge_tables p)) (execution_order c)"
    using ok by (simp add: node_ids_declared E)
  obtain W where W: "greedy_waves (declared_ids p) (set (edge_pairs p)) W"
      "ready_set (declared_ids p) (set (edge_pairs p)) (set (concat W)) = {}"
    and s: "s = \<lparr>waves = W\<rparr>" "within_bounds p sl W"
    using schedule_run [OF assms(1), of sl] assms(2) by (auto split: if_splits)
  have cover: "distinct (concat W)" "set (concat W) = declared_ids p"
    using schedule_run_complete [OF assms(1) W] by blast+
  have order: "distinct (execution_order c)" "set (execution_order c) = declared_ids p"
    using scanned.greedy_order_facts [OF g] ok by blast+
  have "mset (concat W) = mset (execution_order c)"
    using set_eq_iff_mset_eq_distinct [OF cover(1) order(1)] cover(2) order(2) by simp
  moreover have "\<exists>j < length W. \<exists>i < j. u \<in> set (W ! i) \<and> v \<in> set (W ! j)"
    if e: "(u, v) \<in> set (edge_pairs p)" for u v
  proof -
    have "v \<in> set (concat W)" using e err cover(2) unfolding edge_tables_errors by auto
    then obtain w where "w \<in> set W" "v \<in> set w" unfolding set_concat by blast
    then obtain j where j: "j < length W" "v \<in> set (W ! j)" by (metis in_set_conv_nth)
    have wave: "greedy_waves (node_ids p) (declared_edges (edge_tables p)) W"
      using W(1) by (simp only: E node_ids_declared)
    have "(u, v) \<in> declared_edges (edge_tables p)" using e by (simp only: E)
    from scanned.greedy_waves_before [OF wave this j] j show ?thesis by blast
  qed
  ultimately show ?thesis using s by (simp add: case_prod_unfold)
qed

subsection \<open>A concrete proposal\<close>

definition sample_node :: "string \<Rightarrow> ProposalNode" where
  "sample_node n = \<lparr>node_id = n, capability_id = ''cap.'' @ n, capability_version = ''1.0.0'',
     artifact_digest = ''sha256:'' @ n\<rparr>"

text \<open>A diamond without its bottom: two independent sources that join in one sink.\<close>

definition sample_proposal :: WorkflowProposal where
  "sample_proposal = \<lparr>kind = ''workflow_proposal'', schema_version = ''1.0.0'',
     proposal_id = ''p1'', workspace_id = ''ws'',
     app_manifest = \<lparr>app_id = ''app'', app_version = ''1.0.0'', manifest_digest = ''m''\<rparr>,
     nodes = [sample_node ''b'', sample_node ''c'', sample_node ''a''],
     edges = [\<lparr>from_node_id = ''a'', to_node_id = ''c''\<rparr>, \<lparr>from_node_id = ''b'', to_node_id = ''c''\<rparr>],
     mappings = [\<lparr>mapping_source = InitialInput, source_path = ''/x'', target_node_id = ''a'', target_path = ''/x''\<rparr>,
                 \<lparr>mapping_source = NodeSource ''a'', source_path = ''/y'', target_node_id = ''c'', target_path = ''/y''\<rparr>],
     initial_input = JNull\<rparr>"

definition sample_canonical :: CanonicalProposal where
  "sample_canonical = \<lparr>proposal = sample_proposal, execution_order = [''a'', ''b'', ''c'']\<rparr>"

lemmas sample_defs = sample_proposal_def sample_node_def sample_canonical_def
  PROPOSAL_KIND_def PROPOSAL_SCHEMA_VERSION_def default_proposal_limits_def default_schedule_limits_def

lemma sample_structure:
  "structural_errors (\<lambda>_. Some 4) sample_proposal default_proposal_limits = []"
  by (simp add: sample_defs structural_errors_def edge_tables_def node_ids_def check_header_def
      validate_non_empty_def scan_edge_def empty_scan_def multi_writer_errors_def rust_string_simps Let_def)

lemma sample_canonicalizes:
  "canonicalize_proposal (\<lambda>_. Some 4) sample_proposal default_proposal_limits = Some (Ok sample_canonical)"
proof -
  have ids: "node_ids sample_proposal = {''a'', ''b'', ''c''}"
    by (auto simp: sample_defs node_ids_def Let_def)
  have tables: "adjacency (edge_tables sample_proposal) = (\<lambda>_. {})(''a'' := {''c''}, ''b'' := {''c''})"
      "in_degree (edge_tables sample_proposal) = (\<lambda>_. 0)(''c'' := 2)"
    unfolding edge_tables_def ids
    by (simp_all add: sample_proposal_def scan_edge_def empty_scan_def Let_def fun_upd_twist numeral_2_eq_2)
  have "topological_order {''a'', ''b'', ''c''} ((\<lambda>_. {})(''a'' := {''c''}, ''b'' := {''c''})) ((\<lambda>_. 0)(''c'' := 2)) =
      Some (Ok [''a'', ''b'', ''c''])"
    by code_simp
  then show ?thesis
    by (simp add: canonicalize_proposal_def sample_structure ids tables sample_canonical_def)
qed

lemma sample_schedules:
  "compute_parallel_schedule sample_canonical default_schedule_limits =
     Some (Ok \<lparr>waves = [[''a'', ''b''], [''c'']]\<rparr>)"
  by code_simp

theorem execution_order_topological_witness:
  "distinct (execution_order sample_canonical)
   \<and> execution_order sample_canonical ! 1 =
       Min (ready_set (declared_ids sample_proposal) (set (edge_pairs sample_proposal))
              (set (take 1 (execution_order sample_canonical))))"
proof -
  have "1 < length (execution_order sample_canonical)" by (simp add: sample_canonical_def)
  with execution_order_topological [OF sample_canonicalizes] show ?thesis by blast
qed

theorem parallel_schedule_decided_witness:
  "\<exists>W. distinct (concat W) \<and> set (concat W) = declared_ids sample_proposal
     \<and> within_bounds sample_proposal default_schedule_limits W"
  using parallel_schedule_decided [OF sample_canonicalizes, of default_schedule_limits] sample_schedules
  by (auto split: if_splits)

theorem parallel_schedule_sound_witness:
  "within_bounds sample_proposal default_schedule_limits [[''a'', ''b''], [''c'']]"
  using parallel_schedule_sound [OF sample_canonicalizes sample_schedules] by simp

end
