(* ===== verification/Proposal_Authorization.thy ===== *)
theory Proposal_Authorization
  imports Registry Proposal_Graph
begin

text \<open>
  Authorization of workflow proposals, \<^verbatim>\<open>crates/traverse-runtime/src/proposal.rs\<close> up to its
  execution part: the cross-check of a canonical proposal against manifest and registry, approval
  tokens and their use counts, and the concurrency quotas.

  \<^item> The registry and the manifest belong to another package. Their parts that are read here are
    parameters: the declared capability versions of the manifest and \<^verbatim>\<open>find_exact\<close>.
  \<^item> \<^verbatim>\<open>serde_json::from_slice\<close>, Ed25519 verification and the clock are parameters.
  \<^item> A mutex-protected table is a state that every operation updates atomically. The three
    tables of \<^verbatim>\<open>QuotaTracker\<close> have separate locks, so that concurrent reservations interleave
    between their three steps; the step relation \<open>quota_step\<close> has one step per lock.
\<close>

section \<open>Definitions\<close>

subsection \<open>Cross-validation against host state\<close>

type_synonym manifest = "(string \<times> string) list"

datatype ProposalCrossValidationErrorCode =
  UndeclaredCapability | CapabilityNotFound | ArtifactDigestMismatch | IncompatibleMappingSchema
| UndeclaredDataClassification | DataClassificationOverAccepted | EgressDeniedForClassifiedMapping

record ProposalCrossValidationError =
  cve_code :: ProposalCrossValidationErrorCode
  cve_path :: string

definition cross_error :: "ProposalCrossValidationErrorCode \<Rightarrow> string \<Rightarrow> ProposalCrossValidationError" where
  "cross_error code path = \<lparr>cve_code = code, cve_path = path\<rparr>"

record ResolvedProposalNode =
  resolved_node_id :: string
  contract :: CapabilityContract

definition manifest_declares_capability :: "manifest \<Rightarrow> ProposalNode \<Rightarrow> bool" where
  "manifest_declares_capability mf n \<longleftrightarrow>
     list_ex (\<lambda>(cap, ver). cap = capability_id n \<and> ver = capability_version n) mf"

definition registry_digest :: "ResolvedCapability \<Rightarrow> string" where
  "registry_digest r = (case binary_digest (rc_artifact r) of Some d \<Rightarrow> d | None \<Rightarrow> source_digest (rc_artifact r))"

text \<open>The node loop: the errors and the resolved nodes by id.\<close>

fun resolve_nodes ::
  "manifest \<Rightarrow> registry \<Rightarrow> nat \<Rightarrow> ProposalNode list \<Rightarrow> (string \<rightharpoonup> ResolvedProposalNode) \<Rightarrow>
     ProposalCrossValidationError list \<times> (string \<rightharpoonup> ResolvedProposalNode)" where
  "resolve_nodes mf reg i [] res = ([], res)"
| "resolve_nodes mf reg i (n # ns) res =
     (let path = indexed ''nodes'' i;
          skip = (\<lambda>e. let rest = resolve_nodes mf reg (Suc i) ns res in (e # fst rest, snd rest))
      in if \<not> manifest_declares_capability mf n then skip (cross_error UndeclaredCapability path)
         else (case reg PreferPrivate (capability_id n) (capability_version n) of
                 None \<Rightarrow> skip (cross_error CapabilityNotFound path)
               | Some cap \<Rightarrow>
                   if registry_digest cap \<noteq> artifact_digest n
                   then skip (cross_error ArtifactDigestMismatch (path @ ''.artifact_digest''))
                   else resolve_nodes mf reg (Suc i) ns
                          (res(node_id n \<mapsto> \<lparr>resolved_node_id = node_id n,
                                             contract = rc_contract cap\<rparr>))))"

fun classification_at_path :: "FieldDataClassification list \<Rightarrow> string \<Rightarrow> DataClassification option" where
  "classification_at_path [] path = None"
| "classification_at_path (f # fs) path =
     (if field_path f = path then Some (classification f) else classification_at_path fs path)"

text \<open>The segments of a pointer are the non-empty pieces between its slashes.\<close>

definition pointer_segments :: "string \<Rightarrow> string list" where
  "pointer_segments p = filter (\<lambda>s. s \<noteq> []) (split_on CHR ''/'' p)"

fun resolve_schema_segments :: "json \<Rightarrow> string list \<Rightarrow> json option" where
  "resolve_schema_segments current [] = Some current"
| "resolve_schema_segments current (seg # segs) =
     (case (case json_get current ''properties'' of None \<Rightarrow> None | Some ps \<Rightarrow> json_get ps seg) of
        Some v \<Rightarrow> resolve_schema_segments v segs
      | None \<Rightarrow> (case json_get current ''items'' of
                   Some v \<Rightarrow> resolve_schema_segments v segs
                 | None \<Rightarrow> None))"

definition resolve_schema_pointer :: "json \<Rightarrow> string \<Rightarrow> json option" where
  "resolve_schema_pointer schema pointer = resolve_schema_segments schema (pointer_segments pointer)"

definition schema_type :: "json option \<Rightarrow> string option" where
  "schema_type fragment =
     (case fragment of
        None \<Rightarrow> None
      | Some f \<Rightarrow> (case json_get f ''type'' of None \<Rightarrow> None | Some t \<Rightarrow> as_str t))"

definition mapping_schema_compatible :: "json \<Rightarrow> string \<Rightarrow> json \<Rightarrow> string \<Rightarrow> bool" where
  "mapping_schema_compatible src_schema src_path tgt_schema tgt_path =
     (case (schema_type (resolve_schema_pointer src_schema src_path),
            schema_type (resolve_schema_pointer tgt_schema tgt_path)) of
        (Some a, Some b) \<Rightarrow> a = b
      | _ \<Rightarrow> True)"

definition source_node ::
  "(string \<rightharpoonup> ResolvedProposalNode) \<Rightarrow> ProposalMapping \<Rightarrow> ResolvedProposalNode option" where
  "source_node res m = (case mapping_source m of InitialInput \<Rightarrow> None | NodeSource s \<Rightarrow> res s)"

definition has_external_effect :: "CapabilityContract \<Rightarrow> bool" where
  "has_external_effect c \<longleftrightarrow> effect_class (cc_risk c) \<in> {ExternalEffect, IrreversibleEffect}"

text \<open>The body of the mapping loop.\<close>

definition check_mapping ::
  "(string \<rightharpoonup> ResolvedProposalNode) \<Rightarrow> nat \<Rightarrow> ProposalMapping \<Rightarrow> ProposalCrossValidationError list" where
  "check_mapping res i m =
     (let path = indexed ''mappings'' i
      in case res (target_node_id m) of
           None \<Rightarrow> []
         | Some target \<Rightarrow>
             (case source_node res m of
                Some src \<Rightarrow>
                  if \<not> mapping_schema_compatible (sc_schema (cc_outputs (contract src))) (source_path m)
                         (sc_schema (cc_inputs (contract target))) (target_path m)
                  then [cross_error IncompatibleMappingSchema path] else []
              | None \<Rightarrow> [])
             @ (case (case source_node res m of
                        None \<Rightarrow> None
                      | Some src \<Rightarrow> classification_at_path
                          (produced_data_classifications (data_flow (cc_risk (contract src)))) (source_path m)) of
                  None \<Rightarrow> []
                | Some produced \<Rightarrow>
                    (case classification_at_path
                            (accepted_data_classifications (data_flow (cc_risk (contract target)))) (target_path m) of
                       None \<Rightarrow> [cross_error UndeclaredDataClassification path]
                     | Some accepted \<Rightarrow>
                         if produced > accepted then [cross_error DataClassificationOverAccepted path]
                         else if produced > Public \<and> has_external_effect (contract target)
                              \<and> egress_policy (data_flow (cc_risk (contract target))) = Denied
                         then [cross_error EgressDeniedForClassifiedMapping path] else [])))"

fun check_mapping_loop ::
  "(string \<rightharpoonup> ResolvedProposalNode) \<Rightarrow> nat \<Rightarrow> ProposalMapping list \<Rightarrow> ProposalCrossValidationError list" where
  "check_mapping_loop res i [] = []"
| "check_mapping_loop res i (m # ms) = check_mapping res i m @ check_mapping_loop res (Suc i) ms"

definition validate_proposal_against_host_state ::
  "CanonicalProposal \<Rightarrow> manifest \<Rightarrow> registry \<Rightarrow>
     (ResolvedProposalNode list, ProposalCrossValidationError list) result" where
  "validate_proposal_against_host_state c mf reg =
     (let (node_errors, res) = resolve_nodes mf reg 0 (nodes (proposal c)) Map.empty
      in if node_errors \<noteq> [] then Err node_errors
         else (let mapping_errs = check_mapping_loop res 0 (mappings (proposal c))
               in if mapping_errs \<noteq> [] then Err mapping_errs
                  else Ok (List.map_filter res (execution_order c))))"

definition proposal_is_automatic_eligible :: "ResolvedProposalNode list \<Rightarrow> bool" where
  "proposal_is_automatic_eligible ns = list_all (\<lambda>n. is_automatic_eligible (cc_risk (contract n))) ns"

subsection \<open>Approval tokens\<close>

record ApprovalTokenClaims =
  claim_token_id :: string
  claim_issuer :: string
  claim_key_id :: string
  claim_audience :: string
  claim_principal :: string
  claim_workspace_id :: string
  claim_proposal_digest :: string
  claim_snapshot_digest :: string
  claim_permitted_effects :: "EffectClass list"
  claim_permitted_connectors :: "string list"
  claim_max_use_count :: nat
  claim_expiry_unix :: int

datatype AuthorizationDecision = Automatic | Approved ApprovalTokenClaims

datatype ApprovalTokenErrorCode =
  Malformed | AlgorithmNotAllowed | UnknownKeyId | SignatureVerificationFailed | IssuerMismatch
| AudienceMismatch | Expired | WorkspaceMismatch | ProposalDigestMismatch | SnapshotDigestMismatch
| UseCountExhausted | Revoked | StoreUnavailable

record 'key ApprovalTokenVerificationContext =
  expected_issuer :: string
  expected_audience :: string
  expected_workspace_id :: string
  expected_proposal_digest :: string
  expected_snapshot_digest :: string
  verifying_keys_by_key_id :: "string \<rightharpoonup> 'key"

definition APPROVAL_TOKEN_ALLOWED_ALG :: string where
  "APPROVAL_TOKEN_ALLOWED_ALG = ''EdDSA''"

fun parse_effect_class :: "string \<Rightarrow> EffectClass option" where
  "parse_effect_class s =
     (if s = ''pure_read'' then Some PureRead
      else if s = ''state_write'' then Some StateWrite
      else if s = ''external_effect'' then Some ExternalEffect
      else if s = ''irreversible_effect'' then Some IrreversibleEffect
      else None)"

text \<open>
  \<^verbatim>\<open>base64url_decode\<close>: the position of a character in the alphabet, and the loop over a 32-bit
  buffer whose shift drops the high bits.
\<close>

definition base64_alphabet :: string where
  "base64_alphabet = ''ABCDEFGHIJKLMNOPQRSTUVWXYZabcdefghijklmnopqrstuvwxyz0123456789-_''"

fun position_of :: "char \<Rightarrow> string \<Rightarrow> nat option" where
  "position_of c [] = None"
| "position_of c (x # xs) = (if x = c then Some 0 else map_option Suc (position_of c xs))"

definition base64_value :: "char \<Rightarrow> nat option" where
  "base64_value c = position_of c base64_alphabet"

fun base64_loop :: "string \<Rightarrow> nat \<Rightarrow> nat \<Rightarrow> nat list \<Rightarrow> nat list option" where
  "base64_loop [] buffer bits out = Some out"
| "base64_loop (c # cs) buffer bits out =
     (case base64_value c of
        None \<Rightarrow> None
      | Some v \<Rightarrow>
          (let buffer' = (buffer * 64) mod 2 ^ 32 + v; bits' = bits + 6
           in if bits' \<ge> 8
              then base64_loop cs buffer' (bits' - 8) (out @ [(buffer' div 2 ^ (bits' - 8)) mod 256])
              else base64_loop cs buffer' bits' out))"

definition base64url_decode :: "string \<Rightarrow> string option" where
  "base64url_decode s = map_option (map char_of) (base64_loop s 0 0 [])"

definition claim_str :: "json \<Rightarrow> string \<Rightarrow> (string, ApprovalTokenErrorCode) result" where
  "claim_str payload field =
     (case json_get payload field of
        None \<Rightarrow> Err Malformed
      | Some v \<Rightarrow> (case as_str v of
                     None \<Rightarrow> Err Malformed
                   | Some s \<Rightarrow> if blank s then Err Malformed else Ok s))"

definition string_items :: "json \<Rightarrow> string \<Rightarrow> string list" where
  "string_items payload field =
     (case json_get payload field of
        None \<Rightarrow> []
      | Some v \<Rightarrow> (case as_array v of None \<Rightarrow> [] | Some xs \<Rightarrow> List.map_filter as_str xs))"

definition parse_approval_token_claims ::
  "json \<Rightarrow> string \<Rightarrow> (ApprovalTokenClaims, ApprovalTokenErrorCode) result" where
  "parse_approval_token_claims payload key =
     and_then (ok_or (case json_get payload ''max_use_count'' of
                        None \<Rightarrow> None
                      | Some v \<Rightarrow> (case as_u64 v of
                                     None \<Rightarrow> None
                                   | Some n \<Rightarrow> if n \<le> u32_max then Some n else None)) Malformed) (\<lambda>max_use.
     and_then (ok_or (case json_get payload ''exp'' of None \<Rightarrow> None | Some v \<Rightarrow> as_i64 v) Malformed) (\<lambda>expiry.
     and_then (claim_str payload ''jti'') (\<lambda>jti.
     and_then (claim_str payload ''iss'') (\<lambda>iss.
     and_then (claim_str payload ''aud'') (\<lambda>aud.
     and_then (claim_str payload ''sub'') (\<lambda>sub.
     and_then (claim_str payload ''workspace_id'') (\<lambda>ws.
     and_then (claim_str payload ''proposal_digest'') (\<lambda>pd.
     and_then (claim_str payload ''snapshot_digest'') (\<lambda>sd.
       Ok \<lparr>claim_token_id = jti, claim_issuer = iss, claim_key_id = key, claim_audience = aud,
           claim_principal = sub, claim_workspace_id = ws, claim_proposal_digest = pd,
           claim_snapshot_digest = sd,
           claim_permitted_effects = List.map_filter parse_effect_class (string_items payload ''permitted_effects''),
           claim_permitted_connectors = string_items payload ''permitted_connectors'',
           claim_max_use_count = max_use, claim_expiry_unix = expiry\<rparr>)))))))))"

text \<open>The order of the binding checks after the signature.\<close>

definition check_bindings ::
  "ApprovalTokenClaims \<Rightarrow> 'key ApprovalTokenVerificationContext \<Rightarrow> int \<Rightarrow>
     (ApprovalTokenClaims, ApprovalTokenErrorCode) result" where
  "check_bindings claims ctx now =
     (if claim_issuer claims \<noteq> expected_issuer ctx then Err IssuerMismatch
      else if claim_audience claims \<noteq> expected_audience ctx then Err AudienceMismatch
      else if claim_workspace_id claims \<noteq> expected_workspace_id ctx then Err WorkspaceMismatch
      else if claim_proposal_digest claims \<noteq> expected_proposal_digest ctx then Err ProposalDigestMismatch
      else if claim_snapshot_digest claims \<noteq> expected_snapshot_digest ctx then Err SnapshotDigestMismatch
      else if claim_expiry_unix claims \<le> now then Err Expired
      else Ok claims)"

definition verify_approval_token ::
  "(string \<Rightarrow> json option) \<Rightarrow> ('key \<Rightarrow> string \<Rightarrow> string \<Rightarrow> bool) \<Rightarrow> int \<Rightarrow> string \<Rightarrow>
     'key ApprovalTokenVerificationContext \<Rightarrow> (ApprovalTokenClaims, ApprovalTokenErrorCode) result" where
  "verify_approval_token from_slice verify now token ctx =
     (case split_on CHR ''.'' token of
        [header_b64, payload_b64, signature_b64] \<Rightarrow>
          and_then (ok_or (base64url_decode header_b64) Malformed) (\<lambda>header_bytes.
          and_then (ok_or (from_slice header_bytes) Malformed) (\<lambda>header.
          if (case json_get header ''alg'' of None \<Rightarrow> [] | Some v \<Rightarrow> (case as_str v of None \<Rightarrow> [] | Some a \<Rightarrow> a))
             \<noteq> APPROVAL_TOKEN_ALLOWED_ALG
          then Err AlgorithmNotAllowed
          else
          and_then (ok_or (case json_get header ''kid'' of None \<Rightarrow> None | Some v \<Rightarrow> as_str v) Malformed) (\<lambda>kid.
          and_then (ok_or (verifying_keys_by_key_id ctx kid) UnknownKeyId) (\<lambda>key.
          and_then (ok_or (base64url_decode signature_b64) SignatureVerificationFailed) (\<lambda>sig.
          if length sig \<noteq> 64 then Err SignatureVerificationFailed
          else if \<not> verify key (header_b64 @ ''.'' @ payload_b64) sig then Err SignatureVerificationFailed
          else
          and_then (ok_or (base64url_decode payload_b64) Malformed) (\<lambda>payload_bytes.
          and_then (ok_or (from_slice payload_bytes) Malformed) (\<lambda>payload.
          and_then (parse_approval_token_claims payload kid) (\<lambda>claims.
          check_bindings claims ctx now))))))))
      | _ \<Rightarrow> Err Malformed)"

text \<open>Use counts and revocation. A poisoned lock makes every use fail.\<close>

record TokenUsageRecord =
  use_count :: nat
  revoked :: bool

record ApprovalTokenStore =
  used :: "string \<rightharpoonup> TokenUsageRecord"
  poisoned :: bool

definition new_token_store :: ApprovalTokenStore where
  "new_token_store = \<lparr>used = Map.empty, poisoned = False\<rparr>"

definition usage_entry :: "ApprovalTokenStore \<Rightarrow> string \<Rightarrow> TokenUsageRecord" where
  "usage_entry st t = (case used st t of Some r \<Rightarrow> r | None \<Rightarrow> \<lparr>use_count = 0, revoked = False\<rparr>)"

definition check_and_record_use ::
  "ApprovalTokenClaims \<Rightarrow> ApprovalTokenStore \<Rightarrow> (unit, ApprovalTokenErrorCode) result \<times> ApprovalTokenStore" where
  "check_and_record_use claims st =
     (if poisoned st then (Err StoreUnavailable, st)
      else (let t = claim_token_id claims; r = usage_entry st t
            in if revoked r then (Err Revoked, st\<lparr>used := (used st)(t \<mapsto> r)\<rparr>)
               else if use_count r \<ge> claim_max_use_count claims
               then (Err UseCountExhausted, st\<lparr>used := (used st)(t \<mapsto> r)\<rparr>)
               else (Ok (), st\<lparr>used := (used st)(t \<mapsto> r\<lparr>use_count := use_count r + 1\<rparr>)\<rparr>)))"

definition revoke :: "string \<Rightarrow> ApprovalTokenStore \<Rightarrow> ApprovalTokenStore" where
  "revoke t st =
     (if poisoned st then st else st\<lparr>used := (used st)(t \<mapsto> (usage_entry st t)\<lparr>revoked := True\<rparr>)\<rparr>)"

subsection \<open>Concurrency quotas\<close>

record QuotaLimits =
  max_concurrent_per_principal :: nat
  max_concurrent_per_app :: nat
  max_concurrent_per_workspace :: nat

definition default_quota_limits :: QuotaLimits where
  "default_quota_limits = \<lparr>max_concurrent_per_principal = 4, max_concurrent_per_app = 16,
     max_concurrent_per_workspace = 32\<rparr>"

datatype quota_scope = PrincipalScope | AppScope | WorkspaceScope

type_synonym slots = "string \<rightharpoonup> nat"

definition slot_count :: "slots \<Rightarrow> string \<Rightarrow> nat" where
  "slot_count counts key = (case counts key of Some n \<Rightarrow> n | None \<Rightarrow> 0)"

definition reserve_dimension :: "slots \<Rightarrow> string \<Rightarrow> nat \<Rightarrow> quota_scope \<Rightarrow> (unit, quota_scope) result \<times> slots" where
  "reserve_dimension counts key limit sc =
     (let n = slot_count counts key
      in if n \<ge> limit then (Err sc, counts(key \<mapsto> n)) else (Ok (), counts(key \<mapsto> n + 1)))"

definition release_dimension :: "slots \<Rightarrow> string \<Rightarrow> slots" where
  "release_dimension counts key =
     (case counts key of None \<Rightarrow> counts | Some n \<Rightarrow> counts(key \<mapsto> n - 1))"

record QuotaTracker =
  principal_slots :: slots
  app_slots :: slots
  workspace_slots :: slots

definition new_quota_tracker :: QuotaTracker where
  "new_quota_tracker = \<lparr>principal_slots = Map.empty, app_slots = Map.empty, workspace_slots = Map.empty\<rparr>"

record QuotaReservation =
  reservation_principal :: string
  reservation_app_id :: string
  reservation_workspace_id :: string

definition reserve ::
  "QuotaTracker \<Rightarrow> string \<Rightarrow> string \<Rightarrow> string \<Rightarrow> QuotaLimits \<Rightarrow>
     (QuotaReservation, quota_scope) result \<times> QuotaTracker" where
  "reserve tr who app ws limits =
     (case reserve_dimension (principal_slots tr) who (max_concurrent_per_principal limits) PrincipalScope of
        (Inl d, ps) \<Rightarrow> (Err d, tr\<lparr>principal_slots := ps\<rparr>)
      | (Inr _, ps) \<Rightarrow>
          (case reserve_dimension (app_slots tr) app (max_concurrent_per_app limits) AppScope of
             (Inl d, as) \<Rightarrow> (Err d, tr\<lparr>principal_slots := release_dimension ps who, app_slots := as\<rparr>)
           | (Inr _, as) \<Rightarrow>
               (case reserve_dimension (workspace_slots tr) ws (max_concurrent_per_workspace limits) WorkspaceScope of
                  (Inl d, wss) \<Rightarrow>
                    (Err d, tr\<lparr>principal_slots := release_dimension ps who,
                               app_slots := release_dimension as app, workspace_slots := wss\<rparr>)
                | (Inr _, wss) \<Rightarrow>
                    (Ok \<lparr>reservation_principal = who, reservation_app_id = app,
                         reservation_workspace_id = ws\<rparr>,
                     tr\<lparr>principal_slots := ps, app_slots := as, workspace_slots := wss\<rparr>))))"

text \<open>\<^verbatim>\<open>release\<close>, which dropping a \<^verbatim>\<open>QuotaReservation\<close> calls.\<close>

definition release :: "QuotaTracker \<Rightarrow> QuotaReservation \<Rightarrow> QuotaTracker" where
  "release tr r =
     tr\<lparr>principal_slots := release_dimension (principal_slots tr) (reservation_principal r),
        app_slots := release_dimension (app_slots tr) (reservation_app_id r),
        workspace_slots := release_dimension (workspace_slots tr) (reservation_workspace_id r)\<rparr>"

text \<open>
  Concurrent users of one tracker. A thread runs the three reservations of \<^verbatim>\<open>reserve\<close>, the
  releases of its two failure paths, or the releases of a dropped reservation, one lock at a
  time; its position says which slots it holds.
\<close>

datatype quota_pc =
  Idle
| HasPrincipal QuotaReservation
| HasApp QuotaReservation
| Holding QuotaReservation
| UndoPrincipal QuotaReservation
| UndoBoth QuotaReservation
| UndoApp QuotaReservation
| DroppedPrincipal QuotaReservation
| DroppedApp QuotaReservation

record quota_state =
  tracker :: QuotaTracker
  threads :: "nat \<Rightarrow> quota_pc"

definition quota_init :: quota_state where
  "quota_init = \<lparr>tracker = new_quota_tracker, threads = (\<lambda>_. Idle)\<rparr>"

inductive quota_step :: "QuotaLimits \<Rightarrow> quota_state \<Rightarrow> quota_state \<Rightarrow> bool" for L :: QuotaLimits where
  principal_granted: "threads s i = Idle \<Longrightarrow>
    reserve_dimension (principal_slots (tracker s)) (reservation_principal r)
      (max_concurrent_per_principal L) PrincipalScope = (Inr u, t) \<Longrightarrow>
    quota_step L s (s\<lparr>tracker := (tracker s)\<lparr>principal_slots := t\<rparr>, threads := (threads s)(i := HasPrincipal r)\<rparr>)"
| principal_denied: "threads s i = Idle \<Longrightarrow>
    reserve_dimension (principal_slots (tracker s)) (reservation_principal (r :: QuotaReservation))
      (max_concurrent_per_principal L) PrincipalScope = (Inl d, t) \<Longrightarrow>
    quota_step L s (s\<lparr>tracker := (tracker s)\<lparr>principal_slots := t\<rparr>\<rparr>)"
| app_granted: "threads s i = HasPrincipal r \<Longrightarrow>
    reserve_dimension (app_slots (tracker s)) (reservation_app_id r)
      (max_concurrent_per_app L) AppScope = (Inr u, t) \<Longrightarrow>
    quota_step L s (s\<lparr>tracker := (tracker s)\<lparr>app_slots := t\<rparr>, threads := (threads s)(i := HasApp r)\<rparr>)"
| app_denied: "threads s i = HasPrincipal r \<Longrightarrow>
    reserve_dimension (app_slots (tracker s)) (reservation_app_id r)
      (max_concurrent_per_app L) AppScope = (Inl d, t) \<Longrightarrow>
    quota_step L s (s\<lparr>tracker := (tracker s)\<lparr>app_slots := t\<rparr>, threads := (threads s)(i := UndoPrincipal r)\<rparr>)"
| workspace_granted: "threads s i = HasApp r \<Longrightarrow>
    reserve_dimension (workspace_slots (tracker s)) (reservation_workspace_id r)
      (max_concurrent_per_workspace L) WorkspaceScope = (Inr u, t) \<Longrightarrow>
    quota_step L s (s\<lparr>tracker := (tracker s)\<lparr>workspace_slots := t\<rparr>, threads := (threads s)(i := Holding r)\<rparr>)"
| workspace_denied: "threads s i = HasApp r \<Longrightarrow>
    reserve_dimension (workspace_slots (tracker s)) (reservation_workspace_id r)
      (max_concurrent_per_workspace L) WorkspaceScope = (Inl d, t) \<Longrightarrow>
    quota_step L s (s\<lparr>tracker := (tracker s)\<lparr>workspace_slots := t\<rparr>, threads := (threads s)(i := UndoBoth r)\<rparr>)"
| undo_principal: "threads s i = UndoPrincipal r \<Longrightarrow>
    quota_step L s (s\<lparr>tracker := (tracker s)\<lparr>principal_slots :=
        release_dimension (principal_slots (tracker s)) (reservation_principal r)\<rparr>,
      threads := (threads s)(i := Idle)\<rparr>)"
| undo_both: "threads s i = UndoBoth r \<Longrightarrow>
    quota_step L s (s\<lparr>tracker := (tracker s)\<lparr>principal_slots :=
        release_dimension (principal_slots (tracker s)) (reservation_principal r)\<rparr>,
      threads := (threads s)(i := UndoApp r)\<rparr>)"
| undo_app: "threads s i = UndoApp r \<Longrightarrow>
    quota_step L s (s\<lparr>tracker := (tracker s)\<lparr>app_slots :=
        release_dimension (app_slots (tracker s)) (reservation_app_id r)\<rparr>,
      threads := (threads s)(i := Idle)\<rparr>)"
| drop_principal: "threads s i = Holding r \<Longrightarrow>
    quota_step L s (s\<lparr>tracker := (tracker s)\<lparr>principal_slots :=
        release_dimension (principal_slots (tracker s)) (reservation_principal r)\<rparr>,
      threads := (threads s)(i := DroppedPrincipal r)\<rparr>)"
| drop_app: "threads s i = DroppedPrincipal r \<Longrightarrow>
    quota_step L s (s\<lparr>tracker := (tracker s)\<lparr>app_slots :=
        release_dimension (app_slots (tracker s)) (reservation_app_id r)\<rparr>,
      threads := (threads s)(i := DroppedApp r)\<rparr>)"
| drop_workspace: "threads s i = DroppedApp r \<Longrightarrow>
    quota_step L s (s\<lparr>tracker := (tracker s)\<lparr>workspace_slots :=
        release_dimension (workspace_slots (tracker s)) (reservation_workspace_id r)\<rparr>,
      threads := (threads s)(i := Idle)\<rparr>)"

inductive quota_reachable :: "QuotaLimits \<Rightarrow> quota_state \<Rightarrow> bool" for L :: QuotaLimits where
  init: "quota_reachable L quota_init"
| step: "quota_reachable L s \<Longrightarrow> quota_step L s s' \<Longrightarrow> quota_reachable L s'"

subsection \<open>Specification\<close>

text \<open>The key a thread holds a slot for, in each dimension.\<close>

fun holds_principal :: "quota_pc \<Rightarrow> string option" where
  "holds_principal (HasPrincipal r) = Some (reservation_principal r)"
| "holds_principal (HasApp r) = Some (reservation_principal r)"
| "holds_principal (Holding r) = Some (reservation_principal r)"
| "holds_principal (UndoPrincipal r) = Some (reservation_principal r)"
| "holds_principal (UndoBoth r) = Some (reservation_principal r)"
| "holds_principal _ = None"

fun holds_app :: "quota_pc \<Rightarrow> string option" where
  "holds_app (HasApp r) = Some (reservation_app_id r)"
| "holds_app (Holding r) = Some (reservation_app_id r)"
| "holds_app (UndoBoth r) = Some (reservation_app_id r)"
| "holds_app (UndoApp r) = Some (reservation_app_id r)"
| "holds_app (DroppedPrincipal r) = Some (reservation_app_id r)"
| "holds_app _ = None"

fun holds_workspace :: "quota_pc \<Rightarrow> string option" where
  "holds_workspace (Holding r) = Some (reservation_workspace_id r)"
| "holds_workspace (DroppedPrincipal r) = Some (reservation_workspace_id r)"
| "holds_workspace (DroppedApp r) = Some (reservation_workspace_id r)"
| "holds_workspace _ = None"

text \<open>One dimension is accounted for: every count is the number of holders, within the limit.\<close>

definition dim_inv :: "slots \<Rightarrow> (nat \<Rightarrow> string option) \<Rightarrow> nat \<Rightarrow> bool" where
  "dim_inv counts f limit \<longleftrightarrow>
     (\<forall>k. finite {i. f i = Some k} \<and> slot_count counts k = card {i. f i = Some k} \<and> card {i. f i = Some k} \<le> limit)"

definition quota_inv :: "QuotaLimits \<Rightarrow> quota_state \<Rightarrow> bool" where
  "quota_inv L s \<longleftrightarrow>
     dim_inv (principal_slots (tracker s)) (holds_principal \<circ> threads s) (max_concurrent_per_principal L)
   \<and> dim_inv (app_slots (tracker s)) (holds_app \<circ> threads s) (max_concurrent_per_app L)
   \<and> dim_inv (workspace_slots (tracker s)) (holds_workspace \<circ> threads s) (max_concurrent_per_workspace L)"

section \<open>Quotas\<close>

lemma slot_count_upd [simp]: "slot_count (c(k \<mapsto> n)) k' = (if k' = k then n else slot_count c k')"
  by (simp add: slot_count_def)

lemma slot_count_release [simp]:
  "slot_count (release_dimension c k) k' = (if k' = k then slot_count c k - 1 else slot_count c k')"
  by (simp add: release_dimension_def slot_count_def split: option.split)

lemma dim_inv_denied:
  assumes "reserve_dimension c k limit sc = (Inl d, t)" "dim_inv c f limit"
  shows "dim_inv t f limit"
proof -
  have "slot_count t k' = slot_count c k'" for k'
    using assms(1) by (auto simp: reserve_dimension_def Let_def split: if_splits)
  with assms(2) show ?thesis by (simp add: dim_inv_def)
qed

lemma dim_inv_granted:
  assumes "reserve_dimension c k limit sc = (Inr u, t)" "dim_inv c f limit" "f i = None"
  shows "dim_inv t (f(i := Some k)) limit"
proof -
  have count: "slot_count t k' = slot_count c k' + (if k' = k then 1 else 0)" "slot_count c k < limit" for k'
    using assms(1) by (auto simp: reserve_dimension_def Let_def split: if_splits)
  have "{j. (f(i := Some k)) j = Some k'} = (if k' = k then insert i {j. f j = Some k'} else {j. f j = Some k'})" for k'
    using assms(3) by auto
  then show ?thesis using assms(2,3) count unfolding dim_inv_def
    by (auto simp: card_insert_if Suc_le_eq)
qed

lemma dim_inv_release:
  assumes "dim_inv c f limit" "f i = Some k"
  shows "dim_inv (release_dimension c k) (f(i := None)) limit"
proof -
  have "{j. (f(i := None)) j = Some k'} = (if k' = k then {j. f j = Some k'} - {i} else {j. f j = Some k'})" for k'
    using assms(2) by auto
  then show ?thesis using assms unfolding dim_inv_def
    by (auto simp: card_Diff_singleton_if intro: le_trans [OF diff_le_self])
qed

lemma comp_upd: "g \<circ> f(i := x) = (g \<circ> f)(i := g x)"
  by (auto simp: fun_eq_iff)

lemma upd_same: "f i = x \<Longrightarrow> f(i := x) = f"
  by auto

lemma quota_step_inv: "quota_step L s s' \<Longrightarrow> quota_inv L s \<Longrightarrow> quota_inv L s'"
  by (induction rule: quota_step.induct)
    (simp_all add: quota_inv_def comp_upd upd_same dim_inv_denied dim_inv_granted dim_inv_release)

lemma quota_reachable_inv: "quota_reachable L s \<Longrightarrow> quota_inv L s"
proof (induction rule: quota_reachable.induct)
  case init
  then show ?case
    by (simp add: quota_inv_def dim_inv_def quota_init_def new_quota_tracker_def slot_count_def comp_def)
next
  case (step s s')
  then show ?case by (blast intro: quota_step_inv)
qed


definition sample_reservation :: QuotaReservation where
  "sample_reservation = \<lparr>reservation_principal = ''alice'', reservation_app_id = ''app'',
     reservation_workspace_id = ''ws''\<rparr>"

definition sample_holding :: quota_state where
  "sample_holding = \<lparr>tracker = \<lparr>principal_slots = [''alice'' \<mapsto> 1], app_slots = [''app'' \<mapsto> 1],
       workspace_slots = [''ws'' \<mapsto> 1]\<rparr>, threads = (\<lambda>_. Idle)(7 := Holding sample_reservation)\<rparr>"

lemma sample_holding_reachable: "quota_reachable default_quota_limits sample_holding"
proof -
  let ?L = default_quota_limits
  let ?s1 = "\<lparr>tracker = \<lparr>principal_slots = [''alice'' \<mapsto> 1], app_slots = Map.empty, workspace_slots = Map.empty\<rparr>,
      threads = (\<lambda>_. Idle)(7 := HasPrincipal sample_reservation)\<rparr>"
  let ?s2 = "\<lparr>tracker = \<lparr>principal_slots = [''alice'' \<mapsto> 1], app_slots = [''app'' \<mapsto> 1], workspace_slots = Map.empty\<rparr>,
      threads = (\<lambda>_. Idle)(7 := HasApp sample_reservation)\<rparr>"
  have 1: "quota_step ?L quota_init ?s1"
    using quota_step.principal_granted [of quota_init 7 sample_reservation ?L "()" "[''alice'' \<mapsto> 1]"]
    by (simp add: quota_init_def new_quota_tracker_def sample_reservation_def reserve_dimension_def
        slot_count_def default_quota_limits_def)
  have 2: "quota_step ?L ?s1 ?s2"
    using quota_step.app_granted [of ?s1 7 sample_reservation ?L "()" "[''app'' \<mapsto> 1]"]
    by (simp add: sample_reservation_def reserve_dimension_def slot_count_def default_quota_limits_def)
  have 3: "quota_step ?L ?s2 sample_holding"
    using quota_step.workspace_granted [of ?s2 7 sample_reservation ?L "()" "[''ws'' \<mapsto> 1]"]
    by (simp add: sample_reservation_def reserve_dimension_def slot_count_def default_quota_limits_def
        sample_holding_def)
  from quota_reachable.init 1 2 3 show ?thesis by (blast intro: quota_reachable.step)
qed



section \<open>Approval tokens\<close>

subsection \<open>Use counts\<close>

datatype token_op = UseToken ApprovalTokenClaims | RevokeToken string

text \<open>Successful uses of a token in a sequence of atomic store operations.\<close>

fun successes :: "string \<Rightarrow> token_op list \<Rightarrow> ApprovalTokenStore \<Rightarrow> nat" where
  "successes t [] st = 0"
| "successes t (UseToken c # ops) st =
     (case check_and_record_use c st of
        (r, st') \<Rightarrow> (if claim_token_id c = t \<and> is_ok r then 1 else 0) + successes t ops st')"
| "successes t (RevokeToken u # ops) st = successes t ops (revoke u st)"

lemma usage_entry_upd [simp]:
  "usage_entry (st\<lparr>used := (used st)(t \<mapsto> r)\<rparr>) t' = (if t' = t then r else usage_entry st t')"
  by (simp add: usage_entry_def)

text \<open>The largest limit among the claims presented for a token.\<close>

fun use_bound :: "string \<Rightarrow> token_op list \<Rightarrow> nat" where
  "use_bound t [] = 0"
| "use_bound t (UseToken c # ops) =
     max (if claim_token_id c = t then claim_max_use_count c else 0) (use_bound t ops)"
| "use_bound t (RevokeToken u # ops) = use_bound t ops"

lemma successes_bound:
  "successes t ops st = 0 \<or> use_count (usage_entry st t) + successes t ops st \<le> use_bound t ops"
proof (induction t ops st rule: successes.induct)
  case (1 t st)
  then show ?case by simp
next
  case (2 t c ops st)
  obtain r st' where run: "check_and_record_use c st = (r, st')" by fastforce
  note IH = 2 [OF run [symmetric]]
  show ?case
  proof (cases "claim_token_id c = t \<and> is_ok r")
    case True
    then have "use_count (usage_entry st t) < claim_max_use_count c"
      and "use_count (usage_entry st' t) = use_count (usage_entry st t) + 1"
      using run by (auto simp: check_and_record_use_def Let_def split: if_splits)
    then show ?thesis using IH True run by auto
  next
    case False
    then have "use_count (usage_entry st' t) = use_count (usage_entry st t)"
      using run by (auto simp: check_and_record_use_def Let_def split: if_splits)
    then show ?thesis using IH False run by auto
  qed
next
  case (3 t u ops st)
  have "use_count (usage_entry (revoke u st) t) = use_count (usage_entry st t)"
    by (simp add: revoke_def)
  with 3 show ?case by auto
qed

lemma successes_revoked:
  "poisoned st \<or> revoked (usage_entry st t) \<Longrightarrow> successes t ops st = 0"
proof (induction t ops st rule: successes.induct)
  case (2 t c ops st)
  obtain r st' where run: "check_and_record_use c st = (r, st')" by fastforce
  have "poisoned st' \<or> revoked (usage_entry st' t)" and "\<not> (claim_token_id c = t \<and> is_ok r)"
    using 2(2) run by (auto simp: check_and_record_use_def Let_def split: if_splits)
  then show ?case using 2(1) [OF run [symmetric]] run by auto
qed (auto simp: revoke_def)

text \<open>
  C31: Whatever the order of uses and revocations, a token is never used successfully more often
  than the largest \<open>max_use_count\<close> presented for it, and never again once it is revoked.
\<close>

theorem token_uses_bounded:
  "successes t ops new_token_store \<le> use_bound t ops \<and> successes t ops (revoke t st) = 0"
proof -
  have "successes t ops (revoke t st) = 0" by (rule successes_revoked) (simp add: revoke_def)
  then show ?thesis using successes_bound [of t ops new_token_store] by auto
qed

subsection \<open>Base64url\<close>

text \<open>The number a digit sequence denotes, most significant digit first.\<close>

definition be_value :: "nat \<Rightarrow> nat list \<Rightarrow> nat" where
  "be_value base ds = foldl (\<lambda>a d. a * base + d) 0 ds"

definition base64_digit :: "char \<Rightarrow> nat" where
  "base64_digit c = (case base64_value c of Some v \<Rightarrow> v | None \<Rightarrow> 0)"

lemma be_value_snoc [simp]: "be_value b (ds @ [d]) = be_value b ds * b + d"
  by (simp add: be_value_def)

lemma position_of_less: "position_of c xs = Some i \<Longrightarrow> i < length xs"
  by (induction xs arbitrary: i) (auto split: if_splits)

lemma position_of_None: "position_of c xs = None \<longleftrightarrow> c \<notin> set xs"
  by (induction xs) auto

lemma base64_value_less: "base64_value c = Some v \<Longrightarrow> v < 64"
  using position_of_less [of c base64_alphabet v]
  by (simp add: base64_value_def base64_alphabet_def)

lemma base64_value_None: "base64_value c = None \<longleftrightarrow> c \<notin> set base64_alphabet"
  by (simp add: base64_value_def position_of_None)

text \<open>
  One step: the byte taken from the wrapped buffer is the one of the full number, because
  at most fourteen bits are pending.
\<close>

lemma wrap_div_mod:
  fixes M b :: nat
  assumes "b + 8 \<le> 32"
  shows "M mod 2 ^ 32 div 2 ^ b mod 256 = M div 2 ^ b mod 256"
proof -
  have "M mod 2 ^ 32 = take_bit 32 M" by (simp add: take_bit_eq_mod)
  moreover have "drop_bit b (take_bit 32 M) = take_bit (32 - b) (drop_bit b M)" by (simp add: drop_bit_take_bit)
  moreover have "take_bit 8 (take_bit (32 - b) (drop_bit b M)) = take_bit 8 (drop_bit b M)"
  proof -
    have "min 8 (32 - b) = 8" using assms by simp
    then show ?thesis by simp
  qed
  ultimately show ?thesis by (simp add: take_bit_eq_mod drop_bit_eq_div)
qed

lemma div_pow_shift:
  fixes M b bits :: nat
  assumes "b + 8 = bits + 6"
  shows "M div 2 ^ b div 256 = M div 64 div 2 ^ bits"
proof -
  have "M div 2 ^ b div 256 = drop_bit (b + 8) M" by (simp add: drop_bit_eq_div power_add div_mult2_eq)
  also have "\<dots> = drop_bit (6 + bits) M" unfolding assms by (simp only: add.commute)
  also have "\<dots> = M div 64 div 2 ^ bits" by (simp add: drop_bit_eq_div power_add div_mult2_eq)
  finally show ?thesis .
qed

lemma base64_byte:
  fixes N v bits :: nat
  assumes v: "v < 64" and bits: "8 \<le> bits + 6" "bits < 8"
  shows "(N div 2 ^ bits) * 256 + ((N * 64 + v) mod 2 ^ 32 div 2 ^ (bits + 6 - 8)) mod 256 =
    (N * 64 + v) div 2 ^ (bits + 6 - 8)"
proof -
  let ?M = "N * 64 + v" and ?b = "bits + 6 - 8"
  have "?M mod 2 ^ 32 div 2 ^ ?b mod 256 = ?M div 2 ^ ?b mod 256"
    using bits by (intro wrap_div_mod) simp
  moreover have "?M div 2 ^ ?b div 256 = ?M div 64 div 2 ^ bits"
    using bits by (intro div_pow_shift) simp
  moreover have "?M div 64 = N" using v by simp
  ultimately show ?thesis by (metis div_mult_mod_eq)
qed

lemma shifted_buffer:
  fixes N v :: nat
  assumes "v < 64"
  shows "(N mod 2 ^ 32 * 64) mod 2 ^ 32 + v = (N * 64 + v) mod 2 ^ 32"
proof -
  have mult: "(N * 64) mod 2 ^ 32 = 64 * (N mod 2 ^ 26)"
    using mult_mod_right [of 64 N "2 ^ 26"] by (simp add: mult.commute)
  have "64 * (N mod 2 ^ 26) + v < 2 ^ 32"
  proof -
    have "N mod 2 ^ 26 \<le> 2 ^ 26 - 1" by (simp add: less_eq_Suc_le [symmetric])
    then show ?thesis using assms by simp
  qed
  then have "((N * 64) mod 2 ^ 32 + v) mod 2 ^ 32 = (N * 64) mod 2 ^ 32 + v" unfolding mult by simp
  then show ?thesis by (metis mod_add_left_eq mod_mult_left_eq)
qed

lemma base64_loop_value:
  assumes "bits < 8" "8 * length out + bits = 6 * n" "be_value 256 out = N div 2 ^ bits"
    "list_all (\<lambda>b. b < 256) out"
  shows "case base64_loop cs (N mod 2 ^ 32) bits out of
      None \<Rightarrow> \<not> set cs \<subseteq> set base64_alphabet
    | Some res \<Rightarrow> set cs \<subseteq> set base64_alphabet \<and> list_all (\<lambda>b. b < 256) res
        \<and> length res = 6 * (n + length cs) div 8
        \<and> be_value 256 res =
            foldl (\<lambda>a d. a * 64 + d) N (map base64_digit cs) div 2 ^ (6 * (n + length cs) mod 8)"
  using assms
proof (induction cs arbitrary: N bits out n)
  case Nil
  then have "6 * n div 8 = length out" "6 * n mod 8 = bits" by (simp_all flip: Nil(2))
  with Nil show ?case by simp
next
  case (Cons c cs)
  show ?case
  proof (cases "base64_value c")
    case None
    then have "c \<notin> set base64_alphabet" by (simp add: base64_value_None)
    with None show ?thesis by simp
  next
    case (Some v)
    have v: "v < 64" and c: "c \<in> set base64_alphabet" "base64_digit c = v"
      using Some base64_value_less base64_value_None [of c] by (auto simp: base64_digit_def)
    let ?N = "N * 64 + v"
    show ?thesis
    proof (cases "bits + 6 \<ge> 8")
      case True
      let ?b = "bits + 6 - 8"
      let ?out = "out @ [?N mod 2 ^ 32 div 2 ^ ?b mod 256]"
      have "case base64_loop cs (?N mod 2 ^ 32) ?b ?out of
          None \<Rightarrow> \<not> set cs \<subseteq> set base64_alphabet
        | Some res \<Rightarrow> set cs \<subseteq> set base64_alphabet \<and> list_all (\<lambda>b. b < 256) res
            \<and> length res = 6 * (Suc n + length cs) div 8
            \<and> be_value 256 res =
                foldl (\<lambda>a d. a * 64 + d) ?N (map base64_digit cs) div 2 ^ (6 * (Suc n + length cs) mod 8)"
        using Cons.prems True base64_byte [OF v True Cons.prems(1), of N]
        by (intro Cons.IH) (auto simp: mult.commute)
      then show ?thesis using True Some c shifted_buffer [OF v, of N]
        by (simp add: Let_def split: option.splits)
    next
      case False
      have div: "?N div 2 ^ (bits + 6) = N div 2 ^ bits"
        using v by (simp add: power_add mult.commute [of _ 64] div_mult2_eq)
      have "case base64_loop cs (?N mod 2 ^ 32) (bits + 6) out of
          None \<Rightarrow> \<not> set cs \<subseteq> set base64_alphabet
        | Some res \<Rightarrow> set cs \<subseteq> set base64_alphabet \<and> list_all (\<lambda>b. b < 256) res
            \<and> length res = 6 * (Suc n + length cs) div 8
            \<and> be_value 256 res =
                foldl (\<lambda>a d. a * 64 + d) ?N (map base64_digit cs) div 2 ^ (6 * (Suc n + length cs) mod 8)"
        using Cons.prems False div by (intro Cons.IH) auto
      then show ?thesis using False Some c shifted_buffer [OF v, of N]
        by (simp add: Let_def split: option.splits)
    qed
  qed
qed

text \<open>
  \<^verbatim>\<open>base64url_decode\<close> accepts exactly the strings over the alphabet and returns the bytes
  of the denoted bit string: as a number it is the base-64 value of the input without its last
  \<open>6n mod 8\<close> bits. The wrap-around of the 32-bit buffer never loses a bit that is still needed.
\<close>

theorem base64url_decode_value:
  "case base64url_decode s of
     None \<Rightarrow> \<not> set s \<subseteq> set base64_alphabet
   | Some bytes \<Rightarrow> set s \<subseteq> set base64_alphabet
       \<and> length bytes = 6 * length s div 8
       \<and> be_value 256 (map of_char bytes) =
           be_value 64 (map base64_digit s) div 2 ^ (6 * length s mod 8)"
proof -
  have loop: "case base64_loop s 0 0 [] of
      None \<Rightarrow> \<not> set s \<subseteq> set base64_alphabet
    | Some res \<Rightarrow> set s \<subseteq> set base64_alphabet \<and> list_all (\<lambda>b. b < 256) res
        \<and> length res = 6 * length s div 8
        \<and> be_value 256 res = foldl (\<lambda>a d. a * 64 + d) 0 (map base64_digit s) div 2 ^ (6 * length s mod 8)"
    using base64_loop_value [of 0 "[]" 0 0 s] by (simp add: be_value_def cong: option.case_cong)
  show ?thesis
  proof (cases "base64_loop s 0 0 []")
    case None
    with loop show ?thesis by (simp add: base64url_decode_def)
  next
    case (Some res)
    then have "map (of_char :: char \<Rightarrow> nat) (map char_of res) = res"
      using loop by (auto simp: list_all_iff intro: map_idI)
    with Some loop show ?thesis by (simp add: base64url_decode_def be_value_def)
  qed
qed

subsection \<open>Verification\<close>

lemma split_three:
  "split_on c s = [h, p, g] \<longleftrightarrow> s = h @ [c] @ p @ [c] @ g \<and> c \<notin> set h \<and> c \<notin> set p \<and> c \<notin> set g"
proof
  assume split: "split_on c s = [h, p, g]"
  then have "s = join_with c [h, p, g]" using join_split [of c s] by simp
  moreover have "c \<notin> set h" "c \<notin> set p" "c \<notin> set g"
    using split_on_pieces [of _ c s] unfolding split by auto
  ultimately show "s = h @ [c] @ p @ [c] @ g \<and> c \<notin> set h \<and> c \<notin> set p \<and> c \<notin> set g" by simp
next
  assume "s = h @ [c] @ p @ [c] @ g \<and> c \<notin> set h \<and> c \<notin> set p \<and> c \<notin> set g"
  then show "split_on c s = [h, p, g]" by (simp add: split_on_append split_on_no_sep)
qed

lemma check_bindings_Ok:
  "check_bindings claims ctx now = Ok c \<longleftrightarrow>
     c = claims \<and> claim_issuer c = expected_issuer ctx \<and> claim_audience c = expected_audience ctx
   \<and> claim_workspace_id c = expected_workspace_id ctx \<and> claim_proposal_digest c = expected_proposal_digest ctx
   \<and> claim_snapshot_digest c = expected_snapshot_digest ctx \<and> now < claim_expiry_unix c"
  by (auto simp: check_bindings_def)

text \<open>
  C14: A token is accepted with its claims exactly when it has three dot-separated parts, its
  header names EdDSA and a configured key, its 64-byte signature verifies under that key for
  precisely the bytes header-dot-payload, the signed payload parses to the claims, and these bind
  the expected issuer, audience, workspace, proposal and snapshot and are not yet expired.
\<close>

theorem approval_token_accepted_iff:
  "verify_approval_token from_slice verify now token ctx = Ok claims \<longleftrightarrow>
     (\<exists>h p g hb header kid key sig pb payload.
        token = h @ ''.'' @ p @ ''.'' @ g \<and> CHR ''.'' \<notin> set h \<and> CHR ''.'' \<notin> set p \<and> CHR ''.'' \<notin> set g
      \<and> base64url_decode h = Some hb \<and> from_slice hb = Some header
      \<and> json_get header ''alg'' = Some (JString ''EdDSA'')
      \<and> json_get header ''kid'' = Some (JString kid) \<and> verifying_keys_by_key_id ctx kid = Some key
      \<and> base64url_decode g = Some sig \<and> length sig = 64 \<and> verify key (h @ ''.'' @ p) sig
      \<and> base64url_decode p = Some pb \<and> from_slice pb = Some payload
      \<and> parse_approval_token_claims payload kid = Ok claims
      \<and> claim_issuer claims = expected_issuer ctx \<and> claim_audience claims = expected_audience ctx
      \<and> claim_workspace_id claims = expected_workspace_id ctx
      \<and> claim_proposal_digest claims = expected_proposal_digest ctx
      \<and> claim_snapshot_digest claims = expected_snapshot_digest ctx \<and> now < claim_expiry_unix claims)"
    (is "?L \<longleftrightarrow> ?R")
proof -
  have alg: "(case v of None \<Rightarrow> [] | Some j \<Rightarrow> (case as_str j of None \<Rightarrow> [] | Some a \<Rightarrow> a)) = ''EdDSA'' \<longleftrightarrow>
      v = Some (JString ''EdDSA'')" for v
    by (cases v) (auto split: option.splits dest: as_str_Some)
  have kid: "(case v of None \<Rightarrow> None | Some j \<Rightarrow> as_str j) = Some k \<longleftrightarrow> v = Some (JString k)" for v k
    by (cases v) (auto dest: as_str_Some)
  have "?L \<longleftrightarrow> (\<exists>h p g. split_on CHR ''.'' token = [h, p, g] \<and>
      (\<exists>hb header kid key sig pb payload.
        base64url_decode h = Some hb \<and> from_slice hb = Some header
      \<and> json_get header ''alg'' = Some (JString ''EdDSA'')
      \<and> json_get header ''kid'' = Some (JString kid) \<and> verifying_keys_by_key_id ctx kid = Some key
      \<and> base64url_decode g = Some sig \<and> length sig = 64 \<and> verify key (h @ ''.'' @ p) sig
      \<and> base64url_decode p = Some pb \<and> from_slice pb = Some payload
      \<and> and_then (parse_approval_token_claims payload kid) (\<lambda>c. check_bindings c ctx now) = Ok claims))"
    unfolding verify_approval_token_def APPROVAL_TOKEN_ALLOWED_ALG_def
    by (auto simp: and_then_Inr_iff if_Err_Inr_iff alg kid split: list.split)
  also have "\<dots> \<longleftrightarrow> ?R"
    unfolding split_three and_then_Inr_iff check_bindings_Ok by (simp only: append_Cons append_Nil) blast
  finally show ?thesis .
qed

section \<open>Cross-validation\<close>

text \<open>A node is pinned to a registered capability; a mapping's data may flow.\<close>

definition pinned :: "manifest \<Rightarrow> registry \<Rightarrow> ProposalNode \<Rightarrow> ResolvedCapability \<Rightarrow> bool" where
  "pinned mf reg n cap \<longleftrightarrow>
     (capability_id n, capability_version n) \<in> set mf
   \<and> reg PreferPrivate (capability_id n) (capability_version n) = Some cap \<and> registry_digest cap = artifact_digest n"

definition flow_allowed :: "CapabilityContract \<Rightarrow> CapabilityContract \<Rightarrow> ProposalMapping \<Rightarrow> bool" where
  "flow_allowed src tgt m \<longleftrightarrow>
     mapping_schema_compatible (sc_schema (cc_outputs src)) (source_path m) (sc_schema (cc_inputs tgt)) (target_path m)
   \<and> (case classification_at_path (produced_data_classifications (data_flow (cc_risk src))) (source_path m) of
        None \<Rightarrow> True
      | Some produced \<Rightarrow>
          (case classification_at_path (accepted_data_classifications (data_flow (cc_risk tgt))) (target_path m) of
             None \<Rightarrow> False
           | Some accepted \<Rightarrow> produced \<le> accepted
               \<and> \<not> (Public < produced \<and> has_external_effect tgt \<and> egress_policy (data_flow (cc_risk tgt)) = Denied)))"

lemma manifest_declares_iff:
  "manifest_declares_capability mf n \<longleftrightarrow> (capability_id n, capability_version n) \<in> set mf"
  by (auto simp: manifest_declares_capability_def list_ex_iff)

lemma resolve_nodes_ok:
  assumes "fst (resolve_nodes mf reg i ns res) = []" "distinct (map node_id ns)"
  shows "(\<forall>n \<in> set ns. \<exists>cap. pinned mf reg n cap \<and> snd (resolve_nodes mf reg i ns res) (node_id n) =
            Some \<lparr>resolved_node_id = node_id n, contract = rc_contract cap\<rparr>)
    \<and> (\<forall>v. v \<notin> node_id ` set ns \<longrightarrow> snd (resolve_nodes mf reg i ns res) v = res v)"
  using assms
proof (induction ns arbitrary: i res)
  case Nil
  then show ?case by simp
next
  case (Cons n ns)
  then obtain cap where cap: "pinned mf reg n cap"
    by (auto simp: Let_def pinned_def manifest_declares_iff split: if_splits option.splits)
  let ?res = "res(node_id n \<mapsto> \<lparr>resolved_node_id = node_id n, contract = rc_contract cap\<rparr>)"
  have run: "resolve_nodes mf reg i (n # ns) res = resolve_nodes mf reg (Suc i) ns ?res"
    using cap by (simp add: pinned_def manifest_declares_iff)
  have fst: "fst (resolve_nodes mf reg (Suc i) ns ?res) = []" and new: "node_id n \<notin> node_id ` set ns"
    using Cons.prems unfolding run by auto
  define R where "R = snd (resolve_nodes mf reg (Suc i) ns ?res)"
  have IH: "(\<forall>n \<in> set ns. \<exists>cap. pinned mf reg n cap \<and> R (node_id n) =
            Some \<lparr>resolved_node_id = node_id n, contract = rc_contract cap\<rparr>)
      \<and> (\<forall>v. v \<notin> node_id ` set ns \<longrightarrow> R v = ?res v)"
    unfolding R_def by (rule Cons.IH [OF fst]) (use Cons.prems in simp)
  moreover have "R (node_id n) = Some \<lparr>resolved_node_id = node_id n, contract = rc_contract cap\<rparr>"
    using IH new by simp
  moreover have "R v = res v" if "v \<notin> node_id ` set (n # ns)" for v using IH that by simp
  ultimately show ?case unfolding run R_def [symmetric] using cap by auto
qed

lemma check_mapping_loop_Nil:
  "check_mapping_loop res i ms = [] \<Longrightarrow> m \<in> set ms \<Longrightarrow> \<exists>j. check_mapping res j m = []"
  by (induction res i ms rule: check_mapping_loop.induct) auto

lemma check_mapping_Nil:
  assumes "res (target_node_id m) = Some tgt" "mapping_source m = NodeSource s" "res s = Some src"
  shows "check_mapping res i m = [] \<longleftrightarrow> flow_allowed (contract src) (contract tgt) m"
  using assms by (auto simp: check_mapping_def source_node_def flow_allowed_def Let_def not_less
      split: option.splits)

lemma map_filter_total:
  "(\<And>x. x \<in> set xs \<Longrightarrow> f x = Some (g x)) \<Longrightarrow> List.map_filter f xs = map g xs"
  by (induction xs) (auto simp: List.map_filter_simps)


text \<open>
  Data that the producing capability does not classify passes unchecked, whatever the target
  accepts and wherever it may send it.
\<close>

lemma unclassified_source_unchecked:
  assumes "res (target_node_id m) = Some tgt" "mapping_source m = NodeSource s" "res s = Some src"
    and "mapping_schema_compatible (sc_schema (cc_outputs (contract src))) (source_path m)
           (sc_schema (cc_inputs (contract tgt))) (target_path m)"
    and "classification_at_path (produced_data_classifications (data_flow (cc_risk (contract src)))) (source_path m) = None"
  shows "check_mapping res i m = []"
  using assms by (simp add: check_mapping_Nil flow_allowed_def)

subsection \<open>A concrete registry\<close>

definition sample_contract :: CapabilityContract where
  "sample_contract = \<lparr>cc_kind = ''capability_contract'', cc_schema_version = ''1.0.0'', cc_id = ''cap.a'',
     cc_namespace = ''cap'', cc_name = ''a'', cc_version = ''1.0.0'', cc_lifecycle = Active,
     cc_owner = \<lparr>team = ''t'', contact = ''c''\<rparr>, cc_summary = ''reads one record'',
     cc_description = ''reads one record from a table'',
     cc_inputs = \<lparr>sc_schema = JObject []\<rparr>, cc_outputs = \<lparr>sc_schema = JObject []\<rparr>,
     cc_preconditions = [], cc_postconditions = [],
     cc_side_effects = [\<lparr>side_effect_kind = NoSideEffect, side_effect_description = ''none''\<rparr>],
     cc_emits = [], cc_consumes = [], cc_permissions = [],
     cc_execution = \<lparr>binary_format = Wasm, entrypoint = \<lparr>entrypoint_kind = WasiCommand, entrypoint_command = ''run''\<rparr>,
       preferred_targets = [Local],
       constraints = \<lparr>host_api_access = NoHostApi, network_access = Forbidden, filesystem_access = NoFilesystem\<rparr>,
       resources = None\<rparr>,
     cc_policies = [], cc_dependencies = [],
     cc_provenance = \<lparr>provenance_source = Greenfield, author = ''a'', created_at = ''2026'', spec_ref = None,
       adr_refs = [], exception_refs = []\<rparr>,
     cc_evidence = [], cc_service_type = Stateless, cc_permitted_targets = [Local], cc_event_trigger = None,
     cc_connector_requirements = [], cc_state_schema = None, cc_use_cases = [],
     cc_risk = \<lparr>effect_class = PureRead, determinism_class = Deterministic,
       data_flow = \<lparr>accepted_data_classifications = [\<lparr>field_path = ''/y'', classification = Confidential\<rparr>],
         produced_data_classifications = [\<lparr>field_path = ''/y'', classification = Internal\<rparr>],
         egress_policy = Denied\<rparr>,
       reliability = \<lparr>idempotency_required = False, retryable = True, compensation_available = False\<rparr>\<rparr>\<rparr>"

definition sample_registry :: registry where
  "sample_registry scope cap ver =
     Some \<lparr>rc_record = \<lparr>rec_scope = PrivateScope, rec_id = cap, rec_version = ver, rec_artifact_ref = cap,
             rec_contract_path = cap, rec_implementation_kind = ExecutableKind, rec_lifecycle = Active\<rparr>,
           rc_contract = sample_contract,
           rc_artifact = \<lparr>artifact_binary = None, binary_digest = Some (''sha256:'' @ drop 4 cap),
             source_digest = ''s'', artifact_source_kind = LocalSource, artifact_workflow_ref = None\<rparr>\<rparr>"

definition sample_manifest :: manifest where
  "sample_manifest = [(''cap.a'', ''1.0.0''), (''cap.b'', ''1.0.0''), (''cap.c'', ''1.0.0'')]"

lemma sample_flow: "flow_allowed sample_contract sample_contract \<lparr>mapping_source = NodeSource ''a'', source_path = ''/y'',
    target_node_id = ''c'', target_path = ''/y''\<rparr>"
  by (simp add: flow_allowed_def sample_contract_def mapping_schema_compatible_def resolve_schema_pointer_def
      pointer_segments_def split_on_def schema_type_def less_eq_DataClassification_def has_external_effect_def)

definition sample_resolved :: "string \<rightharpoonup> ResolvedProposalNode" where
  "sample_resolved = [''b'' \<mapsto> \<lparr>resolved_node_id = ''b'', contract = sample_contract\<rparr>,
     ''c'' \<mapsto> \<lparr>resolved_node_id = ''c'', contract = sample_contract\<rparr>,
     ''a'' \<mapsto> \<lparr>resolved_node_id = ''a'', contract = sample_contract\<rparr>]"

lemma sample_resolves:
  "resolve_nodes sample_manifest sample_registry 0 (nodes sample_proposal) Map.empty = ([], sample_resolved)"
  by (simp add: sample_proposal_def sample_node_def sample_manifest_def manifest_declares_capability_def
      sample_registry_def registry_digest_def sample_resolved_def)

lemma sample_mappings: "check_mapping_loop sample_resolved 0 (mappings sample_proposal) = []"
proof -
  have res: "sample_resolved ''a'' = Some \<lparr>resolved_node_id = ''a'', contract = sample_contract\<rparr>"
      "sample_resolved ''c'' = Some \<lparr>resolved_node_id = ''c'', contract = sample_contract\<rparr>"
    by (simp_all add: sample_resolved_def)
  let ?m = "\<lparr>mapping_source = NodeSource ''a'', source_path = ''/y'', target_node_id = ''c'', target_path = ''/y''\<rparr>"
  let ?n = "\<lambda>v. \<lparr>resolved_node_id = v, contract = sample_contract\<rparr>"
  have "check_mapping sample_resolved 1 ?m = []"
    using check_mapping_Nil [of sample_resolved ?m "?n ''c''" "''a''" "?n ''a''" 1] sample_flow res by simp
  moreover have "check_mapping sample_resolved 0 \<lparr>mapping_source = InitialInput, source_path = ''/x'',
      target_node_id = ''a'', target_path = ''/x''\<rparr> = []"
    using res by (simp add: check_mapping_def source_node_def)
  ultimately show ?thesis by (simp add: sample_proposal_def)
qed

lemma sample_cross_validates:
  "validate_proposal_against_host_state sample_canonical sample_manifest sample_registry =
     Ok (map (\<lambda>v. \<lparr>resolved_node_id = v, contract = sample_contract\<rparr>) [''a'', ''b'', ''c''])"
proof -
  have "List.map_filter sample_resolved [''a'', ''b'', ''c''] =
      map (\<lambda>v. \<lparr>resolved_node_id = v, contract = sample_contract\<rparr>) [''a'', ''b'', ''c'']"
    by (simp add: List.map_filter_simps sample_resolved_def)
  then show ?thesis
    by (simp add: validate_proposal_against_host_state_def sample_canonical_def sample_resolves sample_mappings)
qed


end
