(* ===== verification/Artifact_Security.thy ===== *)
theory Artifact_Security
  imports Registry Proposal_Authorization
begin

text \<open>
  Artifact trust and caller attribution: \<^verbatim>\<open>crates/traverse-runtime/src/security.rs\<close>. The
  decision whether an artifact may run, the hexadecimal and base64url codecs it uses, and the
  identity that is read from a bearer token.

  SHA-256, the Ed25519 check (a valid key whose signature verifies), the governed-path
  registry and the JSON parser are the parameters of a \<open>SecurityPlatform\<close>.
\<close>

section \<open>Definitions\<close>

record SecurityPlatform =
  sp_sha256 :: "string \<Rightarrow> string"
  sp_ed25519_verify :: "string \<Rightarrow> string \<Rightarrow> string \<Rightarrow> bool"
  sp_governed_path :: "string \<Rightarrow> bool"
  sp_parse_json :: "string \<Rightarrow> json option"

record RuntimeIdentity =
  subject_id :: string
  actor_id :: "string option"
  token_reference_hash :: string

datatype RuntimeSecurityMode = Production | Development

datatype ArtifactVerificationStatus = Verified | Warning | Rejected

datatype ArtifactTrustLevel = LocalDev | PublishedGoverned

datatype ArtifactVerificationScheme = Ed25519 | Sigstore

record ArtifactVerificationRecord =
  av_status :: ArtifactVerificationStatus
  av_trust_level :: ArtifactTrustLevel
  av_scheme :: "ArtifactVerificationScheme option"
  av_warning_code :: "string option"
  av_error_code :: "string option"

record RuntimeWarning =
  warning_code :: string
  warning_message :: string

datatype ArtifactVerificationFailure =
  MissingChecksum ArtifactVerificationRecord
| ChecksumMismatch ArtifactVerificationRecord
| MissingSignature ArtifactVerificationRecord
| SignatureVerificationFailed ArtifactVerificationRecord
| SigstoreUnreachable ArtifactVerificationRecord

fun failure_code :: "ArtifactVerificationFailure \<Rightarrow> string" where
  "failure_code (MissingChecksum _) = ''missing_checksum''"
| "failure_code (ChecksumMismatch _) = ''checksum_mismatch''"
| "failure_code (MissingSignature _) = ''missing_signature''"
| "failure_code (SignatureVerificationFailed _) = ''signature_verification_failed''"
| "failure_code (SigstoreUnreachable _) = ''sigstore_unreachable''"

fun failure_record :: "ArtifactVerificationFailure \<Rightarrow> ArtifactVerificationRecord" where
  "failure_record (MissingChecksum r) = r"
| "failure_record (ChecksumMismatch r) = r"
| "failure_record (MissingSignature r) = r"
| "failure_record (SignatureVerificationFailed r) = r"
| "failure_record (SigstoreUnreachable r) = r"

subsection \<open>Codecs\<close>

definition HEX_TABLE :: string where
  "HEX_TABLE = ''0123456789abcdef''"

definition hex_byte :: "char \<Rightarrow> string" where
  "hex_byte c = [HEX_TABLE ! ((of_char c :: nat) div 16), HEX_TABLE ! ((of_char c :: nat) mod 16)]"

definition hex_encode :: "string \<Rightarrow> string" where
  "hex_encode bytes = concat (map hex_byte bytes)"

definition sha256_hex :: "SecurityPlatform \<Rightarrow> string \<Rightarrow> string" where
  "sha256_hex sp bytes = hex_encode (sp_sha256 sp bytes)"

definition hex_nibble :: "char \<Rightarrow> nat option" where
  "hex_nibble c =
     (let b = (of_char c :: nat)
      in if 48 \<le> b \<and> b \<le> 57 then Some (b - 48)
         else if 97 \<le> b \<and> b \<le> 102 then Some (b - 97 + 10)
         else if 65 \<le> b \<and> b \<le> 70 then Some (b - 65 + 10)
         else None)"

fun hex_pairs :: "string \<Rightarrow> string option" where
  "hex_pairs (h # l # rest) =
     (case hex_nibble h of
        None \<Rightarrow> None
      | Some high \<Rightarrow>
          (case hex_nibble l of
             None \<Rightarrow> None
           | Some low \<Rightarrow> map_option (\<lambda>out. char_of (high * 16 + low) # out) (hex_pairs rest)))"
| "hex_pairs _ = Some []"

definition hex_decode :: "string \<Rightarrow> string option" where
  "hex_decode input = (if odd (length input) then None else hex_pairs input)"

text \<open>The base64url decoder of this file, which unlike the one for approval tokens rejects an
  impossible length, works on groups of four.\<close>

definition sextet :: "char \<Rightarrow> nat option" where
  "sextet c =
     (let b = (of_char c :: nat)
      in if 65 \<le> b \<and> b \<le> 90 then Some (b - 65)
         else if 97 \<le> b \<and> b \<le> 122 then Some (b - 97 + 26)
         else if 48 \<le> b \<and> b \<le> 57 then Some (b - 48 + 52)
         else if b = 45 then Some 62
         else if b = 95 then Some 63
         else None)"

fun sextets :: "string \<Rightarrow> nat list option" where
  "sextets [] = Some []"
| "sextets (c # cs) =
     (case sextet c of None \<Rightarrow> None | Some v \<Rightarrow> map_option (\<lambda>vs. v # vs) (sextets cs))"

fun decode_groups :: "nat list \<Rightarrow> nat list" where
  "decode_groups (a # b # c # d # rest) =
     (let n = a * 2 ^ 18 + b * 2 ^ 12 + c * 2 ^ 6 + d
      in (n div 2 ^ 16 mod 256) # (n div 2 ^ 8 mod 256) # (n mod 256) # decode_groups rest)"
| "decode_groups [a, b, c] =
     (let n = a * 2 ^ 18 + b * 2 ^ 12 + c * 2 ^ 6 in [n div 2 ^ 16 mod 256, n div 2 ^ 8 mod 256])"
| "decode_groups [a, b] = (let n = a * 2 ^ 18 + b * 2 ^ 12 in [n div 2 ^ 16 mod 256])"
| "decode_groups _ = []"

definition base64url_decode_strict :: "string \<Rightarrow> string option" where
  "base64url_decode_strict input =
     (if CHR ''='' \<in> set input then None
      else (case sextets input of
              None \<Rightarrow> None
            | Some vs \<Rightarrow> if length vs mod 4 \<in> {0, 2, 3} then Some (map char_of (decode_groups vs)) else None))"

subsection \<open>Caller attribution\<close>

definition derive_identity_from_jwt :: "SecurityPlatform \<Rightarrow> string \<Rightarrow> RuntimeIdentity option" where
  "derive_identity_from_jwt sp token =
     (case split_on CHR ''.'' token of
        [header, payload, signature] \<Rightarrow>
          (case base64url_decode_strict payload of
             None \<Rightarrow> None
           | Some bytes \<Rightarrow>
               (case sp_parse_json sp bytes of
                  None \<Rightarrow> None
                | Some value \<Rightarrow>
                    (case non_blank (Option.bind (json_get value ''sub'') as_str) of
                       None \<Rightarrow> None
                     | Some sub \<Rightarrow>
                         Some \<lparr>subject_id = sub,
                               actor_id = non_blank (Option.bind (Option.bind (json_get value ''act'')
                                 (\<lambda>act. json_get act ''sub'')) as_str),
                               token_reference_hash = sha256_hex sp token\<rparr>)))
      | _ \<Rightarrow> None)"

subsection \<open>Artifact verification\<close>

definition artifact_trust_level :: "SecurityPlatform \<Rightarrow> ResolvedCapability \<Rightarrow> ArtifactTrustLevel" where
  "artifact_trust_level sp capability =
     (if artifact_source_kind (rc_artifact capability) = LocalSource then LocalDev
      else if sp_governed_path sp (rec_contract_path (rc_record capability)) then PublishedGoverned
      else LocalDev)"

definition verified_local_record :: "ArtifactTrustLevel \<Rightarrow> ArtifactVerificationRecord" where
  "verified_local_record trust = \<lparr>av_status = Verified, av_trust_level = trust, av_scheme = None,
     av_warning_code = None, av_error_code = None\<rparr>"

definition rejected_record ::
  "ArtifactTrustLevel \<Rightarrow> ArtifactVerificationScheme option \<Rightarrow> string \<Rightarrow> ArtifactVerificationRecord" where
  "rejected_record trust scheme code = \<lparr>av_status = Rejected, av_trust_level = trust, av_scheme = scheme,
     av_warning_code = None, av_error_code = Some code\<rparr>"

definition signature_verification_failed :: "ArtifactTrustLevel \<Rightarrow> ArtifactVerificationFailure" where
  "signature_verification_failed trust =
     SignatureVerificationFailed (rejected_record trust (Some Ed25519) ''signature_verification_failed'')"

definition verified_ed25519_record :: "ArtifactTrustLevel \<Rightarrow> ArtifactVerificationRecord" where
  "verified_ed25519_record trust = \<lparr>av_status = Verified, av_trust_level = trust, av_scheme = Some Ed25519,
     av_warning_code = None, av_error_code = None\<rparr>"

definition verify_ed25519 ::
  "SecurityPlatform \<Rightarrow> ArtifactSignature \<Rightarrow> string \<Rightarrow> ArtifactTrustLevel \<Rightarrow>
     (ArtifactVerificationRecord, ArtifactVerificationFailure) result" where
  "verify_ed25519 sp signature artifact_bytes trust =
     and_then (ok_or (public_key_hex signature) (signature_verification_failed trust)) (\<lambda>key_hex.
     and_then (ok_or (signature_hex signature) (signature_verification_failed trust)) (\<lambda>sig_hex.
     and_then (ok_or (hex_decode key_hex) (signature_verification_failed trust)) (\<lambda>key_bytes.
     and_then (ok_or (hex_decode sig_hex) (signature_verification_failed trust)) (\<lambda>sig_bytes.
       if length key_bytes \<noteq> 32 then Err (signature_verification_failed trust)
       else if length sig_bytes \<noteq> 64 then Err (signature_verification_failed trust)
       else if \<not> sp_ed25519_verify sp key_bytes artifact_bytes sig_bytes
       then Err (signature_verification_failed trust)
       else Ok (verified_ed25519_record trust)))))"

definition verify_sigstore ::
  "ArtifactTrustLevel \<Rightarrow> (ArtifactVerificationRecord, ArtifactVerificationFailure) result" where
  "verify_sigstore trust = Err (SigstoreUnreachable (rejected_record trust (Some Sigstore) ''sigstore_unreachable''))"

definition eq_ignore_ascii_case :: "string \<Rightarrow> string \<Rightarrow> bool" where
  "eq_ignore_ascii_case a b \<longleftrightarrow> to_ascii_lowercase a = to_ascii_lowercase b"

definition strip_sha256 :: "string \<Rightarrow> string" where
  "strip_sha256 expected = (case strip_prefix ''sha256:'' expected of Some d \<Rightarrow> d | None \<Rightarrow> expected)"

definition verify_checksum ::
  "SecurityPlatform \<Rightarrow> ResolvedCapability \<Rightarrow> string \<Rightarrow> ArtifactTrustLevel \<Rightarrow>
     (unit, ArtifactVerificationFailure) result" where
  "verify_checksum sp capability artifact_bytes trust =
     (if trust \<noteq> PublishedGoverned then Ok ()
      else (case binary_digest (rc_artifact capability) of
              None \<Rightarrow> Err (MissingChecksum (rejected_record trust None ''missing_checksum''))
            | Some expected \<Rightarrow>
                if eq_ignore_ascii_case (strip_sha256 expected) (sha256_hex sp artifact_bytes) then Ok ()
                else Err (ChecksumMismatch (rejected_record trust None ''checksum_mismatch''))))"

definition unsigned_local_record :: "ArtifactTrustLevel \<Rightarrow> ArtifactVerificationRecord" where
  "unsigned_local_record trust = \<lparr>av_status = Warning, av_trust_level = trust, av_scheme = None,
     av_warning_code = Some ''unsigned_local_dev_artifact'', av_error_code = None\<rparr>"

definition verify_artifact ::
  "SecurityPlatform \<Rightarrow> ResolvedCapability \<Rightarrow> string \<Rightarrow> RuntimeSecurityMode \<Rightarrow>
     (ArtifactVerificationRecord, ArtifactVerificationFailure) result" where
  "verify_artifact sp capability artifact_bytes mode =
     (let trust = artifact_trust_level sp capability
      in case artifact_binary (rc_artifact capability) of
           None \<Rightarrow> Ok (verified_local_record trust)
         | Some binary \<Rightarrow>
             (case binary_signature binary of
                None \<Rightarrow>
                  if trust = LocalDev \<and> mode = Development then Ok (unsigned_local_record trust)
                  else Err (MissingSignature (rejected_record trust None ''missing_signature''))
              | Some signature \<Rightarrow>
                  and_then (case signature_scheme signature of
                              Ed25519Signature \<Rightarrow> verify_ed25519 sp signature artifact_bytes trust
                            | SigstoreSignature \<Rightarrow> verify_sigstore trust) (\<lambda>verification.
                  and_then (verify_checksum sp capability artifact_bytes trust) (\<lambda>_.
                  Ok verification))))"

section \<open>Lemmas\<close>

subsection \<open>Hexadecimal\<close>

lemma of_char_HEX_TABLE: "v < 16 \<Longrightarrow> (of_char (HEX_TABLE ! v) :: nat) = (if v < 10 then 48 + v else 87 + v)"
proof -
  have "list_all (\<lambda>v. (of_char (HEX_TABLE ! v) :: nat) = (if v < 10 then 48 + v else 87 + v)) [0..<16]"
    by code_simp
  moreover assume "v < 16"
  ultimately show ?thesis unfolding list_all_iff set_upt by (metis atLeastLessThan_iff zero_le)
qed

definition lower_char :: "char \<Rightarrow> char" where
  "lower_char c = (if is_ascii_uppercase c then char_of ((of_char c :: nat) + 32) else c)"

lemma to_ascii_lowercase_map: "to_ascii_lowercase s = map lower_char s"
  by (simp add: to_ascii_lowercase_def lower_char_def)

lemma of_char_lower_char:
  "(of_char (lower_char c) :: nat) =
     (if 65 \<le> (of_char c :: nat) \<and> (of_char c :: nat) \<le> 90 then of_char c + 32 else of_char c)"
  by (simp add: lower_char_def is_ascii_uppercase_def)

lemma hex_nibble_iff: "hex_nibble c = Some v \<longleftrightarrow> v < 16 \<and> lower_char c = HEX_TABLE ! v"
proof -
  have inj: "lower_char c = HEX_TABLE ! v \<longleftrightarrow> (of_char (lower_char c) :: nat) = of_char (HEX_TABLE ! v)"
    by (simp add: of_char_eq_iff)
  show ?thesis
  proof (cases "v < 16")
    case True
    then show ?thesis
      unfolding inj of_char_HEX_TABLE [OF True] of_char_lower_char hex_nibble_def Let_def
      by (auto split: if_splits)
  next
    case False
    then show ?thesis by (auto simp: hex_nibble_def Let_def split: if_splits)
  qed
qed

lemma hex_byte_length [simp]: "length (hex_encode bs) = 2 * length bs"
  by (induction bs) (auto simp: hex_encode_def hex_byte_def)

lemma of_char_less: "(of_char c :: nat) < 256"
  by (metis mod_less_divisor of_char_mod_256 zero_less_numeral)

lemma char_of_nibbles:
  assumes "x < 16" "y < (16 :: nat)"
  shows "char_of (x * 16 + y) = b \<longleftrightarrow> x = of_char b div 16 \<and> y = of_char b mod 16"
proof -
  have "char_of (x * 16 + y) = b \<longleftrightarrow> x * 16 + y = of_char b"
  proof
    assume "char_of (x * 16 + y) = b"
    then have "(of_char b :: nat) = (x * 16 + y) mod 256" by auto
    then show "x * 16 + y = of_char b" using assms by simp
  qed simp
  also have "\<dots> \<longleftrightarrow> x = of_char b div 16 \<and> y = of_char b mod 16"
  proof
    assume e: "x * 16 + y = of_char b"
    show "x = of_char b div 16 \<and> y = of_char b mod 16"
      using assms unfolding e [symmetric] by simp
  qed simp
  finally show ?thesis .
qed

lemma hex_pairs_iff:
  "even (length s) \<Longrightarrow> hex_pairs s = Some bs \<longleftrightarrow> map lower_char s = hex_encode bs"
proof (induction s arbitrary: bs rule: hex_pairs.induct)
  case (1 h l rest)
  show ?case
  proof (cases bs)
    case Nil
    then show ?thesis by (auto simp: hex_encode_def split: option.splits)
  next
    case (Cons b bs')
    have b: "(of_char b :: nat) div 16 < 16" "(of_char b :: nat) mod 16 < 16"
      using of_char_less [of b] by (auto simp: less_mult_imp_div_less)
    have "hex_pairs (h # l # rest) = Some bs \<longleftrightarrow>
        (\<exists>x y. hex_nibble h = Some x \<and> hex_nibble l = Some y \<and> char_of (x * 16 + y) = b \<and> hex_pairs rest = Some bs')"
      unfolding Cons by (auto split: option.splits)
    also have "\<dots> \<longleftrightarrow> (\<exists>x y. hex_nibble h = Some x \<and> hex_nibble l = Some y \<and> char_of (x * 16 + y) = b
        \<and> map lower_char rest = hex_encode bs')"
      using "1.IH" [of _ _ bs'] "1.prems" by auto
    also have "\<dots> \<longleftrightarrow> hex_nibble h = Some (of_char b div 16) \<and> hex_nibble l = Some (of_char b mod 16)
        \<and> map lower_char rest = hex_encode bs'"
      using char_of_nibbles hex_nibble_iff b by (metis (no_types, lifting))
    also have "\<dots> \<longleftrightarrow> map lower_char (h # l # rest) = hex_encode bs"
      using b by (simp add: Cons hex_encode_def hex_byte_def hex_nibble_iff)
    finally show ?thesis .
  qed
next
  case "2_1"
  then show ?case by (cases bs) (simp_all add: hex_encode_def hex_byte_def)
qed simp

subsection \<open>The two base64url decoders\<close>

lemma of_char_alphabet:
  assumes "v < 64"
  shows "(of_char (base64_alphabet ! v) :: nat) =
    (if v < 26 then 65 + v else if v < 52 then 71 + v else if v < 62 then v - 4 else if v = 62 then 45 else 95)"
proof -
  have "map of_char base64_alphabet =
      map (\<lambda>v. if v < 26 then 65 + v else if v < 52 then 71 + v else if v < 62 then v - 4 else if v = 62 then 45 else 95)
        [0..<64 :: nat]"
    by (simp add: base64_alphabet_def upt_rec_numeral upt_conv_Cons)
  then have "map of_char base64_alphabet ! v =
      map (\<lambda>v. if v < 26 then 65 + v else if v < 52 then 71 + v else if v < 62 then v - 4 else if v = 62 then 45 else 95)
        [0..<64 :: nat] ! v" by simp
  moreover have "length base64_alphabet = 64" by (simp add: base64_alphabet_def)
  ultimately show ?thesis using assms by simp
qed

lemma sextet_iff: "sextet c = Some v \<longleftrightarrow> v < 64 \<and> c = base64_alphabet ! v"
proof -
  have inj: "c = base64_alphabet ! v \<longleftrightarrow> (of_char c :: nat) = of_char (base64_alphabet ! v)"
    by (simp add: of_char_eq_iff)
  show ?thesis
  proof (cases "v < 64")
    case True
    then show ?thesis
      unfolding inj of_char_alphabet [OF True] sextet_def Let_def by (auto split: if_splits)
  next
    case False
    then show ?thesis by (auto simp: sextet_def Let_def split: if_splits)
  qed
qed

lemma position_of_nth: "position_of c xs = Some i \<Longrightarrow> xs ! i = c"
  by (induction xs arbitrary: i) (auto split: if_splits)

lemma sextet_eq: "sextet c = base64_value c"
proof (cases "base64_value c")
  case None
  then have "c \<notin> set base64_alphabet" by (simp add: base64_value_None)
  moreover have "length base64_alphabet = 64" by (simp add: base64_alphabet_def)
  ultimately have "sextet c \<noteq> Some v" for v by (auto simp: sextet_iff)
  with None show ?thesis by (cases "sextet c") auto
next
  case (Some v)
  then have "v < 64" "base64_alphabet ! v = c"
    using base64_value_less position_of_nth by (auto simp: base64_value_def)
  then have "sextet c = Some v" by (simp add: sextet_iff)
  with Some show ?thesis by simp
qed

lemma sextets_iff: "sextets cs = Some vs \<longleftrightarrow> list_all2 (\<lambda>c v. base64_value c = Some v) cs vs"
  by (induction cs arbitrary: vs) (auto simp: sextet_eq list_all2_Cons1 split: option.splits)

lemma sextets_None: "sextets cs = None \<longleftrightarrow> \<not> set cs \<subseteq> set base64_alphabet"
proof (induction cs)
  case (Cons c cs)
  then show ?case using base64_value_None [of c] by (cases "base64_value c") (auto simp: sextet_eq)
qed simp

text \<open>The low bits of the shifted buffer are the digits read so far.\<close>

lemma buffer_low_bits:
  fixes buf v :: nat
  assumes "v < 64" "k + 6 \<le> 32"
  shows "((buf * 64) mod 2 ^ 32 + v) mod 2 ^ (k + 6) = (buf mod 2 ^ k) * 64 + v"
proof -
  have dvd: "(2 :: nat) ^ (k + 6) dvd 2 ^ 32" using assms(2) by (rule le_imp_power_dvd)
  have "((buf * 64) mod 2 ^ 32 + v) mod 2 ^ (k + 6) = (buf * 64 + v) mod 2 ^ (k + 6)"
    using mod_mod_cancel [OF dvd, of "buf * 64"] by (metis mod_add_left_eq)
  also have "\<dots> = (buf * 64 + v) mod (64 * 2 ^ k)" by (simp add: power_add mult.commute)
  also have "\<dots> = 64 * ((buf * 64 + v) div 64 mod 2 ^ k) + (buf * 64 + v) mod 64"
    by (rule mod_mult2_eq)
  also have "\<dots> = (buf mod 2 ^ k) * 64 + v" using assms(1) by simp
  finally show ?thesis .
qed

lemma byte_of_low_bits: "(m :: nat) div 2 ^ j mod 256 = m mod 2 ^ (j + 8) div 2 ^ j mod 256"
proof -
  have "m mod 2 ^ (j + 8) div 2 ^ j = m div 2 ^ j mod 2 ^ 8"
    unfolding drop_bit_eq_div [symmetric] take_bit_eq_mod [symmetric] by (simp add: drop_bit_take_bit)
  then show ?thesis by simp
qed

lemma base64_loop_step:
  assumes "base64_value c = Some v" "b = (buf * 64) mod 2 ^ 32 + v"
  shows "base64_loop (c # cs) buf 0 out = base64_loop cs b 6 out"
    and "base64_loop (c # cs) buf 6 out = base64_loop cs b 4 (out @ [b div 2 ^ 4 mod 256])"
    and "base64_loop (c # cs) buf 4 out = base64_loop cs b 2 (out @ [b div 2 ^ 2 mod 256])"
    and "base64_loop (c # cs) buf 2 out = base64_loop cs b 0 (out @ [b mod 256])"
  using assms by (simp_all add: Let_def)

lemma base64_loop_two:
  assumes "base64_value c1 = Some v1" "base64_value c2 = Some v2"
  shows "\<exists>buf'. base64_loop (c1 # c2 # cs) buf 0 out =
      base64_loop cs buf' 4 (out @ [(v1 * 64 + v2) div 16]) \<and> buf' mod 2 ^ 12 = v1 * 64 + v2"
proof -
  define b1 where "b1 = (buf * 64) mod 2 ^ 32 + v1"
  define b2 where "b2 = (b1 * 64) mod 2 ^ 32 + v2"
  have v: "v1 < 64" "v2 < 64" using assms base64_value_less by auto
  have "b1 mod 2 ^ (0 + 6) = (buf mod 2 ^ 0) * 64 + v1" unfolding b1_def by (rule buffer_low_bits) (use v in auto)
  then have b1: "b1 mod 2 ^ 6 = v1" by simp
  have "b2 mod 2 ^ (6 + 6) = (b1 mod 2 ^ 6) * 64 + v2" unfolding b2_def by (rule buffer_low_bits) (use v in auto)
  then have b2: "b2 mod 2 ^ 12 = v1 * 64 + v2" unfolding b1 by simp
  have "b2 div 2 ^ 4 mod 256 = b2 mod 2 ^ (4 + 8) div 2 ^ 4 mod 256" by (rule byte_of_low_bits)
  also have "\<dots> = b2 mod 2 ^ 12 div 2 ^ 4 mod 256" by simp
  also have "\<dots> = (v1 * 64 + v2) div 16" unfolding b2 using v by simp
  finally have "base64_loop (c1 # c2 # cs) buf 0 out = base64_loop cs b2 4 (out @ [(v1 * 64 + v2) div 16])"
    unfolding base64_loop_step(1) [OF assms(1) b1_def] base64_loop_step(2) [OF assms(2) b2_def] by simp
  with b2 show ?thesis by blast
qed

lemma base64_loop_third:
  assumes "base64_value c = Some v" "buf mod 2 ^ 12 = w" "w < 4096"
  shows "\<exists>buf'. base64_loop (c # cs) buf 4 out =
      base64_loop cs buf' 2 (out @ [(w * 64 + v) div 4 mod 256]) \<and> buf' mod 2 ^ 18 = w * 64 + v"
proof -
  define b where "b = (buf * 64) mod 2 ^ 32 + v"
  have v: "v < 64" using assms base64_value_less by auto
  have "b mod 2 ^ (12 + 6) = (buf mod 2 ^ 12) * 64 + v" unfolding b_def by (rule buffer_low_bits) (use v in auto)
  then have b18: "b mod 2 ^ 18 = w * 64 + v" unfolding assms(2) by simp
  have "b mod 2 ^ 18 mod 2 ^ 10 = b mod 2 ^ 10" by (rule mod_mod_cancel) (simp add: le_imp_power_dvd)
  then have b10: "b mod 2 ^ 10 = (w * 64 + v) mod 2 ^ 10" unfolding b18 by (rule sym)
  have "b div 2 ^ 2 mod 256 = b mod 2 ^ (2 + 8) div 2 ^ 2 mod 256" by (rule byte_of_low_bits)
  also have "\<dots> = (w * 64 + v) mod 2 ^ (2 + 8) div 2 ^ 2 mod 256" using b10 by simp
  also have "\<dots> = (w * 64 + v) div 2 ^ 2 mod 256" by (rule byte_of_low_bits [symmetric])
  finally have "base64_loop (c # cs) buf 4 out = base64_loop cs b 2 (out @ [(w * 64 + v) div 4 mod 256])"
    unfolding base64_loop_step(3) [OF assms(1) b_def] by simp
  with b18 show ?thesis by blast
qed

lemma base64_loop_fourth:
  assumes "base64_value c = Some v" "buf mod 2 ^ 18 = w" "w < 2 ^ 18"
  shows "\<exists>buf'. base64_loop (c # cs) buf 2 out = base64_loop cs buf' 0 (out @ [(w * 64 + v) mod 256])"
proof -
  define b where "b = (buf * 64) mod 2 ^ 32 + v"
  have v: "v < 64" using assms base64_value_less by auto
  have "b mod 2 ^ (18 + 6) = (buf mod 2 ^ 18) * 64 + v" unfolding b_def by (rule buffer_low_bits) (use v in auto)
  then have b24: "b mod 2 ^ 24 = w * 64 + v" unfolding assms(2) by simp
  have "b mod 2 ^ 24 mod 2 ^ 8 = b mod 2 ^ 8" by (rule mod_mod_cancel) (simp add: le_imp_power_dvd)
  then have "b mod 256 = (w * 64 + v) mod 256" unfolding b24 by simp
  then have "base64_loop (c # cs) buf 2 out = base64_loop cs b 0 (out @ [(w * 64 + v) mod 256])"
    unfolding base64_loop_step(4) [OF assms(1) b_def] by simp
  then show ?thesis by blast
qed

lemma group_bytes:
  fixes a b c d :: nat
  assumes "a < 64" "b < 64" "c < 64" "d < 64"
  shows "(a * 2 ^ 18 + b * 2 ^ 12 + c * 2 ^ 6 + d) div 2 ^ 16 mod 256 = (a * 64 + b) div 16"
    and "(a * 2 ^ 18 + b * 2 ^ 12 + c * 2 ^ 6 + d) div 2 ^ 8 mod 256 = ((a * 64 + b) * 64 + c) div 4 mod 256"
    and "(a * 2 ^ 18 + b * 2 ^ 12 + c * 2 ^ 6 + d) mod 256 = (((a * 64 + b) * 64 + c) * 64 + d) mod 256"
proof -
  let ?w = "a * 64 + b" and ?n = "a * 2 ^ 18 + b * 2 ^ 12 + c * 2 ^ 6 + d"
  have n1: "?n = ?w * 2 ^ 12 + (c * 64 + d)" and n2: "?n = (?w * 64 + c) * 2 ^ 6 + d" by simp_all
  have "?n div 2 ^ 12 = ?w" unfolding n1 using assms by simp
  then have "?n div 2 ^ 12 div 2 ^ 4 = ?w div 16" by simp
  then have "?n div 2 ^ 16 = ?w div 16" by (simp flip: div_mult2_eq)
  then show "?n div 2 ^ 16 mod 256 = ?w div 16" using assms by simp
  have "?n div 2 ^ 6 = ?w * 64 + c" unfolding n2 using assms by simp
  then have "?n div 2 ^ 6 div 2 ^ 2 = (?w * 64 + c) div 4" by simp
  then show "?n div 2 ^ 8 mod 256 = (?w * 64 + c) div 4 mod 256" by (simp flip: div_mult2_eq)
  show "?n mod 256 = ((?w * 64 + c) * 64 + d) mod 256" by (simp add: algebra_simps)
qed

lemma base64_loop_groups:
  assumes "list_all2 (\<lambda>c v. base64_value c = Some v) cs vs" "length vs mod 4 \<noteq> 1"
  shows "base64_loop cs buf 0 out = Some (out @ decode_groups vs)"
  using assms
proof (induction vs arbitrary: cs buf out rule: decode_groups.induct)
  case (1 a b c d rest)
  then obtain c1 c2 c3 c4 cs' where cs: "cs = c1 # c2 # c3 # c4 # cs'"
    and val: "base64_value c1 = Some a" "base64_value c2 = Some b" "base64_value c3 = Some c" "base64_value c4 = Some d"
    and rest: "list_all2 (\<lambda>c v. base64_value c = Some v) cs' rest"
    by (auto simp: list_all2_Cons2)
  have lt: "a < 64" "b < 64" "c < 64" "d < 64" using val base64_value_less by auto
  let ?w = "a * 64 + b"
  have w: "?w < 4096" "?w * 64 + c < 2 ^ 18" using lt by simp_all
  obtain b2 where l2: "base64_loop cs buf 0 out = base64_loop (c3 # c4 # cs') b2 4 (out @ [?w div 16])"
    and b2: "b2 mod 2 ^ 12 = ?w"
    using base64_loop_two [OF val(1,2)] unfolding cs by blast
  obtain b3 where l3: "base64_loop (c3 # c4 # cs') b2 4 (out @ [?w div 16]) =
      base64_loop (c4 # cs') b3 2 ((out @ [?w div 16]) @ [(?w * 64 + c) div 4 mod 256])"
    and b3: "b3 mod 2 ^ 18 = ?w * 64 + c"
    using base64_loop_third [OF val(3) b2 w(1)] by blast
  obtain b4 where l4: "base64_loop (c4 # cs') b3 2 ((out @ [?w div 16]) @ [(?w * 64 + c) div 4 mod 256]) =
      base64_loop cs' b4 0 (((out @ [?w div 16]) @ [(?w * 64 + c) div 4 mod 256]) @ [((?w * 64 + c) * 64 + d) mod 256])"
    using base64_loop_fourth [OF val(4) b3 w(2)] by blast
  have "length rest mod 4 \<noteq> 1" using "1.prems"(2) by simp
  then show ?case
    using "1.IH" [OF refl rest] unfolding l2 l3 l4 decode_groups.simps Let_def group_bytes [OF lt] by simp
next
  case (2 a b c)
  then obtain c1 c2 c3 where cs: "cs = [c1, c2, c3]"
    and val: "base64_value c1 = Some a" "base64_value c2 = Some b" "base64_value c3 = Some c"
    by (auto simp: list_all2_Cons2)
  have lt: "a < 64" "b < 64" "c < 64" "0 < (64 :: nat)" using val base64_value_less by auto
  let ?w = "a * 64 + b"
  have w: "?w < 4096" using lt by simp
  obtain b2 where l2: "base64_loop cs buf 0 out = base64_loop [c3] b2 4 (out @ [?w div 16])"
    and b2: "b2 mod 2 ^ 12 = ?w"
    using base64_loop_two [OF val(1,2)] unfolding cs by blast
  obtain b3 where l3: "base64_loop [c3] b2 4 (out @ [?w div 16]) =
      base64_loop [] b3 2 ((out @ [?w div 16]) @ [(?w * 64 + c) div 4 mod 256])"
    using base64_loop_third [OF val(3) b2 w] by blast
  show ?case
    unfolding l2 l3 decode_groups.simps Let_def using group_bytes(1,2) [OF lt] by simp
next
  case (3 a b)
  then obtain c1 c2 where cs: "cs = [c1, c2]" and val: "base64_value c1 = Some a" "base64_value c2 = Some b"
    by (auto simp: list_all2_Cons2)
  have lt: "a < 64" "b < 64" "0 < (64 :: nat)" "0 < (64 :: nat)" using val base64_value_less by auto
  obtain b2 where l2: "base64_loop cs buf 0 out = base64_loop [] b2 4 (out @ [(a * 64 + b) div 16])"
    using base64_loop_two [OF val(1,2)] unfolding cs by blast
  show ?case
    unfolding l2 decode_groups.simps Let_def using group_bytes(1) [OF lt] by simp
qed simp_all

subsection \<open>Verification\<close>

lemma lower_char_HEX_TABLE: "v < 16 \<Longrightarrow> lower_char (HEX_TABLE ! v) = HEX_TABLE ! v"
  by (simp add: lower_char_def is_ascii_uppercase_def of_char_HEX_TABLE)

lemma lower_hex_encode [simp]: "to_ascii_lowercase (hex_encode bs) = hex_encode bs"
proof -
  have "(of_char b :: nat) div 16 < 16" for b using of_char_less [of b] by (simp add: less_mult_imp_div_less)
  then show ?thesis
    unfolding to_ascii_lowercase_map
    by (induction bs) (simp_all add: hex_encode_def hex_byte_def lower_char_HEX_TABLE)
qed

text \<open>The signature data decode to a key and a signature of the right sizes that verify.\<close>

definition signed_by :: "SecurityPlatform \<Rightarrow> ArtifactSignature \<Rightarrow> string \<Rightarrow> bool" where
  "signed_by sp s bytes \<longleftrightarrow>
     (\<exists>key_hex sig_hex key sig. public_key_hex s = Some key_hex \<and> signature_hex s = Some sig_hex
        \<and> hex_decode key_hex = Some key \<and> hex_decode sig_hex = Some sig
        \<and> length key = 32 \<and> length sig = 64 \<and> sp_ed25519_verify sp key bytes sig)"

lemma verify_ed25519_Ok_iff:
  "verify_ed25519 sp s bytes trust = Inr r \<longleftrightarrow> signed_by sp s bytes \<and> r = verified_ed25519_record trust"
  by (auto simp: verify_ed25519_def signed_by_def and_then_Inr_iff)

lemma verify_ed25519_Err: "verify_ed25519 sp s bytes trust = Inl e \<Longrightarrow> e = signature_verification_failed trust"
  by (auto simp: verify_ed25519_def and_then_Inl_iff split: if_splits)

definition checksum_matches :: "SecurityPlatform \<Rightarrow> ResolvedCapability \<Rightarrow> string \<Rightarrow> bool" where
  "checksum_matches sp cap bytes \<longleftrightarrow>
     (\<exists>d. binary_digest (rc_artifact cap) = Some d \<and> to_ascii_lowercase (strip_sha256 d) = sha256_hex sp bytes)"

lemma verify_checksum_Ok_iff:
  "verify_checksum sp cap bytes trust = Inr u \<longleftrightarrow> trust = LocalDev \<or> checksum_matches sp cap bytes"
  by (cases trust)
     (auto simp: verify_checksum_def checksum_matches_def eq_ignore_ascii_case_def sha256_hex_def split: option.splits)

section \<open>Properties\<close>

text \<open>
  The two base64url decoders of the runtime agree: the strict decoder, which works on groups
  of four characters, rejects exactly the inputs whose length is one more than a multiple of
  four, and on every other input gives the same result as the decoder of the approval tokens,
  which shifts characters through a 32-bit buffer.
\<close>

theorem base64url_decoders_agree:
  "base64url_decode_strict s = (if length s mod 4 = 1 then None else base64url_decode s)"
proof (cases "sextets s")
  case None
  then have "\<not> set s \<subseteq> set base64_alphabet" by (simp add: sextets_None)
  moreover have "case base64_loop s 0 0 [] of None \<Rightarrow> \<not> set s \<subseteq> set base64_alphabet
      | Some res \<Rightarrow> set s \<subseteq> set base64_alphabet"
    using base64_loop_value [of 0 "[]" 0 0 s] by (auto simp: be_value_def split: option.splits)
  ultimately have "base64url_decode s = None" by (auto simp: base64url_decode_def split: option.splits)
  with None show ?thesis by (simp add: base64url_decode_strict_def)
next
  case (Some vs)
  then have all2: "list_all2 (\<lambda>c v. base64_value c = Some v) s vs" by (simp add: sextets_iff)
  then have len: "length vs = length s" by (simp add: list_all2_lengthD)
  have "sextets s \<noteq> None" using Some by simp
  then have "set s \<subseteq> set base64_alphabet" by (simp add: sextets_None)
  then have eq: "CHR ''='' \<notin> set s" by (auto simp: base64_alphabet_def)
  have "length s mod 4 < 4" by simp
  then have mod: "length s mod 4 \<in> {0, 2, 3} \<longleftrightarrow> length s mod 4 \<noteq> 1" by auto
  show ?thesis
    using base64_loop_groups [OF all2, of 0 "[]"] Some eq mod
    by (simp add: base64url_decode_strict_def base64url_decode_def len)
qed

text \<open>
  Hexadecimal decoding is exact: \<^verbatim>\<open>hex_decode\<close> yields bytes exactly for the strings that
  equal their hexadecimal form up to the case of the letters, so that it inverts the encoder
  and accepts nothing else.
\<close>

theorem hex_decode_exact:
  "hex_decode s = Some bytes \<longleftrightarrow> to_ascii_lowercase s = hex_encode bytes"
proof (cases "even (length s)")
  case True
  then show ?thesis by (simp add: hex_decode_def hex_pairs_iff to_ascii_lowercase_map)
next
  case False
  then have "length (map lower_char s) \<noteq> length (hex_encode bytes)" by auto
  then have "map lower_char s \<noteq> hex_encode bytes" by metis
  with False show ?thesis by (simp add: hex_decode_def to_ascii_lowercase_map)
qed

text \<open>
  C11: What may run. Verification accepts an artifact exactly in three cases: it has no
  binary; it is unsigned, of local trust, and the runtime is in development mode; or it
  carries an Ed25519 signature that verifies over the artifact bytes under a 32-byte key and,
  when it is of governed trust, its recorded checksum is the SHA-256 of those bytes. The record
  of each case says which one it was. In production no unsigned binary is accepted, and
  a Sigstore signature never is.
\<close>

theorem artifact_admission:
  "verify_artifact sp cap bytes mode = Ok r \<longleftrightarrow>
     artifact_binary (rc_artifact cap) = None \<and> r = verified_local_record (artifact_trust_level sp cap)
   \<or> (\<exists>b. artifact_binary (rc_artifact cap) = Some b \<and> binary_signature b = None
        \<and> artifact_trust_level sp cap = LocalDev \<and> mode = Development \<and> r = unsigned_local_record LocalDev)
   \<or> (\<exists>b s. artifact_binary (rc_artifact cap) = Some b \<and> binary_signature b = Some s
        \<and> signature_scheme s = Ed25519Signature \<and> signed_by sp s bytes
        \<and> (artifact_trust_level sp cap = LocalDev \<or> checksum_matches sp cap bytes)
        \<and> r = verified_ed25519_record (artifact_trust_level sp cap))"
proof (cases "artifact_binary (rc_artifact cap)")
  case None
  then show ?thesis by (auto simp: verify_artifact_def Let_def)
next
  case (Some b)
  show ?thesis
  proof (cases "binary_signature b")
    case None
    with Some show ?thesis by (auto simp: verify_artifact_def Let_def)
  next
    case (Some s)
    with \<open>artifact_binary (rc_artifact cap) = Some b\<close> show ?thesis
      by (cases "signature_scheme s")
         (auto simp: verify_artifact_def Let_def and_then_Inr_iff verify_ed25519_Ok_iff verify_checksum_Ok_iff verify_sigstore_def)
  qed
qed

text \<open>A failure carries a rejected record with the failure's own code.\<close>

lemma artifact_rejection_record:
  "verify_artifact sp cap bytes mode = Inl e \<Longrightarrow>
     av_status (failure_record e) = Rejected \<and> av_error_code (failure_record e) = Some (failure_code e)"
  by (auto simp: verify_artifact_def Let_def and_then_Inl_iff verify_sigstore_def verify_checksum_def
      signature_verification_failed_def rejected_record_def dest!: verify_ed25519_Err
      split: option.splits if_splits ArtifactSignatureScheme.splits)

end
