(* ===== verification/Event_Types.thy ===== *)
theory Event_Types
  imports Contracts
begin

text \<open>
  Events and their envelope profile: \<^verbatim>\<open>crates/traverse-runtime/src/events/types.rs\<close> and
  \<^verbatim>\<open>crates/traverse-runtime/src/events/validation.rs\<close>. The \<^verbatim>\<open>EventBroker\<close> trait is a record of
  operations on the state of an implementation; its client is the workflow traversal, its
  provider the in-process broker (\<open>Event_Broker\<close>). Whether \<^verbatim>\<open>Version::parse\<close> succeeds is the
  parameter \<open>version_ok\<close>.
\<close>

section \<open>Definitions\<close>

datatype LifecycleStatus = EventDraft | EventActive | EventDeprecated

record TraverseEvent =
  te_id :: string
  te_source :: string
  te_event_type :: string
  te_datacontenttype :: string
  te_time :: string
  te_data :: json
  te_owner :: string
  te_version :: string
  te_lifecycle_status :: LifecycleStatus
  te_deduplication_id :: "string option"
  te_ordering_scope :: "string option"
  te_correlation_id :: "string option"
  te_causation_id :: "string option"
  te_subject_id :: "string option"
  te_actor_id :: "string option"

datatype EventError =
  ValidationRejected string
| LifecycleViolation string
| UnregisteredEventType string
| InvalidCursor string
| CursorExpired string string
| SubscriptionNotFound string
| InvalidRetentionWindow string
| JournalWrite string
| JournalWriteTimeout string
| JournalRead string

fun event_error_display :: "EventError \<Rightarrow> string" where
  "event_error_display (ValidationRejected code) = ''event validation rejected: '' @ code"
| "event_error_display (LifecycleViolation msg) = ''lifecycle violation: '' @ msg"
| "event_error_display (UnregisteredEventType t) = ''unregistered event type: '' @ t"
| "event_error_display (InvalidCursor msg) = ''invalid cursor: '' @ msg"
| "event_error_display (CursorExpired event_type oldest) =
     ''cursor expired for event type '' @ [CHR 0x27] @ event_type @ [CHR 0x27]
       @ '': oldest available cursor is '' @ oldest"
| "event_error_display (SubscriptionNotFound i) = ''subscription not found: '' @ i"
| "event_error_display (InvalidRetentionWindow msg) = ''invalid retention window: '' @ msg"
| "event_error_display (JournalWrite msg) = ''journal write failed: '' @ msg"
| "event_error_display (JournalWriteTimeout msg) = ''journal_write_timeout: '' @ msg"
| "event_error_display (JournalRead msg) = ''journal read failed: '' @ msg"

record BrokerEvent =
  bev_cursor :: string
  bev_event :: TraverseEvent

record Subscription =
  sub_subscription_id :: string
  sub_event_type :: string
  sub_cursor :: string

record SubscriptionPoll =
  poll_subscription_id :: string
  poll_event_type :: string
  poll_cursor :: string
  poll_events :: "BrokerEvent list"

text \<open>The operations of the trait that the runtime calls, on a broker state \<open>'b\<close>.\<close>

record 'b EventBroker =
  eb_publish :: "'b \<Rightarrow> TraverseEvent \<Rightarrow> (unit, EventError) result \<times> 'b"
  eb_subscribe :: "'b \<Rightarrow> string \<Rightarrow> string \<Rightarrow> (Subscription, EventError) result \<times> 'b"
  eb_poll :: "'b \<Rightarrow> string \<Rightarrow> nat \<Rightarrow> (SubscriptionPoll, EventError) result \<times> 'b"
  eb_cancel :: "'b \<Rightarrow> string \<Rightarrow> (unit, EventError) result \<times> 'b"

subsection \<open>The envelope profile\<close>

datatype EventValidationMode = Migration | Enforcement

record EventValidationDiagnostic =
  evd_code :: string
  evd_path :: string
  evd_remediation :: string
  evd_contract_id :: string
  evd_version :: string

record EventValidationResult =
  evr_accepted :: bool
  evr_diagnostics :: "EventValidationDiagnostic list"

record EnvelopeEvidence =
  envelope_contract_id :: string
  envelope_version :: string
  envelope_diagnostics :: "EventValidationDiagnostic list"

definition diagnostic :: "string \<Rightarrow> string \<Rightarrow> string \<Rightarrow> TraverseEvent \<Rightarrow> EventValidationDiagnostic" where
  "diagnostic code path remediation event =
     \<lparr>evd_code = code, evd_path = path, evd_remediation = remediation,
      evd_contract_id = te_event_type event, evd_version = te_version event\<rparr>"

definition validate_non_empty ::
  "string \<Rightarrow> string \<Rightarrow> string \<Rightarrow> string \<Rightarrow> TraverseEvent \<Rightarrow> EventValidationDiagnostic list" where
  "validate_non_empty code path field value event =
     (if blank value then [diagnostic code path field event] else [])"

definition validate_optional_non_empty ::
  "string \<Rightarrow> string \<Rightarrow> string \<Rightarrow> string option \<Rightarrow> TraverseEvent \<Rightarrow> EventValidationDiagnostic list" where
  "validate_optional_non_empty code path field value event =
     (if (case value of None \<Rightarrow> True | Some v \<Rightarrow> blank v) then [diagnostic code path field event] else [])"

definition is_fact_type :: "string \<Rightarrow> bool" where
  "is_fact_type value \<longleftrightarrow>
     CHR ''.'' \<in> set value \<and> (let l = last (split_on CHR ''.'' value) in ends_with l ''ed'' \<and> l \<noteq> [])"

definition validate_event :: "(string \<Rightarrow> bool) \<Rightarrow> TraverseEvent \<Rightarrow> EventValidationMode \<Rightarrow> EventValidationResult" where
  "validate_event version_ok event mode =
     (let diagnostics =
        validate_non_empty ''EVP-001'' ''/id'' ''id'' (te_id event) event
        @ validate_non_empty ''EVP-002'' ''/source'' ''source'' (te_source event) event
        @ validate_non_empty ''EVP-003'' ''/datacontenttype'' ''datacontenttype'' (te_datacontenttype event) event
        @ validate_non_empty ''EVP-004'' ''/time'' ''time'' (te_time event) event
        @ validate_non_empty ''EVP-005'' ''/owner'' ''owner'' (te_owner event) event
        @ validate_optional_non_empty ''EVP-008'' ''/deduplicationid'' ''deduplication identity'' (te_deduplication_id event) event
        @ validate_optional_non_empty ''EVP-009'' ''/orderingscope'' ''ordering scope'' (te_ordering_scope event) event
        @ validate_optional_non_empty ''EVP-010'' ''/correlationid'' ''correlation id'' (te_correlation_id event) event
        @ validate_optional_non_empty ''EVP-011'' ''/causationid'' ''causation id'' (te_causation_id event) event
        @ (if \<not> version_ok (te_version event)
           then [diagnostic ''EVP-006'' ''/version'' ''version must be semantic'' event] else [])
        @ (if \<not> is_fact_type (te_event_type event)
           then [diagnostic ''EVP-007'' ''/type'' ''type must use a dotted past-tense fact name'' event] else [])
      in \<lparr>evr_accepted = (mode = Migration \<or> diagnostics = []), evr_diagnostics = diagnostics\<rparr>)"

definition evidence_from_result :: "EventValidationResult \<Rightarrow> EnvelopeEvidence option" where
  "evidence_from_result result =
     (case evr_diagnostics result of
        [] \<Rightarrow> None
      | first # _ \<Rightarrow> Some \<lparr>envelope_contract_id = evd_contract_id first, envelope_version = evd_version first,
                       envelope_diagnostics = evr_diagnostics result\<rparr>)"

section \<open>Lemmas\<close>

lemma validate_event_accepted:
  "evr_accepted (validate_event version_ok event mode) \<longleftrightarrow>
     mode = Migration \<or> evr_diagnostics (validate_event version_ok event mode) = []"
  by (simp add: validate_event_def Let_def)

lemma evidence_from_result_None_iff: "evidence_from_result r = None \<longleftrightarrow> evr_diagnostics r = []"
  by (simp add: evidence_from_result_def split: list.split)

section \<open>The interface\<close>

text \<open>
  What a client relies on to read a subscription to its end: a poll returns at most what was asked
  for, and what it returns is no longer pending. \<open>inv\<close> is an invariant of the broker state that
  every operation keeps.
\<close>

locale event_broker =
  fixes eb :: "'b EventBroker"
    and inv :: "'b \<Rightarrow> bool"
    and pending :: "'b \<Rightarrow> string \<Rightarrow> nat"
  assumes publish_keeps: "inv b \<Longrightarrow> inv (snd (eb_publish eb b event))"
    and subscribe_keeps: "inv b \<Longrightarrow> inv (snd (eb_subscribe eb b event_type cursor))"
    and poll_keeps: "inv b \<Longrightarrow> inv (snd (eb_poll eb b sid n))"
    and cancel_keeps: "inv b \<Longrightarrow> inv (snd (eb_cancel eb b sid))"
    and poll_shrinks: "inv b \<Longrightarrow> eb_poll eb b sid n = (Inr p, b') \<Longrightarrow>
      length (poll_events p) \<le> n \<and> pending b' sid + length (poll_events p) \<le> pending b sid"
begin

text \<open>A poll that returns a full batch makes progress.\<close>

lemma full_batch_progress:
  "inv b \<Longrightarrow> 0 < n \<Longrightarrow> eb_poll eb b sid n = (Inr p, b') \<Longrightarrow> n \<le> length (poll_events p) \<Longrightarrow>
   pending b' sid < pending b sid"
  using poll_shrinks [of b sid n p b'] by linarith

lemma publish_all_keeps: "inv b \<Longrightarrow> inv (fold (\<lambda>event b. snd (eb_publish eb b event)) events b)"
  by (induction events arbitrary: b) (simp_all add: publish_keeps)

end

end
