(* ===== verification/Workflow_Evidence.thy ===== *)
theory Workflow_Evidence
  imports Artifact_Security Schema_Validation Event_Types
begin

text \<open>
  Workflow traversal, first half: the records of \<^verbatim>\<open>crates/traverse-runtime/src/workflows.rs\<close> and its
  pure functions, which validate a request, move values between the workflow state and a node, and
  decide which waiting edges an event wakes. The loop that calls them is in the theory
  \<open>Workflows\<close>.

  A \<^verbatim>\<open>BTreeSet<String>\<close> is a set of strings.
\<close>

section \<open>Definitions\<close>

subsection \<open>Requests, evidence and results\<close>

definition WORKFLOW_REQUEST_KIND :: string where
  "WORKFLOW_REQUEST_KIND = ''workflow_execution_request''"

definition WORKFLOW_EVIDENCE_KIND :: string where
  "WORKFLOW_EVIDENCE_KIND = ''workflow_traversal_evidence''"

definition WORKFLOW_SCHEMA_VERSION :: string where
  "WORKFLOW_SCHEMA_VERSION = ''1.0.0''"

definition WORKFLOW_GOVERNING_SPEC :: string where
  "WORKFLOW_GOVERNING_SPEC = ''007-workflow-registry-traversal''"

definition EVENT_BROKER_POLL_BATCH :: nat where
  "EVENT_BROKER_POLL_BATCH = 256"

datatype WorkflowLookupScope = WfPublicOnly | WfPreferPrivate

record WorkflowExecutionRequest =
  wq_kind :: string
  wq_schema_version :: string
  wq_request_id :: string
  wq_workflow_id :: string
  wq_workflow_version :: string
  wq_scope :: WorkflowLookupScope
  wq_input :: json
  wq_governing_spec :: string

datatype WorkflowTraversalStepStatus = Entered | StepCompleted | StepFailed

record WorkflowTraversalStepRecord =
  step_index :: nat
  step_node_id :: string
  step_capability_id :: string
  step_capability_version :: string
  step_status :: WorkflowTraversalStepStatus

datatype WorkflowTraversalTrigger = TraversalDirect | TraversalEvent

record WorkflowTraversalEdgeRecord =
  te_edge_id :: string
  te_from :: string
  te_to :: string
  te_trigger :: WorkflowTraversalTrigger
  te_event :: "EventReference option"

record WaitingWorkflowEdgeContext =
  ww_workflow_execution_id :: string
  ww_edge_id :: string
  ww_from_node_id :: string
  ww_to_node_id :: string
  ww_event_ref :: EventReference
  ww_predicate :: "WorkflowEdgePredicate option"

datatype EventMatchResult = Matched | NotMatched | AlreadyConsumed

datatype EventPredicateResult = PredicatePassed | PredicateFailed

record EventMatchRecord =
  em_event_id :: string
  em_event_version :: string
  em_edge_id :: string
  em_match_result :: EventMatchResult
  em_predicate_result :: "EventPredicateResult option"
  em_rejection_reason :: "string option"
  em_recorded_at :: string
  em_subscription_id :: "string option"
  em_cursor :: "string option"

datatype EventWakeDecisionResult = Taken

record EventWakeDecision =
  ew_decision_type :: string
  ew_event_id :: string
  ew_event_version :: string
  ew_edge_id :: string
  ew_workflow_execution_id :: string
  ew_wake_order :: nat
  ew_result :: EventWakeDecisionResult
  ew_recorded_at :: string
  ew_subscription_id :: "string option"
  ew_cursor :: "string option"

record EventConsumptionRecord =
  ec_event_id :: string
  ec_event_version :: string
  ec_edge_id :: string
  ec_workflow_execution_id :: string
  ec_consumed_at :: string
  ec_subscription_id :: "string option"
  ec_cursor :: "string option"

datatype WorkflowTraversalStatus = WfCompleted | WfError

datatype WorkflowTraversalFailureReason =
  WorkflowNotFound | WorkflowInvalid | AmbiguousNextEdge | MissingRequiredEvent
| TerminalNodeNotReached | StepExecutionFailed | EventSubscriptionFailed | EventBrokerUnavailable

record WorkflowTraversalResult =
  wt_status :: WorkflowTraversalStatus
  wt_failure_reason :: "WorkflowTraversalFailureReason option"

record WorkflowTraversalEvidence =
  wv_kind :: string
  wv_schema_version :: string
  wv_trace_id :: string
  wv_request_id :: string
  wv_workflow_id :: string
  wv_workflow_version :: string
  wv_governing_spec :: string
  visited_nodes :: "WorkflowTraversalStepRecord list"
  traversed_edges :: "WorkflowTraversalEdgeRecord list"
  wv_emitted_events :: "EventReference list"
  wv_waiting_edges :: "WaitingWorkflowEdgeContext list"
  event_match_records :: "EventMatchRecord list"
  event_wake_decisions :: "EventWakeDecision list"
  event_consumptions :: "EventConsumptionRecord list"
  wv_result :: WorkflowTraversalResult

record WorkflowExecutionResult =
  wr_kind :: string
  wr_schema_version :: string
  wr_request_id :: string
  wr_workflow_id :: string
  wr_workflow_version :: string
  wr_status :: WorkflowTraversalStatus
  wr_output :: "json option"
  wr_error :: "RuntimeError option"
  wr_warnings :: "RuntimeWarning list"

record WorkflowExecutionOutcome =
  wo_result :: WorkflowExecutionResult
  wo_evidence :: WorkflowTraversalEvidence

record BrokerEventSource =
  bs_subscription_id :: string
  bs_cursor :: string

record EmittedEventRecord =
  ee_record_id :: string
  ee_event :: EventReference
  ee_payload :: "json option"
  ee_source :: "BrokerEventSource option"

record WorkflowEventEvidenceBundle =
  wb_waiting_edges :: "WaitingWorkflowEdgeContext list"
  wb_match_records :: "EventMatchRecord list"
  wb_wake_decisions :: "EventWakeDecision list"
  wb_consumptions :: "EventConsumptionRecord list"

record EventDrivenEvaluationOutcome =
  ed_taken_edge_ids :: "string list"
  ed_evidence :: WorkflowEventEvidenceBundle

definition empty_bundle :: WorkflowEventEvidenceBundle where
  "empty_bundle = \<lparr>wb_waiting_edges = [], wb_match_records = [], wb_wake_decisions = [], wb_consumptions = []\<rparr>"

subsection \<open>Requests and workflow state\<close>

definition validate_workflow_request :: "WorkflowExecutionRequest \<Rightarrow> RuntimeError option" where
  "validate_workflow_request request =
     (if wq_kind request \<noteq> WORKFLOW_REQUEST_KIND
      then Some (runtime_error RequestInvalid ''kind must equal workflow_execution_request''
             (json_obj [(''path'', JString ''$.kind'')]))
      else if wq_schema_version request \<noteq> WORKFLOW_SCHEMA_VERSION
      then Some (runtime_error RequestInvalid ''schema_version must equal 1.0.0''
             (json_obj [(''path'', JString ''$.schema_version'')]))
      else if wq_governing_spec request \<noteq> WORKFLOW_GOVERNING_SPEC
      then Some (runtime_error RequestInvalid ''governing_spec must equal 007-workflow-registry-traversal''
             (json_obj [(''path'', JString ''$.governing_spec'')]))
      else if blank (wq_request_id request) \<or> blank (wq_workflow_id request) \<or> blank (wq_workflow_version request)
      then Some (runtime_error RequestInvalid ''request_id, workflow_id, and workflow_version must be non-empty''
             (json_obj [(''path'', JString ''$'')]))
      else None)"

fun map_workflow_lookup_scope :: "WorkflowLookupScope \<Rightarrow> LookupScope" where
  "map_workflow_lookup_scope WfPublicOnly = PublicOnly"
| "map_workflow_lookup_scope WfPreferPrivate = PreferPrivate"

definition workflow_state :: "json \<Rightarrow> json_object" where
  "workflow_state input = (case input of JObject ms \<Rightarrow> ms | other \<Rightarrow> [(''input'', other)])"

text \<open>The loop that copies the keys of a list from one object to another.\<close>

definition copy_keys :: "string list \<Rightarrow> json_object \<Rightarrow> json_object \<Rightarrow> json_object" where
  "copy_keys ks source target =
     fold (\<lambda>k t. case obj_get source k of None \<Rightarrow> t | Some v \<Rightarrow> obj_insert k v t) ks target"

definition node_input :: "json_object \<Rightarrow> WorkflowNode \<Rightarrow> json" where
  "node_input state node = JObject (copy_keys (from_workflow_input node) state [])"

definition update_state :: "json_object \<Rightarrow> WorkflowNode \<Rightarrow> json \<Rightarrow> json_object" where
  "update_state state node output =
     (case output of
        JObject object \<Rightarrow>
          (let state = copy_keys (to_workflow_state node) object state
           in case publish_to_state_as node of None \<Rightarrow> state | Some namespace \<Rightarrow> obj_insert namespace output state)
      | _ \<Rightarrow> state)"

definition final_workflow_output :: "json_object \<Rightarrow> string list \<Rightarrow> json" where
  "final_workflow_output state output_projection =
     (if output_projection = [] then JObject state else JObject (copy_keys output_projection state []))"

subsection \<open>Waiting edges\<close>

definition waiting_edge_contexts :: "string \<Rightarrow> WorkflowEdge list \<Rightarrow> WaitingWorkflowEdgeContext list" where
  "waiting_edge_contexts workflow_execution_id es =
     List.map_filter (\<lambda>edge. map_option (\<lambda>event.
       \<lparr>ww_workflow_execution_id = workflow_execution_id, ww_edge_id = we_edge_id edge,
        ww_from_node_id = we_from edge, ww_to_node_id = we_to edge, ww_event_ref = event,
        ww_predicate = we_predicate edge\<rparr>) (we_event edge)) es"

fun descend :: "json \<Rightarrow> string list \<Rightarrow> json option" where
  "descend current [] = Some current"
| "descend current (segment # segments) =
     (case current of
        JObject ms \<Rightarrow> (case obj_get ms segment of None \<Rightarrow> None | Some v \<Rightarrow> descend v segments)
      | _ \<Rightarrow> None)"

definition event_payload_field :: "json option \<Rightarrow> string \<Rightarrow> json option" where
  "event_payload_field payload field =
     (case payload of
        None \<Rightarrow> None
      | Some payload \<Rightarrow>
          (let path = (case strip_prefix ''payload.'' field of None \<Rightarrow> field | Some rest \<Rightarrow> rest)
           in if path = ''payload'' \<or> path = [] then Some payload else descend payload (split_on CHR ''.'' path)))"

definition edge_record :: "WorkflowEdge \<Rightarrow> WorkflowTraversalEdgeRecord" where
  "edge_record edge = \<lparr>te_edge_id = we_edge_id edge, te_from = we_from edge, te_to = we_to edge,
     te_trigger = (case we_trigger edge of DirectTrigger \<Rightarrow> TraversalDirect | EventTrigger \<Rightarrow> TraversalEvent),
     te_event = we_event edge\<rparr>"

text \<open>The state of the two nested loops of \<^verbatim>\<open>evaluate_event_driven_edges\<close>: the outcome so far, the
  consumed pairs and the next wake order.\<close>

record EdgeEvaluation =
  ev_outcome :: EventDrivenEvaluationOutcome
  ev_consumed :: "string set"
  ev_wake_order :: nat

definition push_match :: "EventMatchRecord \<Rightarrow> EdgeEvaluation \<Rightarrow> EdgeEvaluation" where
  "push_match r s = s\<lparr>ev_outcome := (ev_outcome s)\<lparr>ed_evidence := (ed_evidence (ev_outcome s))
     \<lparr>wb_match_records := wb_match_records (ed_evidence (ev_outcome s)) @ [r]\<rparr>\<rparr>\<rparr>"

definition predicate_passed :: "EmittedEventRecord \<Rightarrow> WaitingWorkflowEdgeContext \<Rightarrow> bool" where
  "predicate_passed emitted waiting =
     (case ww_predicate waiting of
        None \<Rightarrow> True
      | Some predicate \<Rightarrow> event_payload_field (ee_payload emitted) (wp_field predicate) = Some (wp_equals predicate))"

definition consumption_key :: "EmittedEventRecord \<Rightarrow> WaitingWorkflowEdgeContext \<Rightarrow> string" where
  "consumption_key emitted waiting =
     ee_record_id emitted @ ''|'' @ ww_workflow_execution_id waiting @ ''|'' @ ww_edge_id waiting"

definition evaluate_pair ::
  "string \<Rightarrow> nat \<Rightarrow> EmittedEventRecord \<Rightarrow> WaitingWorkflowEdgeContext \<Rightarrow> EdgeEvaluation \<Rightarrow> EdgeEvaluation" where
  "evaluate_pair record_prefix event_index emitted waiting s =
     (let subscription = map_option bs_subscription_id (ee_source emitted);
          cursor = map_option bs_cursor (ee_source emitted);
          at = record_prefix @ '':event:'' @ show_nat event_index;
          passed = map_option (\<lambda>_. PredicatePassed) (ww_predicate waiting);
          entry = \<lparr>em_event_id = er_event_id (ee_event emitted), em_event_version = er_version (ee_event emitted),
                   em_edge_id = ww_edge_id waiting, em_match_result = NotMatched, em_predicate_result = None,
                   em_rejection_reason = None, em_recorded_at = at @ '':match:'' @ ww_edge_id waiting,
                   em_subscription_id = subscription, em_cursor = cursor\<rparr>;
          key = consumption_key emitted waiting
      in if ee_event emitted \<noteq> ww_event_ref waiting
         then push_match (entry\<lparr>em_rejection_reason := Some ''event id/version did not match the waiting edge''\<rparr>) s
         else if \<not> predicate_passed emitted waiting
         then push_match (entry\<lparr>em_predicate_result := Some PredicateFailed,
                em_rejection_reason := Some ''event predicate did not match the emitted payload''\<rparr>) s
         else if key \<in> ev_consumed s
         then push_match (entry\<lparr>em_match_result := AlreadyConsumed, em_predicate_result := passed,
                em_rejection_reason := Some ''event record was already consumed for this waiting edge''\<rparr>) s
         else (let s = push_match (entry\<lparr>em_match_result := Matched, em_predicate_result := passed\<rparr>)
                         (s\<lparr>ev_consumed := insert key (ev_consumed s)\<rparr>);
                   wake_at = at @ '':wake:'' @ ww_edge_id waiting;
                   wake = \<lparr>ew_decision_type = ''event_wake'', ew_event_id = er_event_id (ee_event emitted),
                           ew_event_version = er_version (ee_event emitted), ew_edge_id = ww_edge_id waiting,
                           ew_workflow_execution_id = ww_workflow_execution_id waiting,
                           ew_wake_order = ev_wake_order s, ew_result = Taken, ew_recorded_at = wake_at,
                           ew_subscription_id = subscription, ew_cursor = cursor\<rparr>;
                   consumption = \<lparr>ec_event_id = er_event_id (ee_event emitted),
                           ec_event_version = er_version (ee_event emitted), ec_edge_id = ww_edge_id waiting,
                           ec_workflow_execution_id = ww_workflow_execution_id waiting, ec_consumed_at = wake_at,
                           ec_subscription_id = subscription, ec_cursor = cursor\<rparr>;
                   evidence = ed_evidence (ev_outcome s)
               in s\<lparr>ev_outcome := \<lparr>ed_taken_edge_ids = ed_taken_edge_ids (ev_outcome s) @ [ww_edge_id waiting],
                      ed_evidence = evidence\<lparr>wb_wake_decisions := wb_wake_decisions evidence @ [wake],
                                             wb_consumptions := wb_consumptions evidence @ [consumption]\<rparr>\<rparr>,
                    ev_wake_order := Suc (ev_wake_order s)\<rparr>))"

definition evaluate_event_driven_edges ::
  "WaitingWorkflowEdgeContext list \<Rightarrow> EmittedEventRecord list \<Rightarrow> string set \<Rightarrow> string \<Rightarrow>
     EventDrivenEvaluationOutcome \<times> string set" where
  "evaluate_event_driven_edges waiting_edges emitted_events consumed record_prefix =
     (let ordered = sort_key (\<lambda>w. (ww_workflow_execution_id w, ww_edge_id w)) waiting_edges
      in if emitted_events = []
         then (\<lparr>ed_taken_edge_ids = [], ed_evidence = empty_bundle\<lparr>wb_match_records :=
                 map (\<lambda>edge. \<lparr>em_event_id = er_event_id (ww_event_ref edge),
                      em_event_version = er_version (ww_event_ref edge), em_edge_id = ww_edge_id edge,
                      em_match_result = NotMatched, em_predicate_result = None,
                      em_rejection_reason = Some ''required event was not emitted'',
                      em_recorded_at = record_prefix @ '':no_event:'' @ ww_edge_id edge,
                      em_subscription_id = None, em_cursor = None\<rparr>) ordered\<rparr>\<rparr>, consumed)
         else (let s = fold (\<lambda>(i, emitted) s. fold (evaluate_pair record_prefix i emitted) ordered s)
                         (enumerate 0 emitted_events)
                         \<lparr>ev_outcome = \<lparr>ed_taken_edge_ids = [], ed_evidence = empty_bundle\<rparr>,
                          ev_consumed = consumed, ev_wake_order = 1\<rparr>
               in (ev_outcome s, ev_consumed s)))"

definition workflow_failure ::
  "WorkflowExecutionRequest \<Rightarrow> WorkflowTraversalFailureReason \<Rightarrow> RuntimeError \<Rightarrow>
     WorkflowTraversalStepRecord list \<Rightarrow> WorkflowTraversalEdgeRecord list \<Rightarrow> EventReference list \<Rightarrow>
     WorkflowEventEvidenceBundle \<Rightarrow> RuntimeWarning list \<Rightarrow> WorkflowExecutionOutcome" where
  "workflow_failure request failure_reason error visited traversed emitted evidence warnings =
     \<lparr>wo_result =
        \<lparr>wr_kind = WORKFLOW_REQUEST_KIND, wr_schema_version = WORKFLOW_SCHEMA_VERSION,
         wr_request_id = wq_request_id request, wr_workflow_id = wq_workflow_id request,
         wr_workflow_version = wq_workflow_version request, wr_status = WfError, wr_output = None,
         wr_error = Some error, wr_warnings = warnings\<rparr>,
      wo_evidence =
        \<lparr>wv_kind = WORKFLOW_EVIDENCE_KIND, wv_schema_version = WORKFLOW_SCHEMA_VERSION,
         wv_trace_id = ''workflow_trace_'' @ wq_request_id request, wv_request_id = wq_request_id request,
         wv_workflow_id = wq_workflow_id request, wv_workflow_version = wq_workflow_version request,
         wv_governing_spec = WORKFLOW_GOVERNING_SPEC, visited_nodes = visited, traversed_edges = traversed,
         wv_emitted_events = emitted, wv_waiting_edges = wb_waiting_edges evidence,
         event_match_records = wb_match_records evidence, event_wake_decisions = wb_wake_decisions evidence,
         event_consumptions = wb_consumptions evidence,
         wv_result = \<lparr>wt_status = WfError, wt_failure_reason = Some failure_reason\<rparr>\<rparr>\<rparr>"

section \<open>Which edges an event wakes\<close>

definition wakes :: "EmittedEventRecord \<Rightarrow> WaitingWorkflowEdgeContext \<Rightarrow> bool" where
  "wakes emitted waiting \<longleftrightarrow> ee_event emitted = ww_event_ref waiting \<and> predicate_passed emitted waiting"

text \<open>The two loops as one loop over pairs.\<close>

definition event_edge_pairs ::
  "EmittedEventRecord list \<Rightarrow> WaitingWorkflowEdgeContext list \<Rightarrow> (nat \<times> EmittedEventRecord \<times> WaitingWorkflowEdgeContext) list" where
  "event_edge_pairs events ws = concat (map (\<lambda>(i, e). map (\<lambda>w. (i, e, w)) ws) (enumerate 0 events))"

definition evaluate_pairs ::
  "string \<Rightarrow> (nat \<times> EmittedEventRecord \<times> WaitingWorkflowEdgeContext) list \<Rightarrow> EdgeEvaluation \<Rightarrow> EdgeEvaluation" where
  "evaluate_pairs record_prefix = fold (\<lambda>(i, e, w). evaluate_pair record_prefix i e w)"

lemma fold_pairs:
  "fold (\<lambda>(i, e) s. fold (f i e) ws s) ies s
     = fold (\<lambda>(i, e, w). f i e w) (concat (map (\<lambda>(i, e). map (\<lambda>w. (i, e, w)) ws) ies)) s"
  by (induction ies arbitrary: s) (auto simp: fold_map comp_def)

lemma in_event_edge_pairs:
  "x \<in> set (event_edge_pairs events ws) \<longleftrightarrow>
     (fst x, fst (snd x)) \<in> set (enumerate 0 events) \<and> snd (snd x) \<in> set ws"
  by (cases x) (auto simp: event_edge_pairs_def)

lemma in_enumerate: "(\<exists>i. (i, e) \<in> set (enumerate 0 events)) \<longleftrightarrow> e \<in> set events"
proof -
  have "snd ` set (enumerate 0 events) = set events"
    by (metis list.set_map map_snd_enumerate)
  then show ?thesis by force
qed

lemma push_match_fields [simp]:
  "ev_consumed (push_match r s) = ev_consumed s"
  "ev_wake_order (push_match r s) = ev_wake_order s"
  "ed_taken_edge_ids (ev_outcome (push_match r s)) = ed_taken_edge_ids (ev_outcome s)"
  "wb_wake_decisions (ed_evidence (ev_outcome (push_match r s))) = wb_wake_decisions (ed_evidence (ev_outcome s))"
  "wb_consumptions (ed_evidence (ev_outcome (push_match r s))) = wb_consumptions (ed_evidence (ev_outcome s))"
  by (simp_all add: push_match_def)

lemma evaluate_pair_fields:
  defines "s' \<equiv> \<lambda>p i e w s. evaluate_pair p i e w s"
  shows "ev_consumed (s' p i e w s) = (if wakes e w then insert (consumption_key e w) (ev_consumed s) else ev_consumed s)"
    and "ed_taken_edge_ids (ev_outcome (s' p i e w s)) = ed_taken_edge_ids (ev_outcome s)
           @ (if wakes e w \<and> consumption_key e w \<notin> ev_consumed s then [ww_edge_id w] else [])"
    and "map ew_edge_id (wb_wake_decisions (ed_evidence (ev_outcome (s' p i e w s))))
           = map ew_edge_id (wb_wake_decisions (ed_evidence (ev_outcome s)))
             @ (if wakes e w \<and> consumption_key e w \<notin> ev_consumed s then [ww_edge_id w] else [])"
    and "map ew_wake_order (wb_wake_decisions (ed_evidence (ev_outcome (s' p i e w s))))
           = map ew_wake_order (wb_wake_decisions (ed_evidence (ev_outcome s)))
             @ (if wakes e w \<and> consumption_key e w \<notin> ev_consumed s then [ev_wake_order s] else [])"
    and "ev_wake_order (s' p i e w s) = ev_wake_order s + (if wakes e w \<and> consumption_key e w \<notin> ev_consumed s then 1 else 0)"
  unfolding s'_def evaluate_pair_def Let_def wakes_def by auto

lemma evaluate_pairs_Cons:
  "evaluate_pairs p (x # ps) s = evaluate_pairs p ps (evaluate_pair p (fst x) (fst (snd x)) (snd (snd x)) s)"
  by (simp add: evaluate_pairs_def case_prod_beta)

lemma evaluate_pairs_Nil: "evaluate_pairs p [] s = s"
  by (simp add: evaluate_pairs_def)

definition pair_key :: "nat \<times> EmittedEventRecord \<times> WaitingWorkflowEdgeContext \<Rightarrow> string" where
  "pair_key x = consumption_key (fst (snd x)) (snd (snd x))"

definition pair_wakes :: "nat \<times> EmittedEventRecord \<times> WaitingWorkflowEdgeContext \<Rightarrow> bool" where
  "pair_wakes x = wakes (fst (snd x)) (snd (snd x))"

definition pair_edge :: "nat \<times> EmittedEventRecord \<times> WaitingWorkflowEdgeContext \<Rightarrow> string" where
  "pair_edge x = ww_edge_id (snd (snd x))"

lemma evaluate_pairs_consumed:
  "ev_consumed (evaluate_pairs p ps s) = ev_consumed s \<union> pair_key ` {x \<in> set ps. pair_wakes x}"
proof (induction ps arbitrary: s)
  case Nil then show ?case by (simp add: evaluate_pairs_Nil)
next
  case (Cons x ps)
  have "{y \<in> set (x # ps). pair_wakes y} = (if pair_wakes x then {x} else {}) \<union> {y \<in> set ps. pair_wakes y}"
    by auto
  then show ?case
    by (simp add: evaluate_pairs_Cons Cons.IH evaluate_pair_fields pair_key_def pair_wakes_def)
qed

lemma evaluate_pairs_taken:
  assumes "\<And>x y. x \<in> set ps \<Longrightarrow> y \<in> set ps \<Longrightarrow> pair_key x = pair_key y \<Longrightarrow> pair_edge x = pair_edge y"
  shows "set (ed_taken_edge_ids (ev_outcome (evaluate_pairs p ps s))) = set (ed_taken_edge_ids (ev_outcome s))
    \<union> pair_edge ` {x \<in> set ps. pair_wakes x \<and> pair_key x \<notin> ev_consumed s}"
  using assms
proof (induction ps arbitrary: s)
  case Nil then show ?case by (simp add: evaluate_pairs_Nil)
next
  case (Cons x ps)
  let ?t = "evaluate_pair p (fst x) (fst (snd x)) (snd (snd x)) s"
  have IH: "set (ed_taken_edge_ids (ev_outcome (evaluate_pairs p ps ?t))) = set (ed_taken_edge_ids (ev_outcome ?t))
      \<union> pair_edge ` {y \<in> set ps. pair_wakes y \<and> pair_key y \<notin> ev_consumed ?t}"
    by (rule Cons.IH, rule Cons.prems) simp_all
  have same: "pair_edge x = pair_edge y" if "y \<in> set ps" "pair_key y = pair_key x" for y
    by (rule Cons.prems) (use that in simp_all)
  show ?case
  proof (cases "pair_wakes x \<and> pair_key x \<notin> ev_consumed s")
    case True
    then have t: "ev_consumed ?t = insert (pair_key x) (ev_consumed s)"
      "ed_taken_edge_ids (ev_outcome ?t) = ed_taken_edge_ids (ev_outcome s) @ [pair_edge x]"
      by (simp_all add: evaluate_pair_fields pair_wakes_def pair_key_def pair_edge_def)
    have "pair_edge ` {y \<in> set (x # ps). pair_wakes y \<and> pair_key y \<notin> ev_consumed s}
        = insert (pair_edge x) (pair_edge ` {y \<in> set ps. pair_wakes y \<and> pair_key y \<notin> insert (pair_key x) (ev_consumed s)})"
      (is "?l = ?r")
    proof
      show "?r \<subseteq> ?l" using True by force
      show "?l \<subseteq> ?r"
      proof
        fix v assume "v \<in> ?l"
        then obtain y where y: "v = pair_edge y" "y = x \<or> y \<in> set ps" "pair_wakes y" "pair_key y \<notin> ev_consumed s" by auto
        then have "pair_edge y = pair_edge x \<or> y \<in> set ps \<and> pair_key y \<noteq> pair_key x"
          using same [of y] by metis
        with y show "v \<in> ?r" by blast
      qed
    qed
    then show ?thesis
      unfolding evaluate_pairs_Cons IH t by auto
  next
    case False
    then have t: "ev_consumed ?t = ev_consumed s"
      "ed_taken_edge_ids (ev_outcome ?t) = ed_taken_edge_ids (ev_outcome s)"
      by (auto simp: evaluate_pair_fields pair_wakes_def pair_key_def)
    have "{y \<in> set (x # ps). pair_wakes y \<and> pair_key y \<notin> ev_consumed s} = {y \<in> set ps. pair_wakes y \<and> pair_key y \<notin> ev_consumed s}"
      using False by auto
    then show ?thesis
      unfolding evaluate_pairs_Cons IH t by simp
  qed
qed

lemma evaluate_pairs_wakes:
  assumes "map ew_edge_id (wb_wake_decisions (ed_evidence (ev_outcome s))) = ed_taken_edge_ids (ev_outcome s)"
    "map ew_wake_order (wb_wake_decisions (ed_evidence (ev_outcome s))) = [1..<ev_wake_order s]" "1 \<le> ev_wake_order s"
  shows "map ew_edge_id (wb_wake_decisions (ed_evidence (ev_outcome (evaluate_pairs p ps s))))
      = ed_taken_edge_ids (ev_outcome (evaluate_pairs p ps s))
    \<and> map ew_wake_order (wb_wake_decisions (ed_evidence (ev_outcome (evaluate_pairs p ps s))))
      = [1..<ev_wake_order (evaluate_pairs p ps s)]"
  using assms
proof (induction ps arbitrary: s)
  case Nil then show ?case by (simp add: evaluate_pairs_Nil)
next
  case (Cons x ps)
  show ?case
    unfolding evaluate_pairs_Cons
  proof (rule Cons.IH)
    show "1 \<le> ev_wake_order (evaluate_pair p (fst x) (fst (snd x)) (snd (snd x)) s)"
      using Cons.prems(3) by (simp add: evaluate_pair_fields)
  qed (use Cons.prems in \<open>simp_all add: evaluate_pair_fields\<close>)
qed

lemma evaluate_event_driven_edges_pairs:
  assumes "events \<noteq> []"
  shows "evaluate_event_driven_edges ws events consumed p =
    (let s = evaluate_pairs p (event_edge_pairs events (sort_key (\<lambda>w. (ww_workflow_execution_id w, ww_edge_id w)) ws))
               \<lparr>ev_outcome = \<lparr>ed_taken_edge_ids = [], ed_evidence = empty_bundle\<rparr>,
                ev_consumed = consumed, ev_wake_order = 1\<rparr>
     in (ev_outcome s, ev_consumed s))"
  using assms
  by (simp add: evaluate_event_driven_edges_def Let_def fold_pairs event_edge_pairs_def evaluate_pairs_def)

lemma event_edge_pair_image:
  "(\<lambda>x. f (fst (snd x)) (snd (snd x))) ` {x \<in> set (event_edge_pairs events (sort_key h ws)). P (fst (snd x)) (snd (snd x))}
    = {f e w | e w. e \<in> set events \<and> w \<in> set ws \<and> P e w}" (is "?l = ?r")
proof (intro equalityI subsetI)
  fix v assume "v \<in> ?l"
  then obtain x where x: "v = f (fst (snd x)) (snd (snd x))" "P (fst (snd x)) (snd (snd x))"
      "(fst x, fst (snd x)) \<in> set (enumerate 0 events)" "snd (snd x) \<in> set ws"
    by (auto simp only: in_event_edge_pairs set_sort mem_Collect_eq image_iff)
  then have "fst (snd x) \<in> set events" using in_enumerate [of "fst (snd x)" events] by blast
  with x show "v \<in> ?r" by blast
next
  fix v assume "v \<in> ?r"
  then obtain e w where v: "v = f e w" "e \<in> set events" "w \<in> set ws" "P e w" by blast
  then obtain i where "(i, e) \<in> set (enumerate 0 events)" using in_enumerate [of e events] by blast
  with v show "v \<in> ?l"
    by (intro image_eqI [of _ _ "(i, e, w)"]) (simp_all add: in_event_edge_pairs)
qed

lemma evaluate_consumed:
  "snd (evaluate_event_driven_edges ws events consumed p) =
     consumed \<union> {consumption_key e w | e w. e \<in> set events \<and> w \<in> set ws \<and> wakes e w}"
proof (cases "events = []")
  case True then show ?thesis by (simp add: evaluate_event_driven_edges_def)
next
  case False
  show ?thesis
    unfolding evaluate_event_driven_edges_pairs [OF False] Let_def snd_conv evaluate_pairs_consumed
    by (simp add: pair_key_def [abs_def] pair_wakes_def event_edge_pair_image)
qed

lemma evaluate_taken:
  assumes "\<And>e w e' w'. e \<in> set events \<Longrightarrow> e' \<in> set events \<Longrightarrow> w \<in> set ws \<Longrightarrow> w' \<in> set ws \<Longrightarrow>
      consumption_key e w = consumption_key e' w' \<Longrightarrow> ww_edge_id w = ww_edge_id w'"
  shows "set (ed_taken_edge_ids (fst (evaluate_event_driven_edges ws events consumed p))) =
      {ww_edge_id w | e w. e \<in> set events \<and> w \<in> set ws \<and> wakes e w \<and> consumption_key e w \<notin> consumed}"
proof (cases "events = []")
  case True then show ?thesis by (simp add: evaluate_event_driven_edges_def)
next
  case False
  let ?ps = "event_edge_pairs events (sort_key (\<lambda>w. (ww_workflow_execution_id w, ww_edge_id w)) ws)"
  have K: "pair_edge x = pair_edge y" if x: "x \<in> set ?ps" and y: "y \<in> set ?ps" and "pair_key x = pair_key y" for x y
  proof -
    have "fst (snd x) \<in> set events" "fst (snd y) \<in> set events"
      using x y in_enumerate [of _ events] unfolding in_event_edge_pairs by blast+
    with that show ?thesis
      unfolding pair_edge_def pair_key_def by (intro assms) (simp_all add: in_event_edge_pairs)
  qed
  have T: "set (ed_taken_edge_ids (ev_outcome (evaluate_pairs p ?ps s))) = set (ed_taken_edge_ids (ev_outcome s))
    \<union> pair_edge ` {x \<in> set ?ps. pair_wakes x \<and> pair_key x \<notin> ev_consumed s}" for s
    by (rule evaluate_pairs_taken) (erule (2) K)
  show ?thesis
    unfolding evaluate_event_driven_edges_pairs [OF False] Let_def fst_conv T
    using event_edge_pair_image [where P = "\<lambda>e w. wakes e w \<and> consumption_key e w \<notin> consumed" and f = "\<lambda>e w. ww_edge_id w"]
    by (simp add: pair_key_def pair_wakes_def pair_edge_def [abs_def])
qed

lemma evaluate_pairs_wake_order: "1 \<le> ev_wake_order s \<Longrightarrow> 1 \<le> ev_wake_order (evaluate_pairs p ps s)"
proof (induction ps arbitrary: s)
  case Nil then show ?case by (simp add: evaluate_pairs_Nil)
next
  case (Cons x ps)
  show ?case unfolding evaluate_pairs_Cons
    by (rule Cons.IH) (use Cons.prems in \<open>simp add: evaluate_pair_fields\<close>)
qed

lemma evaluate_wakes:
  assumes "evaluate_event_driven_edges ws events consumed p = (outcome, consumed')"
  shows "map ew_edge_id (wb_wake_decisions (ed_evidence outcome)) = ed_taken_edge_ids outcome"
    "map ew_wake_order (wb_wake_decisions (ed_evidence outcome)) = [1..<Suc (length (ed_taken_edge_ids outcome))]"
proof -
  have "map ew_edge_id (wb_wake_decisions (ed_evidence outcome)) = ed_taken_edge_ids outcome
    \<and> map ew_wake_order (wb_wake_decisions (ed_evidence outcome)) = [1..<Suc (length (ed_taken_edge_ids outcome))]"
  proof (cases "events = []")
    case True
    with assms have "outcome = fst (evaluate_event_driven_edges ws [] consumed p)" by simp
    then show ?thesis by (simp add: evaluate_event_driven_edges_def empty_bundle_def)
  next
    case False
    define s where "s = \<lparr>ev_outcome = \<lparr>ed_taken_edge_ids = [], ed_evidence = empty_bundle\<rparr>, ev_consumed = consumed, ev_wake_order = 1\<rparr>"
    define t where "t = evaluate_pairs p (event_edge_pairs events (sort_key (\<lambda>w. (ww_workflow_execution_id w, ww_edge_id w)) ws)) s"
    have o: "outcome = ev_outcome t"
      using assms unfolding evaluate_event_driven_edges_pairs [OF False] Let_def s_def [symmetric] t_def [symmetric] by simp
    have "map ew_edge_id (wb_wake_decisions (ed_evidence (ev_outcome t))) = ed_taken_edge_ids (ev_outcome t)
      \<and> map ew_wake_order (wb_wake_decisions (ed_evidence (ev_outcome t))) = [1..<ev_wake_order t]"
      unfolding t_def by (rule evaluate_pairs_wakes) (simp_all add: s_def empty_bundle_def)
    then have e: "map ew_edge_id (wb_wake_decisions (ed_evidence outcome)) = ed_taken_edge_ids outcome"
      and r: "map ew_wake_order (wb_wake_decisions (ed_evidence outcome)) = [1..<ev_wake_order t]"
      unfolding o by blast+
    have "1 \<le> ev_wake_order t"
      unfolding t_def by (rule evaluate_pairs_wake_order) (simp add: s_def)
    then have "ev_wake_order t = Suc (length (ed_taken_edge_ids outcome))"
      using arg_cong [OF e, of length] arg_cong [OF r, of length] by simp
    with e r show ?thesis by simp
  qed
  then show "map ew_edge_id (wb_wake_decisions (ed_evidence outcome)) = ed_taken_edge_ids outcome"
    "map ew_wake_order (wb_wake_decisions (ed_evidence outcome)) = [1..<Suc (length (ed_taken_edge_ids outcome))]"
    by blast+
qed


definition sample_waiting :: "string \<Rightarrow> string \<Rightarrow> WaitingWorkflowEdgeContext" where
  "sample_waiting edge event = \<lparr>ww_workflow_execution_id = ''x'', ww_edge_id = edge, ww_from_node_id = ''a'',
     ww_to_node_id = ''b'', ww_event_ref = \<lparr>er_event_id = event, er_version = ''1''\<rparr>,
     ww_predicate = Some \<lparr>wp_field = ''payload.ok'', wp_equals = JBool True\<rparr>\<rparr>"

definition sample_emitted :: "string \<Rightarrow> bool \<Rightarrow> EmittedEventRecord" where
  "sample_emitted event ok = \<lparr>ee_record_id = ''r'', ee_event = \<lparr>er_event_id = event, er_version = ''1''\<rparr>,
     ee_payload = Some (JObject [(''ok'', JBool ok)]), ee_source = None\<rparr>"

lemma sample_wakes: "wakes (sample_emitted event ok) (sample_waiting edge event') \<longleftrightarrow> event = event' \<and> ok"
  by (auto simp: wakes_def sample_emitted_def sample_waiting_def predicate_passed_def event_payload_field_def
        split_on_def)


end
