(* ===== verification/Capability_Metadata.thy ===== *)
theory Capability_Metadata
  imports Artifact_Security
begin

text \<open>
  The persisted capability index and the cache of hydrated contracts:
  \<^verbatim>\<open>crates/traverse-runtime/src/capability_metadata.rs\<close>, and the capability that
  \<^verbatim>\<open>crates/traverse-runtime/src/workspace_lazy.rs\<close> builds from an indexed contract.

  Reading a file, SHA-256, the UTF-8 check and the two deserializers are the parameters of a
  \<open>HydrationPlatform\<close>; files may change between calls. A \<^verbatim>\<open>BTreeMap\<close> is an association list sorted
  by its keys, the \<^verbatim>\<open>HashMap\<close> of the cache an association list without repeated keys. The cache is
  used by one caller at a time: an in-flight slot is created and removed within a call. The
  evidence lines written to standard error are left out.
\<close>

section \<open>Definitions\<close>

subsection \<open>The index\<close>

record HydrationKey =
  hk_capability_id :: string
  hk_capability_version :: string
  hk_contract_digest :: string

record IndexedWorkflowRef =
  iw_workflow_id :: string
  iw_workflow_version :: string
  iw_workflow_digest :: "string option"

record IndexedCapability =
  ic_app_id :: string
  ic_app_version :: string
  ic_component_id :: string
  ic_component_version :: string
  ic_capability_id :: string
  ic_capability_version :: string
  ic_contract_digest :: string
  ic_artifact_digest :: "string option"
  ic_execution_mode :: "string option"
  ic_platforms :: "string list"
  ic_workflow_refs :: "IndexedWorkflowRef list"

record IndexedSource =
  src_contract :: string
  src_artifact :: string
  src_manifest :: string

record CapabilityMetadataIndex =
  cmi_entries :: "(string \<times> IndexedCapability) list"
  cmi_sources :: "(string \<times> IndexedSource) list"

record PersistedComponent =
  pc_component_id :: string
  pc_component_version :: string
  pc_capability_id :: string
  pc_capability_version :: string
  pc_wasm_digest :: "string option"
  pc_contract_digest :: "string option"
  pc_contract_path :: string
  pc_artifact_ref :: string
  pc_manifest_path :: string
  pc_execution_mode :: "string option"
  pc_platforms :: "string list"

record PersistedRegistration =
  pr_app_id :: string
  pr_app_version :: string
  pr_components :: "PersistedComponent list"
  pr_workflows :: "IndexedWorkflowRef list"

record HydrationPlatform =
  hp_read :: "string \<Rightarrow> string option"
  hp_sha256 :: "string \<Rightarrow> string"
  hp_utf8 :: "string \<Rightarrow> bool"
  hp_parse_contract :: "string \<Rightarrow> CapabilityContract option"
  hp_parse_registration :: "string \<Rightarrow> PersistedRegistration option"

text \<open>\<^verbatim>\<open>BTreeMap::insert\<close>\<close>

fun bt_insert :: "'k::linorder \<Rightarrow> 'v \<Rightarrow> ('k \<times> 'v) list \<Rightarrow> ('k \<times> 'v) list" where
  "bt_insert k v [] = [(k, v)]"
| "bt_insert k v ((k', v') # m) =
     (if k < k' then (k, v) # (k', v') # m
      else if k = k' then (k, v) # m
      else (k', v') # bt_insert k v m)"

definition lookup_key :: "string \<Rightarrow> string \<Rightarrow> string" where
  "lookup_key cap_id cap_version = cap_id @ ''@'' @ cap_version"

definition contract_digest_of :: "HydrationPlatform \<Rightarrow> string \<Rightarrow> string" where
  "contract_digest_of hp bytes = ''sha256:'' @ hex_encode (hp_sha256 hp bytes)"

definition digest_file :: "HydrationPlatform \<Rightarrow> string \<Rightarrow> string option" where
  "digest_file hp path = map_option (contract_digest_of hp) (hp_read hp path)"

definition empty_index :: CapabilityMetadataIndex where
  "empty_index = \<lparr>cmi_entries = [], cmi_sources = []\<rparr>"

definition extend_component ::
  "HydrationPlatform \<Rightarrow> PersistedRegistration \<Rightarrow> PersistedComponent \<Rightarrow> CapabilityMetadataIndex \<Rightarrow> CapabilityMetadataIndex" where
  "extend_component hp registration component index =
     (let digest = (case pc_contract_digest component of
                      Some d \<Rightarrow> d
                    | None \<Rightarrow> (case digest_file hp (pc_contract_path component) of Some d \<Rightarrow> d | None \<Rightarrow> []))
      in if blank (pc_capability_id component) \<or> digest = [] then index
         else (let key = lookup_key (pc_capability_id component) (pc_capability_version component);
                   index = index\<lparr>cmi_entries := bt_insert key
                     \<lparr>ic_app_id = pr_app_id registration, ic_app_version = pr_app_version registration,
                      ic_component_id = pc_component_id component, ic_component_version = pc_component_version component,
                      ic_capability_id = pc_capability_id component,
                      ic_capability_version = pc_capability_version component,
                      ic_contract_digest = digest, ic_artifact_digest = pc_wasm_digest component,
                      ic_execution_mode = pc_execution_mode component, ic_platforms = pc_platforms component,
                      ic_workflow_refs = pr_workflows registration\<rparr> (cmi_entries index)\<rparr>
               in if pc_contract_path component = [] then index
                  else index\<lparr>cmi_sources := bt_insert key
                    \<lparr>src_contract = pc_contract_path component, src_artifact = pc_artifact_ref component,
                     src_manifest = pc_manifest_path component\<rparr> (cmi_sources index)\<rparr>))"

definition extend_from_registration :: "HydrationPlatform \<Rightarrow> string \<Rightarrow> CapabilityMetadataIndex \<Rightarrow> CapabilityMetadataIndex" where
  "extend_from_registration hp state_path index =
     (case hp_read hp state_path of
        None \<Rightarrow> index
      | Some bytes \<Rightarrow>
          (case hp_parse_registration hp bytes of
             None \<Rightarrow> index
           | Some registration \<Rightarrow> fold (extend_component hp registration) (pr_components registration) index))"

text \<open>Of an application registration only the path of its state file is read.\<close>

definition from_workspace_applications :: "HydrationPlatform \<Rightarrow> string list \<Rightarrow> CapabilityMetadataIndex" where
  "from_workspace_applications hp state_paths = fold (extend_from_registration hp) state_paths empty_index"

definition index_get :: "CapabilityMetadataIndex \<Rightarrow> string \<Rightarrow> string \<Rightarrow> IndexedCapability option" where
  "index_get index cap_id cap_version =
     map_of (cmi_entries index) (lookup_key cap_id cap_version)"

definition index_source :: "CapabilityMetadataIndex \<Rightarrow> string \<Rightarrow> string \<Rightarrow> IndexedSource option" where
  "index_source index cap_id cap_version =
     map_of (cmi_sources index) (lookup_key cap_id cap_version)"

definition index_entries :: "CapabilityMetadataIndex \<Rightarrow> IndexedCapability list" where
  "index_entries index = map snd (cmi_entries index)"

subsection \<open>The cache\<close>

datatype HydrationEvidenceKind =
  IndexLookup | CacheHit | HydrationLeader | CoalescedWaiter | Eviction | HydrationFailure

record HydrationEvidence =
  hev_schema_version :: string
  hev_kind :: HydrationEvidenceKind
  hev_capability_id :: string
  hev_capability_version :: string
  hev_contract_digest :: string
  hev_reason_code :: string

record HydrationError =
  he_code :: string
  he_message :: string

type_synonym hydration_result = "(CapabilityContract, HydrationError) result"

record CacheInner =
  ci_order :: "HydrationKey list"
  ci_entries :: "(HydrationKey \<times> CapabilityContract) list"
  ci_inflight :: "HydrationKey \<rightharpoonup> hydration_result option"
  ci_evidence :: "HydrationEvidence list"

record ContractHydrationCache =
  chc_capacity :: nat
  chc_inner :: CacheInner

definition new_cache :: "nat \<Rightarrow> ContractHydrationCache" where
  "new_cache capacity = \<lparr>chc_capacity = max capacity 1,
     chc_inner = \<lparr>ci_order = [], ci_entries = [], ci_inflight = Map.empty, ci_evidence = []\<rparr>\<rparr>"

definition key_of :: "IndexedCapability \<Rightarrow> HydrationKey" where
  "key_of entry = \<lparr>hk_capability_id = ic_capability_id entry,
     hk_capability_version = ic_capability_version entry, hk_contract_digest = ic_contract_digest entry\<rparr>"

definition EVIDENCE_SCHEMA_VERSION :: string where
  "EVIDENCE_SCHEMA_VERSION = ''1.0.0''"

definition record_ids ::
  "HydrationEvidenceKind \<Rightarrow> string \<Rightarrow> string \<Rightarrow> string \<Rightarrow> string \<Rightarrow> CacheInner \<Rightarrow> CacheInner" where
  "record_ids evidence_kind cap_id cap_version digest reason inner =
     inner\<lparr>ci_evidence := ci_evidence inner @
       [\<lparr>hev_schema_version = EVIDENCE_SCHEMA_VERSION, hev_kind = evidence_kind, hev_capability_id = cap_id,
         hev_capability_version = cap_version, hev_contract_digest = digest, hev_reason_code = reason\<rparr>]\<rparr>"

definition record_evidence :: "HydrationEvidenceKind \<Rightarrow> IndexedCapability \<Rightarrow> string \<Rightarrow> CacheInner \<Rightarrow> CacheInner" where
  "record_evidence evidence_kind entry reason inner =
     record_ids evidence_kind (ic_capability_id entry) (ic_capability_version entry) (ic_contract_digest entry) reason inner"

definition cache_get :: "CacheInner \<Rightarrow> HydrationKey \<Rightarrow> CapabilityContract option \<times> CacheInner" where
  "cache_get inner key =
     (case map_of (ci_entries inner) key of
        None \<Rightarrow> (None, inner)
      | Some hit \<Rightarrow> (Some hit, inner\<lparr>ci_order := remove1 key (ci_order inner) @ [key]\<rparr>))"

text \<open>The eviction loop of \<^verbatim>\<open>insert\<close>: the least recently used key leaves while the cache is full.\<close>

fun evict :: "nat \<Rightarrow> HydrationKey list \<Rightarrow> CacheInner \<Rightarrow> CacheInner" where
  "evict capacity [] inner = inner\<lparr>ci_order := []\<rparr>"
| "evict capacity (key # order) inner =
     (if length (ci_entries inner) \<ge> capacity
      then evict capacity order
             (record_ids Eviction (hk_capability_id key) (hk_capability_version key) (hk_contract_digest key)
               ''hydration_cache_evicted''
               (inner\<lparr>ci_entries := filter (\<lambda>(k, _). k \<noteq> key) (ci_entries inner)\<rparr>))
      else inner\<lparr>ci_order := key # order\<rparr>)"

definition cache_insert :: "nat \<Rightarrow> HydrationKey \<Rightarrow> CapabilityContract \<Rightarrow> CacheInner \<Rightarrow> CacheInner" where
  "cache_insert capacity key cc inner =
     (if map_of (ci_entries inner) key \<noteq> None then inner
      else (let inner = evict capacity (ci_order inner) inner
            in inner\<lparr>ci_order := ci_order inner @ [key], ci_entries := (key, cc) # ci_entries inner\<rparr>))"

definition hydration_fail :: "IndexedCapability \<Rightarrow> string \<Rightarrow> CacheInner \<Rightarrow> hydration_result \<times> CacheInner" where
  "hydration_fail entry reason inner =
     (Err \<lparr>he_code = reason, he_message = ''persisted contract could not be hydrated''\<rparr>,
      record_evidence HydrationFailure entry reason inner)"

definition hydrate_leader ::
  "HydrationPlatform \<Rightarrow> nat \<Rightarrow> CapabilityMetadataIndex \<Rightarrow> IndexedCapability \<Rightarrow> CacheInner \<Rightarrow> hydration_result \<times> CacheInner" where
  "hydrate_leader hp capacity index entry inner =
     (case index_source index (ic_capability_id entry) (ic_capability_version entry) of
           None \<Rightarrow> hydration_fail entry ''contract_source_missing'' inner
         | Some source \<Rightarrow>
             (case hp_read hp (src_contract source) of
                None \<Rightarrow> hydration_fail entry ''contract_unreadable'' inner
              | Some bytes \<Rightarrow>
                  if contract_digest_of hp bytes \<noteq> ic_contract_digest entry
                  then hydration_fail entry ''contract_digest_mismatch'' inner
                  else if \<not> hp_utf8 hp bytes then hydration_fail entry ''contract_not_utf8'' inner
                  else (case hp_parse_contract hp bytes of
                          None \<Rightarrow> hydration_fail entry ''contract_parse_failed'' inner
                        | Some parsed \<Rightarrow> (Ok parsed, cache_insert capacity (key_of entry) parsed inner))))"

definition hydrate ::
  "HydrationPlatform \<Rightarrow> CapabilityMetadataIndex \<Rightarrow> string \<Rightarrow> string \<Rightarrow> ContractHydrationCache \<Rightarrow>
     hydration_result \<times> ContractHydrationCache" where
  "hydrate hp index cap_id cap_version cache =
     (let inner = chc_inner cache
      in case index_get index cap_id cap_version of
           None \<Rightarrow>
             (Err \<lparr>he_code = ''indexed_capability_missing'',
                   he_message = ''capability is not present in the persisted metadata index''\<rparr>,
              cache\<lparr>chc_inner := record_ids HydrationFailure cap_id cap_version []
                ''indexed_capability_missing'' inner\<rparr>)
         | Some entry \<Rightarrow>
             (let key = key_of entry;
                  inner = record_evidence IndexLookup entry ''indexed_capability_found'' inner
              in case cache_get inner key of
                   (Some hit, inner) \<Rightarrow>
                     (Ok hit, cache\<lparr>chc_inner := record_evidence CacheHit entry ''hydration_cache_hit'' inner\<rparr>)
                 | (None, inner) \<Rightarrow>
                     (let slot = (case ci_inflight inner key of None \<Rightarrow> None | Some s \<Rightarrow> s);
                          inner = inner\<lparr>ci_inflight := (ci_inflight inner)(key \<mapsto> slot)\<rparr>
                      in case slot of
                           Some existing \<Rightarrow>
                             (existing, cache\<lparr>chc_inner := record_evidence CoalescedWaiter entry ''hydration_coalesced'' inner\<rparr>)
                         | None \<Rightarrow>
                             (let inner = record_evidence HydrationLeader entry ''hydration_leader'' inner;
                                  (outcome, inner) = hydrate_leader hp (chc_capacity cache) index entry inner
                              in (outcome, cache\<lparr>chc_inner := inner\<lparr>ci_inflight := (ci_inflight inner)(key := None)\<rparr>\<rparr>)))))"

subsection \<open>The capability of an indexed contract\<close>

definition indexed_artifact_ref :: "IndexedCapability \<Rightarrow> bool \<Rightarrow> string" where
  "indexed_artifact_ref entry artifact_missing =
     (if artifact_missing
      then ''app:'' @ ic_app_id entry @ '':'' @ ic_app_version entry @ '':'' @ ic_capability_id entry
      else ''app:'' @ ic_app_id entry @ '':'' @ ic_app_version entry @ '':component:''
           @ ic_component_id entry @ '':'' @ ic_component_version entry)"

definition wasm_binary :: "string \<Rightarrow> BinaryReference option" where
  "wasm_binary artifact_path =
     (if artifact_path = [] then None
      else Some \<lparr>binary_location = artifact_path, binary_signature = None\<rparr>)"

definition resolved_from_index ::
  "CapabilityMetadataIndex \<Rightarrow> CapabilityContract \<Rightarrow> string \<Rightarrow> string \<Rightarrow> ResolvedCapability" where
  "resolved_from_index index cc cap_id cap_version =
     (let (entry, source) =
        (case (index_get index cap_id cap_version, index_source index cap_id cap_version) of
           (Some entry, Some source) \<Rightarrow> (entry, source)
         | _ \<Rightarrow>
             (\<lparr>ic_app_id = [], ic_app_version = [], ic_component_id = cc_id cc,
               ic_component_version = cc_version cc, ic_capability_id = cc_id cc,
               ic_capability_version = cc_version cc, ic_contract_digest = [], ic_artifact_digest = None,
               ic_execution_mode = None, ic_platforms = [], ic_workflow_refs = []\<rparr>,
              \<lparr>src_contract = [], src_artifact = [], src_manifest = []\<rparr>));
          artifact_ref = indexed_artifact_ref entry (src_artifact source = [])
      in \<lparr>rc_record = \<lparr>rec_scope = PrivateScope, rec_id = cc_id cc, rec_version = cc_version cc,
            rec_artifact_ref = artifact_ref, rec_contract_path = src_contract source,
            rec_implementation_kind = ExecutableKind, rec_lifecycle = cc_lifecycle cc\<rparr>,
          rc_contract = cc,
          rc_artifact = \<lparr>artifact_binary = wasm_binary (src_artifact source),
            binary_digest = ic_artifact_digest entry, source_digest = ic_contract_digest entry,
            artifact_source_kind = LocalSource, artifact_workflow_ref = None\<rparr>\<rparr>)"

definition hydrate_resolved_capability ::
  "HydrationPlatform \<Rightarrow> CapabilityMetadataIndex \<Rightarrow> string \<Rightarrow> string \<Rightarrow> ContractHydrationCache \<Rightarrow>
     (ResolvedCapability, HydrationError) result \<times> ContractHydrationCache" where
  "hydrate_resolved_capability hp index cap_id cap_version cache =
     (case hydrate hp index cap_id cap_version cache of
        (Inl e, cache) \<Rightarrow> (Err e, cache)
      | (Inr cc, cache) \<Rightarrow> (Ok (resolved_from_index index cc cap_id cap_version), cache))"

section \<open>The cache as a least-recently-used list\<close>

text \<open>The specification: pairs in the order of their last use. A hit moves its pair to the end; a
  loaded contract is appended after the oldest pairs made room for it.\<close>

type_synonym lru = "(HydrationKey \<times> CapabilityContract) list"

definition load_contract :: "HydrationPlatform \<Rightarrow> CapabilityMetadataIndex \<Rightarrow> IndexedCapability \<Rightarrow> hydration_result" where
  "load_contract hp index entry =
     (let fail = (\<lambda>reason. Err \<lparr>he_code = reason, he_message = ''persisted contract could not be hydrated''\<rparr>)
      in and_then (ok_or (index_source index (ic_capability_id entry) (ic_capability_version entry))
           \<lparr>he_code = ''contract_source_missing'', he_message = ''persisted contract could not be hydrated''\<rparr>) (\<lambda>source.
         and_then (ok_or (hp_read hp (src_contract source))
           \<lparr>he_code = ''contract_unreadable'', he_message = ''persisted contract could not be hydrated''\<rparr>) (\<lambda>bytes.
         if contract_digest_of hp bytes \<noteq> ic_contract_digest entry then fail ''contract_digest_mismatch''
         else if \<not> hp_utf8 hp bytes then fail ''contract_not_utf8''
         else ok_or (hp_parse_contract hp bytes)
           \<lparr>he_code = ''contract_parse_failed'', he_message = ''persisted contract could not be hydrated''\<rparr>)))"

definition lru_hydrate ::
  "HydrationPlatform \<Rightarrow> CapabilityMetadataIndex \<Rightarrow> nat \<Rightarrow> string \<Rightarrow> string \<Rightarrow> lru \<Rightarrow> hydration_result \<times> lru" where
  "lru_hydrate hp index capacity cap_id cap_version l =
     (case index_get index cap_id cap_version of
        None \<Rightarrow> (Err \<lparr>he_code = ''indexed_capability_missing'',
                      he_message = ''capability is not present in the persisted metadata index''\<rparr>, l)
      | Some entry \<Rightarrow>
          (case map_of l (key_of entry) of
             Some cc \<Rightarrow> (Ok cc, filter (\<lambda>(k, _). k \<noteq> key_of entry) l @ [(key_of entry, cc)])
           | None \<Rightarrow>
               (case load_contract hp index entry of
                  Inl e \<Rightarrow> (Err e, l)
                | Inr cc \<Rightarrow> (Ok cc, drop (Suc (length l) - capacity) l @ [(key_of entry, cc)]))))"

definition cache_abs :: "ContractHydrationCache \<Rightarrow> lru" where
  "cache_abs cache = map (\<lambda>k. (k, the (map_of (ci_entries (chc_inner cache)) k))) (ci_order (chc_inner cache))"

text \<open>A sequence of calls, each with the files as they are at its time.\<close>

fun hydrate_run ::
  "CapabilityMetadataIndex \<Rightarrow> (HydrationPlatform \<times> string \<times> string) list \<Rightarrow> ContractHydrationCache \<Rightarrow>
     hydration_result list \<times> ContractHydrationCache" where
  "hydrate_run index [] cache = ([], cache)"
| "hydrate_run index ((hp, cap_id, cap_version) # calls) cache =
     (let (r, cache) = hydrate hp index cap_id cap_version cache;
          (rs, cache) = hydrate_run index calls cache
      in (r # rs, cache))"

fun lru_run ::
  "CapabilityMetadataIndex \<Rightarrow> nat \<Rightarrow> (HydrationPlatform \<times> string \<times> string) list \<Rightarrow> lru \<Rightarrow> hydration_result list \<times> lru" where
  "lru_run index capacity [] l = ([], l)"
| "lru_run index capacity ((hp, cap_id, cap_version) # calls) l =
     (let (r, l) = lru_hydrate hp index capacity cap_id cap_version l;
          (rs, l) = lru_run index capacity calls l
      in (r # rs, l))"


text \<open>The contracts a run returned and the contracts it loaded from verified bytes, by their keys.\<close>

definition served ::
  "CapabilityMetadataIndex \<Rightarrow> (HydrationPlatform \<times> string \<times> string) list \<Rightarrow> hydration_result list \<Rightarrow>
     (HydrationKey \<times> CapabilityContract) set" where
  "served index calls rs = {(key_of entry, cc) | hp cap_id cap_version entry cc.
     ((hp, cap_id, cap_version), Ok cc) \<in> set (zip calls rs) \<and> index_get index cap_id cap_version = Some entry}"

definition verified_load ::
  "CapabilityMetadataIndex \<Rightarrow> HydrationPlatform \<Rightarrow> HydrationKey \<Rightarrow> CapabilityContract \<Rightarrow> bool" where
  "verified_load index hp key cc \<longleftrightarrow>
     (\<exists>source bytes. index_source index (hk_capability_id key) (hk_capability_version key) = Some source
        \<and> hp_read hp (src_contract source) = Some bytes \<and> contract_digest_of hp bytes = hk_contract_digest key
        \<and> hp_parse_contract hp bytes = Some cc)"

section \<open>Proofs\<close>

definition cache_inv :: "ContractHydrationCache \<Rightarrow> bool" where
  "cache_inv cache \<longleftrightarrow>
     (let inner = chc_inner cache
      in distinct (ci_order inner) \<and> distinct (map fst (ci_entries inner))
         \<and> set (ci_order inner) = fst ` set (ci_entries inner)
         \<and> length (ci_order inner) \<le> chc_capacity cache \<and> 1 \<le> chc_capacity cache
         \<and> ci_inflight inner = Map.empty)"

definition pairs_of :: "HydrationKey list \<Rightarrow> lru \<Rightarrow> lru" where
  "pairs_of order entries = map (\<lambda>k. (k, the (map_of entries k))) order"

lemma cache_abs_pairs: "cache_abs cache = pairs_of (ci_order (chc_inner cache)) (ci_entries (chc_inner cache))"
  by (simp add: cache_abs_def pairs_of_def)

lemma map_of_pairs:
  "map_of (pairs_of order entries) k = (if k \<in> set order then Some (the (map_of entries k)) else None)"
  by (induction order) (auto simp: pairs_of_def)

lemma map_of_pairs_entries:
  assumes "set order = fst ` set entries"
  shows "map_of (pairs_of order entries) k = map_of entries k"
proof (cases "map_of entries k")
  case None
  then have "k \<notin> set order"
    using assms by (simp add: map_of_eq_None_iff)
  with None show ?thesis by (simp add: map_of_pairs)
next
  case (Some cc)
  then have "k \<in> set order"
    using assms by (force dest: map_of_SomeD)
  with Some show ?thesis by (simp add: map_of_pairs)
qed

lemma pairs_of_cong:
  "(\<And>k. k \<in> set order \<Longrightarrow> map_of entries k = map_of entries' k) \<Longrightarrow> pairs_of order entries = pairs_of order entries'"
  by (simp add: pairs_of_def)

lemma pairs_append: "pairs_of (ks @ ks') es = pairs_of ks es @ pairs_of ks' es"
  by (simp add: pairs_of_def)

lemma pairs_drop: "pairs_of (drop n ks) es = drop n (pairs_of ks es)"
  by (simp add: pairs_of_def drop_map)

lemma record_evidence_fields [simp]:
  "ci_order (record_evidence ek entry r inner) = ci_order inner"
  "ci_entries (record_evidence ek entry r inner) = ci_entries inner"
  "ci_inflight (record_evidence ek entry r inner) = ci_inflight inner"
  "ci_order (record_ids ek a b c r inner) = ci_order inner"
  "ci_entries (record_ids ek a b c r inner) = ci_entries inner"
  "ci_inflight (record_ids ek a b c r inner) = ci_inflight inner"
  by (simp_all add: record_evidence_def record_ids_def)

lemma keys_length:
  assumes "distinct order" "distinct (map fst entries)" "set order = fst ` set entries"
  shows "length entries = length order"
  using assms by (metis distinct_card length_map list.set_map)

lemma map_of_filter_key:
  "k \<noteq> key \<Longrightarrow> map_of (filter (\<lambda>(k, _). k \<noteq> key) m) k = map_of m k"
  by (induction m) auto

lemma distinct_keys_filter: "distinct (map fst m) \<Longrightarrow> distinct (map fst (filter P m))"
  by (rule distinct_map_filter)

lemma keys_filter: "fst ` set (filter (\<lambda>(k, _). k \<noteq> key) m) = fst ` set m - {key}"
  by force

lemma evict_spec:
  assumes "distinct order" "distinct (map fst (ci_entries inner))" "set order = fst ` set (ci_entries inner)"
    "1 \<le> capacity"
  defines "inner' \<equiv> evict capacity order inner"
  shows "ci_order inner' = drop (Suc (length order) - capacity) order
    \<and> distinct (map fst (ci_entries inner')) \<and> fst ` set (ci_entries inner') = set (ci_order inner')
    \<and> (\<forall>k\<in>set (ci_order inner'). map_of (ci_entries inner') k = map_of (ci_entries inner) k)
    \<and> ci_inflight inner' = ci_inflight inner"
  using assms(1-4) unfolding inner'_def
proof (induction order arbitrary: inner)
  case Nil then show ?case by simp
next
  case (Cons key order)
  have len: "length (ci_entries inner) = Suc (length order)"
    using keys_length [OF Cons.prems(1-3)] by simp
  show ?case
  proof (cases "capacity \<le> Suc (length order)")
    case False
    with len Cons.prems show ?thesis by simp
  next
    case True
    let ?inner = "record_ids Eviction (hk_capability_id key) (hk_capability_version key) (hk_contract_digest key)
       ''hydration_cache_evicted'' (inner\<lparr>ci_entries := filter (\<lambda>(k, _). k \<noteq> key) (ci_entries inner)\<rparr>)"
    have e: "evict capacity (key # order) inner = evict capacity order ?inner"
      using True len by simp
    have keys: "set order = fst ` set (ci_entries ?inner)"
    proof -
      have "fst ` set (ci_entries ?inner) = fst ` set (ci_entries inner) - {key}"
        by (simp add: keys_filter del: set_filter)
      with Cons.prems(1,3) show ?thesis by auto
    qed
    have "distinct (map fst (ci_entries ?inner))"
      using Cons.prems(2) by (simp add: distinct_keys_filter)
    note IH = Cons.IH [OF _ this keys Cons.prems(4)]
    have d: "drop (Suc (length (key # order)) - capacity) (key # order) = drop (Suc (length order) - capacity) order"
      using True by (simp add: Suc_diff_le)
    have "map_of (ci_entries ?inner) k = map_of (ci_entries inner) k" if "k \<in> set (drop n order)" for n k
    proof -
      have "k \<noteq> key" using that Cons.prems(1) by (auto dest: in_set_dropD)
      then show ?thesis by (simp add: map_of_filter_key)
    qed
    with IH Cons.prems(1) show ?thesis
      unfolding e d by simp
  qed
qed

lemma cache_insert_inv:
  fixes cc :: CapabilityContract
  assumes inv: "cache_inv cache" and miss: "map_of (ci_entries (chc_inner cache)) key = None"
    and inner: "ci_order inner = ci_order (chc_inner cache)" "ci_entries inner = ci_entries (chc_inner cache)"
      "ci_inflight inner = (Map.empty(key := f))"
  defines "cache' \<equiv> cache\<lparr>chc_inner := (cache_insert (chc_capacity cache) key cc inner)
       \<lparr>ci_inflight := (ci_inflight (cache_insert (chc_capacity cache) key cc inner))(key := None)\<rparr>\<rparr>"
  shows "cache_inv cache' \<and> cache_abs cache' =
    drop (Suc (length (cache_abs cache)) - chc_capacity cache) (cache_abs cache) @ [(key, cc)]"
proof -
  note inv' = inv [unfolded cache_inv_def Let_def]
  let ?e = "evict (chc_capacity cache) (ci_order inner) inner"
  note E = evict_spec [of "ci_order inner" inner "chc_capacity cache", unfolded inner(1,2)]
  have E1: "ci_order ?e = drop (Suc (length (ci_order inner)) - chc_capacity cache) (ci_order inner)"
    and E2: "distinct (map fst (ci_entries ?e))" and E3: "fst ` set (ci_entries ?e) = set (ci_order ?e)"
    and E4: "\<forall>k\<in>set (ci_order ?e). map_of (ci_entries ?e) k = map_of (ci_entries inner) k"
    and E5: "ci_inflight ?e = ci_inflight inner"
    using E inv' inner by auto
  have "key \<notin> set (ci_order inner)"
    using miss inv' inner(1) by (simp add: map_of_eq_None_iff)
  then have fresh: "key \<notin> set (ci_order ?e)"
    unfolding E1 by (auto dest: in_set_dropD)
  have ins: "cache_insert (chc_capacity cache) key cc inner
    = ?e\<lparr>ci_order := ci_order ?e @ [key], ci_entries := (key, cc) # ci_entries ?e\<rparr>"
    using miss inner by (simp add: cache_insert_def Let_def)
  have D: "distinct (ci_order ?e)" "Suc (length (ci_order ?e)) \<le> chc_capacity cache"
    using inv' inner(1) unfolding E1 by auto
  have "cache_inv cache'"
    using inv' D E2 E3 E5 fresh inner(3) unfolding cache'_def ins cache_inv_def Let_def
    by simp
  have "pairs_of (ci_order ?e) ((key, cc) # ci_entries ?e) = pairs_of (ci_order ?e) (ci_entries (chc_inner cache))"
    by (rule pairs_of_cong) (use E4 fresh inner in auto)
  moreover have "pairs_of (ci_order ?e) es = drop (Suc (length (ci_order (chc_inner cache))) - chc_capacity cache)
      (pairs_of (ci_order (chc_inner cache)) es)" for es
    unfolding E1 pairs_drop by (simp add: inner)
  ultimately have "cache_abs cache' =
      drop (Suc (length (cache_abs cache)) - chc_capacity cache) (cache_abs cache) @ [(key, cc)]"
    unfolding cache'_def ins cache_abs_pairs
    by (simp add: pairs_append) (simp add: pairs_of_def)
  with \<open>cache_inv cache'\<close> show ?thesis by blast
qed

lemma hydrate_leader_load:
  "hydrate_leader hp capacity index entry inner =
     (case load_contract hp index entry of
        Inl e \<Rightarrow> (Err e, record_evidence HydrationFailure entry (he_code e) inner)
      | Inr cc \<Rightarrow> (Ok cc, cache_insert capacity (key_of entry) cc inner))"
  by (auto simp: hydrate_leader_def load_contract_def hydration_fail_def Let_def ok_or_def
        split: option.splits)

lemma cache_hit_abs:
  assumes inv: "cache_inv cache" and hit: "map_of (ci_entries (chc_inner cache)) key = Some cc"
    and inner: "ci_order inner = remove1 key (ci_order (chc_inner cache)) @ [key]"
      "ci_entries inner = ci_entries (chc_inner cache)" "ci_inflight inner = ci_inflight (chc_inner cache)"
  shows "cache_inv (cache\<lparr>chc_inner := inner\<rparr>)
    \<and> cache_abs (cache\<lparr>chc_inner := inner\<rparr>) = filter (\<lambda>(k, _). k \<noteq> key) (cache_abs cache) @ [(key, cc)]"
proof -
  note inv' = inv [unfolded cache_inv_def Let_def]
  have mem: "key \<in> set (ci_order (chc_inner cache))"
    using inv' hit by (force dest: map_of_SomeD)
  have rem: "remove1 key (ci_order (chc_inner cache)) = filter (\<lambda>k. k \<noteq> key) (ci_order (chc_inner cache))"
    using inv' by (simp add: distinct_remove1_removeAll removeAll_filter_not_eq) (metis)
  have "pairs_of (filter (\<lambda>k. k \<noteq> key) ks) es = filter (\<lambda>(k, _). k \<noteq> key) (pairs_of ks es)" for ks es
    by (simp add: pairs_of_def filter_map o_def)
  moreover have "cache_inv (cache\<lparr>chc_inner := inner\<rparr>)"
    using inv' mem length_remove1 [of key "ci_order (chc_inner cache)"] length_pos_if_in_set [OF mem]
    unfolding cache_inv_def Let_def by (auto simp: inner)
  ultimately show ?thesis
    using hit unfolding cache_abs_pairs
    by (simp add: inner rem) (simp add: pairs_of_def)
qed


lemma hydrate_refines:
  assumes inv: "cache_inv cache" and run: "hydrate hp index cap_id cap_version cache = (r, cache')"
  shows "lru_hydrate hp index (chc_capacity cache) cap_id cap_version (cache_abs cache) = (r, cache_abs cache')"
    "cache_inv cache'" "chc_capacity cache' = chc_capacity cache"
proof -
  note inv' = inv [unfolded cache_inv_def Let_def]
  have look: "map_of (cache_abs cache) k = map_of (ci_entries (chc_inner cache)) k" for k
    unfolding cache_abs_pairs using inv' by (intro map_of_pairs_entries) simp
  have same: "cache_abs (cache\<lparr>chc_inner := inner\<rparr>) = cache_abs cache \<and> cache_inv (cache\<lparr>chc_inner := inner\<rparr>)"
    if "ci_order inner = ci_order (chc_inner cache)" "ci_entries inner = ci_entries (chc_inner cache)"
      "ci_inflight inner = Map.empty" for inner
    using that inv' by (simp add: cache_abs_def cache_inv_def Let_def)
  have "lru_hydrate hp index (chc_capacity cache) cap_id cap_version (cache_abs cache) = (r, cache_abs cache')
    \<and> cache_inv cache' \<and> chc_capacity cache' = chc_capacity cache"
  proof (cases "index_get index cap_id cap_version")
    case None
    with run inv' show ?thesis by (auto simp: hydrate_def lru_hydrate_def Let_def same)
  next
    case (Some entry)
    let ?inner = "record_evidence IndexLookup entry ''indexed_capability_found'' (chc_inner cache)"
    let ?key = "key_of entry"
    show ?thesis
    proof (cases "map_of (ci_entries (chc_inner cache)) ?key")
      case hit: (Some cc)
      note H = cache_hit_abs [OF inv hit, of "record_evidence CacheHit entry ''hydration_cache_hit''
          (?inner\<lparr>ci_order := remove1 ?key (ci_order ?inner) @ [?key]\<rparr>)", simplified]
      from run hit Some H show ?thesis
        by (auto simp: hydrate_def lru_hydrate_def Let_def cache_get_def look)
    next
      case miss: None
      let ?leader = "record_evidence HydrationLeader entry ''hydration_leader''
          (?inner\<lparr>ci_inflight := (ci_inflight ?inner)(?key \<mapsto> None)\<rparr>)"
      have h: "hydrate hp index cap_id cap_version cache =
          (let (outcome, inner) = hydrate_leader hp (chc_capacity cache) index entry ?leader
           in (outcome, cache\<lparr>chc_inner := inner\<lparr>ci_inflight := (ci_inflight inner)(?key := None)\<rparr>\<rparr>))"
        using Some miss inv' by (simp add: hydrate_def cache_get_def Let_def)
      show ?thesis
      proof (cases "load_contract hp index entry")
        case (Inl e)
        from run inv' show ?thesis
          unfolding h by (auto simp: Inl Some miss hydrate_leader_load lru_hydrate_def look same)
      next
        case (Inr cc)
        note I = cache_insert_inv [OF inv miss, of ?leader "Some None" cc]
        from run inv' I show ?thesis
          unfolding h by (auto simp: Inr Some miss hydrate_leader_load lru_hydrate_def look)
      qed
    qed
  qed
  then show "lru_hydrate hp index (chc_capacity cache) cap_id cap_version (cache_abs cache) = (r, cache_abs cache')"
    "cache_inv cache'" "chc_capacity cache' = chc_capacity cache" by simp_all
qed

lemma hydrate_run_refines:
  assumes "cache_inv cache" "hydrate_run index calls cache = (rs, cache')"
  shows "lru_run index (chc_capacity cache) calls (cache_abs cache) = (rs, cache_abs cache')
    \<and> cache_inv cache' \<and> chc_capacity cache' = chc_capacity cache"
  using assms
proof (induction calls arbitrary: cache rs cache')
  case Nil then show ?case by simp
next
  case (Cons call calls)
  obtain hp cap_id cap_version where call: "call = (hp, cap_id, cap_version)" by (cases call)
  obtain r c1 where s: "hydrate hp index cap_id cap_version cache = (r, c1)" by (cases "hydrate hp index cap_id cap_version cache")
  obtain rs' c2 where t: "hydrate_run index calls c1 = (rs', c2)" by (cases "hydrate_run index calls c1")
  note S = hydrate_refines [OF Cons.prems(1) s]
  from Cons.IH [OF S(2) t] Cons.prems(2) S s t show ?case
    by (auto simp: call)
qed

lemma load_contract_verified:
  "load_contract hp index entry = Ok cc \<Longrightarrow> verified_load index hp (key_of entry) cc"
  by (auto simp: load_contract_def verified_load_def key_of_def Let_def ok_or_def and_then_def
      split: option.splits if_splits sum.splits)

lemma lru_hydrate_sound:
  assumes "lru_hydrate hp index capacity cap_id cap_version l = (r, l')"
    and "set l \<subseteq> V" and "\<And>entry cc. load_contract hp index entry = Ok cc \<Longrightarrow> (key_of entry, cc) \<in> V"
  shows "set l' \<subseteq> V" "index_get index cap_id cap_version = Some entry \<Longrightarrow> r = Ok cc \<Longrightarrow> (key_of entry, cc) \<in> V"
proof -
  show "set l' \<subseteq> V"
    using assms by (auto simp: lru_hydrate_def split: option.splits sum.splits
        dest!: map_of_SomeD in_set_dropD dest: subsetD)
  show "index_get index cap_id cap_version = Some entry \<Longrightarrow> r = Ok cc \<Longrightarrow> (key_of entry, cc) \<in> V"
    using assms by (auto simp: lru_hydrate_def split: option.splits sum.splits dest!: map_of_SomeD)
qed

lemma servedI:
  "((hp, cap_id, cap_version), Ok cc) \<in> set (zip calls rs) \<Longrightarrow> index_get index cap_id cap_version = Some entry \<Longrightarrow>
     (key_of entry, cc) \<in> served index calls rs"
  by (auto simp: served_def)

lemma lru_run_served:
  assumes "lru_run index capacity calls l = (rs, l')" "set l \<subseteq> V"
    and "\<And>hp entry cc. hp \<in> fst ` set calls \<Longrightarrow> load_contract hp index entry = Ok cc \<Longrightarrow> (key_of entry, cc) \<in> V"
  shows "served index calls rs \<subseteq> V"
  using assms
proof (induction calls arbitrary: l rs l')
  case Nil then show ?case by (simp add: served_def)
next
  case (Cons call calls)
  obtain hp cap_id cap_version where call: "call = (hp, cap_id, cap_version)" by (cases call)
  obtain r l1 where s: "lru_hydrate hp index capacity cap_id cap_version l = (r, l1)"
    by (cases "lru_hydrate hp index capacity cap_id cap_version l")
  obtain rs' l2 where t: "lru_run index capacity calls l1 = (rs', l2)" by (cases "lru_run index capacity calls l1")
  have rs: "rs = r # rs'" using Cons.prems(1) by (simp add: call s t)
  have load: "\<And>entry cc. load_contract hp index entry = Ok cc \<Longrightarrow> (key_of entry, cc) \<in> V"
    using Cons.prems(3) [of hp] by (simp add: call)
  note S = lru_hydrate_sound [OF s Cons.prems(2) load]
  have "served index calls rs' \<subseteq> V"
    by (rule Cons.IH [OF t S(1)]) (use Cons.prems(3) in auto)
  then have tail: "\<And>hp cap_id cap_version entry cc. ((hp, cap_id, cap_version), Ok cc) \<in> set (zip calls rs') \<Longrightarrow>
      index_get index cap_id cap_version = Some entry \<Longrightarrow> (key_of entry, cc) \<in> V"
    by (blast intro: servedI)
  from S(2) show ?case
    by (auto simp: served_def rs call intro: tail)
qed

lemma new_cache_inv: "cache_inv (new_cache capacity)" "cache_abs (new_cache capacity) = []"
  "chc_capacity (new_cache capacity) = max capacity 1"
  by (simp_all add: new_cache_def cache_inv_def cache_abs_def)

text \<open>C18: The hydration cache implements a least-recently-used list. For any sequence of calls of
  \<^verbatim>\<open>hydrate\<close>, with the files changing between the calls, the results and the contents in order of
  use are those of the list specification with the configured capacity (at least one), the cache
  never holds more contracts than that, and every contract it returns for a key was parsed, by one
  of the calls, from bytes whose SHA-256 is the digest of that key.\<close>

theorem hydration_cache_refines_lru:
  "case hydrate_run index calls (new_cache capacity) of (rs, cache) \<Rightarrow>
     lru_run index (max capacity 1) calls [] = (rs, cache_abs cache)
     \<and> length (ci_entries (chc_inner cache)) \<le> max capacity 1
     \<and> served index calls rs \<subseteq> {(key, cc). \<exists>hp. hp \<in> fst ` set calls \<and> verified_load index hp key cc}"
proof (cases "hydrate_run index calls (new_cache capacity)")
  case (Pair rs cache)
  note R = hydrate_run_refines [OF new_cache_inv(1) Pair, unfolded new_cache_inv]
  then have "length (ci_entries (chc_inner cache)) \<le> max capacity 1"
    using keys_length [of "ci_order (chc_inner cache)" "ci_entries (chc_inner cache)"]
    by (auto simp: cache_inv_def Let_def)
  moreover have "served index calls rs \<subseteq> {(key, cc). \<exists>hp. hp \<in> fst ` set calls \<and> verified_load index hp key cc}"
    by (rule lru_run_served [OF conjunct1 [OF R]]) (auto dest: load_contract_verified)
  ultimately show ?thesis using R Pair by simp
qed

end
