(* ===== verification/Runtime_Types.thy ===== *)
theory Runtime_Types
  imports Runtime_State Workflow_Evidence Capability_Metadata
begin

text \<open>
  The types of \<^verbatim>\<open>crates/traverse-runtime/src/lib.rs\<close>: runtime requests, the records of a trace, results,
  and the contexts an execution passes from step to step. The evidence of model resolution, a type
  of the registry package, is kept as JSON; it is empty in every trace the runtime builds.
\<close>

section \<open>Definitions\<close>

subsection \<open>Requests\<close>

definition RUNTIME_REQUEST_KIND :: string where
  "RUNTIME_REQUEST_KIND = ''runtime_request''"

definition RUNTIME_RESULT_KIND :: string where
  "RUNTIME_RESULT_KIND = ''runtime_result''"

definition RUNTIME_TRACE_KIND :: string where
  "RUNTIME_TRACE_KIND = ''runtime_trace''"

definition GOVERNING_SPEC :: string where
  "GOVERNING_SPEC = ''006-runtime-request-execution''"

definition EXECUTION_PREFIX :: string where
  "EXECUTION_PREFIX = ''exec_''"

definition TRACE_PREFIX :: string where
  "TRACE_PREFIX = ''trace_''"

record RuntimeIntent =
  ri_capability_id :: "string option"
  ri_capability_version :: "string option"
  ri_version_range :: "string option"
  ri_intent_key :: "string option"

datatype RuntimeLookupScope = RtPublicOnly | RtPreferPrivate

record RuntimeLookup =
  rl_scope :: RuntimeLookupScope
  rl_allow_ambiguity :: bool

datatype PlacementTarget =
  TargetLocal | TargetBrowser | TargetEdge | TargetCloud | TargetWorker | TargetDevice

record RuntimeContext =
  rx_requested_target :: PlacementTarget
  rx_correlation_id :: "string option"
  rx_caller :: "string option"
  rx_traceparent :: "string option"
  rx_tracestate :: "string option"
  rx_metadata :: "json option"
  rx_identity :: "RuntimeIdentity option"

record RuntimeRequest =
  rq_kind :: string
  rq_schema_version :: string
  rq_request_id :: string
  rq_intent :: RuntimeIntent
  rq_input :: json
  rq_lookup :: RuntimeLookup
  rq_context :: RuntimeContext
  rq_governing_spec :: string

subsection \<open>Configuration\<close>

datatype OtlpProtocol = OtlpHttp | OtlpGrpc

record OTelSignalConfig =
  traces_enabled :: bool
  logs_enabled :: bool
  metrics_enabled :: bool

record OTelExporterConfig =
  oe_endpoint :: "string option"
  oe_protocol :: OtlpProtocol

record RuntimeObservabilityConfig =
  ob_signals :: OTelSignalConfig
  ob_exporter :: OTelExporterConfig
  deterministic_ids :: bool
  deterministic_seed :: "string option"

subsection \<open>Decision records\<close>

datatype PlacementDecisionStatus = PlacementNotAttempted | PlacementSelected | PlacementRejected

datatype PlacementDecisionReason = SelectionNotReached | RequestedTargetSelected | RequestedTargetUnsupported

record PlacementDecisionRecord =
  pdr_requested_target :: PlacementTarget
  pdr_selected_target :: "PlacementTarget option"
  pdr_status :: PlacementDecisionStatus
  pdr_reason :: PlacementDecisionReason
  pdr_supported_executor_targets :: "PlacementTarget list"

datatype RuntimeRegistryScope = RtPublic | RtPrivate

datatype RuntimeImplementationKind = RtExecutable | RtWorkflow

datatype RuntimeLifecycle = RtDraft | RtActive | RtDeprecated | RtRetired | RtArchived

datatype CandidateReason = ExactMatch | IntentMatch

datatype RejectedCandidateReason =
  WrongScope | NotRunnableLocally | LifecycleNotRunnable | InputContractInvalid | CandidateArtifactMissing
| SupersededByPrivateOverlay | NotSelectedAfterOrdering

record RuntimeCandidate =
  rcd_scope :: RuntimeRegistryScope
  rcd_capability_id :: string
  rcd_capability_version :: string
  rcd_artifact_ref :: string
  rcd_implementation_kind :: RuntimeImplementationKind
  rcd_lifecycle :: RuntimeLifecycle
  rcd_reason :: CandidateReason

record RejectedRuntimeCandidate =
  rj_capability_id :: string
  rj_capability_version :: string
  rj_scope :: RuntimeRegistryScope
  rj_reason :: RejectedCandidateReason

record CandidateCollectionRecord =
  lookup_scope :: RuntimeLookupScope
  col_candidates :: "RuntimeCandidate list"
  col_rejected_candidates :: "RejectedRuntimeCandidate list"

datatype SelectionStatus = SelSelected | SelNoMatch | SelAmbiguous | SelInvalidRequest

datatype SelectionFailureReason = SelFailInvalidRequest | SelFailNoMatch | SelFailAmbiguous | SelFailNotRunnable

record SelectionRecord =
  sel_status :: SelectionStatus
  selected_capability_id :: "string option"
  selected_capability_version :: "string option"
  sel_failure_reason :: "SelectionFailureReason option"
  remaining_candidates :: "RuntimeCandidate list"

datatype ExecutionStatus = NotStarted | Succeeded | ExecFailed

datatype ExecutionFailureReason =
  ContractInputInvalid | ArtifactMissing | ArtifactNotRunnable | PlacementUnsupported
| FailedExecution | ContractOutputInvalid

record ExecutionRecord =
  ex_placement :: PlacementDecisionRecord
  ex_placement_target :: PlacementTarget
  ex_status :: ExecutionStatus
  ex_artifact_ref :: "string option"
  ex_started_at :: "string option"
  ex_completed_at :: "string option"
  ex_output_digest :: "string option"
  ex_failure_reason :: "ExecutionFailureReason option"
  ex_artifact_verification :: "ArtifactVerificationRecord option"
  ex_identity :: "RuntimeIdentity option"

subsection \<open>Traces and results\<close>

datatype RuntimeResultStatus = ResultCompleted | ResultError

record TraceDecisionEvidence =
  tde_candidate_collection :: CandidateCollectionRecord
  tde_selection :: SelectionRecord
  tde_model_resolution :: "json list"

record TraceStateProgression =
  tsp_state_events :: "RuntimeStateEvent list"
  tsp_transitions :: "RuntimeTransitionRecord list"
  tsp_validation :: RuntimeStateMachineValidationEvidence

record TraceTerminalOutcome =
  tto_runtime_status :: RuntimeResultStatus
  tto_execution_status :: ExecutionStatus
  tto_failure_reason :: "ExecutionFailureReason option"
  tto_error :: "RuntimeError option"

record TraceResultRecord =
  trr_status :: RuntimeResultStatus
  trr_output :: "json option"
  trr_error :: "RuntimeError option"
  trr_warnings :: "RuntimeWarning list"

datatype OTelSpanKind = OTelInternal

datatype OTelSpanStatus = SpanOk | SpanError

record OTelAttribute =
  oa_key :: string
  oa_value :: json

record OTelSpanEvent =
  ose_name :: string
  ose_timestamp :: string
  ose_attributes :: "OTelAttribute list"

record OTelSpanRecord =
  os_trace_id :: string
  os_span_id :: string
  os_parent_span_id :: "string option"
  os_name :: string
  os_kind :: OTelSpanKind
  os_status :: OTelSpanStatus
  os_started_at :: string
  os_ended_at :: string
  os_attributes :: "OTelAttribute list"
  os_events :: "OTelSpanEvent list"

record OTelExporterRecord =
  oxr_enabled :: bool
  oxr_endpoint :: "string option"
  oxr_protocol :: OtlpProtocol

record OTelTraceRecord =
  ot_trace_id :: string
  parent_traceparent :: "string option"
  ot_tracestate :: "string option"
  ot_exporter :: OTelExporterRecord
  ot_spans :: "OTelSpanRecord list"

record RuntimeTrace =
  rt_kind :: string
  rt_schema_version :: string
  rt_trace_id :: string
  rt_execution_id :: string
  rt_request_id :: string
  rt_governing_spec :: string
  rt_request :: RuntimeRequest
  decision_evidence :: TraceDecisionEvidence
  state_progression :: TraceStateProgression
  terminal_outcome :: TraceTerminalOutcome
  rt_emitted_events :: "EventReference list"
  workflow_evidence :: "WorkflowTraversalEvidence option"
  rt_model_resolution :: "json list"
  state_transitions :: "RuntimeTransitionRecord list"
  state_machine_validation :: RuntimeStateMachineValidationEvidence
  rt_candidate_collection :: CandidateCollectionRecord
  rt_selection :: SelectionRecord
  rt_execution :: ExecutionRecord
  rt_result :: TraceResultRecord
  otel_trace :: OTelTraceRecord

record RuntimeResult =
  rr_kind :: string
  rr_schema_version :: string
  rr_execution_id :: string
  rr_request_id :: string
  rr_status :: RuntimeResultStatus
  rr_trace_ref :: string
  rr_output :: "json option"
  rr_error :: "RuntimeError option"
  rr_warnings :: "RuntimeWarning list"

record RuntimeExecutionOutcome =
  ro_result :: RuntimeResult
  ro_trace :: RuntimeTrace
  ro_state_events :: "RuntimeStateEvent list"

subsection \<open>Contexts\<close>

record AttemptContext =
  at_request :: RuntimeRequest
  at_execution_id :: string
  at_trace_id :: string
  at_observability :: RuntimeObservabilityConfig
  at_artifact_verification :: "ArtifactVerificationRecord option"
  at_warnings :: "RuntimeWarning list"

record CandidateResolution =
  cr_eligible :: "ResolvedCapability list"
  cr_collection :: CandidateCollectionRecord
  cr_candidate_reason :: CandidateReason
  cr_hydration_failure :: "HydrationError option"

record FailureContext =
  fc_attempt :: AttemptContext
  fc_state_events :: "RuntimeStateEvent list"
  fc_state_transitions :: "RuntimeTransitionRecord list"
  fc_state_machine_validation :: RuntimeStateMachineValidationEvidence
  fc_candidate_collection :: CandidateCollectionRecord
  fc_selection :: SelectionRecord
  fc_execution :: ExecutionRecord
  fc_error :: RuntimeError
  fc_emitted_events :: "EventReference list"
  fc_workflow_evidence :: "WorkflowTraversalEvidence option"

record ExecutionFailureState =
  ef_artifact_ref :: string
  ef_started_at :: string
  ef_placement :: PlacementDecisionRecord
  ef_failure_reason :: ExecutionFailureReason

record ExecutionContext =
  ec_attempt :: AttemptContext
  ec_emitter :: StateEmitter
  ec_candidate_collection :: CandidateCollectionRecord
  ec_selection :: SelectionRecord

record StartedExecution =
  se_started_at :: string
  se_placement :: PlacementDecisionRecord

record PreExecutionFailure =
  pf_artifact_ref :: "string option"
  pf_failure_reason :: ExecutionFailureReason
  pf_placement :: PlacementDecisionRecord
  pf_error :: RuntimeError
  pf_artifact_verification :: "ArtifactVerificationRecord option"

datatype CandidateEvaluation =
  Eligible ResolvedCapability
| RejectedCandidate ResolvedCapability RejectedCandidateReason

end
