(* ===== verification/Canonical_Json.thy ===== *)
theory Canonical_Json
  imports Complex_Main Json Rust_Strings
begin

text \<open>
  The canonical JSON that is fed to a capability guest:
  \<^verbatim>\<open>crates/traverse-contracts/src/canonical_json.rs\<close>, an RFC 8785 serializer and the strict
  parse of caller bytes.

  The JSON grammar is \<^verbatim>\<open>serde_json\<close>'s: its parser is the parameter \<open>parse_raw\<close>, which yields the
  members of an object in document order with repetitions, as the parser hands them to a
  visitor. A double is given by its shortest decimal (see \<open>Json\<close>), which \<^verbatim>\<open>format!("{:e}")\<close> prints;
  printing is monotone and \<open>2^53 - 1\<close> prints itself, so that the bound is compared on decimals.
\<close>

section \<open>Definitions\<close>

datatype CanonicalJsonError = InvalidJson | UnsafeInteger | DuplicateKey | InvalidUnicode

definition INPUT_NOT_CANONICALIZABLE :: string where
  "INPUT_NOT_CANONICALIZABLE = ''input_not_canonicalizable''"

definition MAX_SAFE_INTEGER :: nat where
  "MAX_SAFE_INTEGER = 9007199254740991"

fun canonical_error_code :: "CanonicalJsonError \<Rightarrow> string" where
  "canonical_error_code InvalidJson = ''invalid_json''"
| "canonical_error_code _ = INPUT_NOT_CANONICALIZABLE"

subsection \<open>Numbers\<close>

text \<open>A decimal number: the digits read as a natural number, times a power of ten.\<close>

definition digits_nat :: "nat list \<Rightarrow> nat" where
  "digits_nat ds = foldl (\<lambda>a d. a * 10 + d) 0 ds"

definition pow10 :: "int \<Rightarrow> rat" where
  "pow10 e = power_int 10 e"

definition f64_abs :: "f64 \<Rightarrow> rat" where
  "f64_abs x = of_nat (digits_nat (f64_digits x)) * pow10 (f64_exponent x + 1 - int (length (f64_digits x)))"

definition f64_is_zero :: "f64 \<Rightarrow> bool" where
  "f64_is_zero x \<longleftrightarrow> f64_digits x = [0]"

definition digit_string :: "nat list \<Rightarrow> string" where
  "digit_string ds = map digit_char ds"

definition format_f64 :: "f64 \<Rightarrow> string" where
  "format_f64 x =
     (if f64_is_zero x then ''0''
      else
        (let digits = digit_string (f64_digits x);
             k = int (length digits);
             n = f64_exponent x + 1
         in (if f64_negative x then ''-'' else [])
            @ (if k \<le> n then digits @ replicate (nat (n - k)) (CHR ''0'')
               else if 0 < n then take (nat n) digits @ ''.'' @ drop (nat n) digits
               else if - 6 < n \<and> n \<le> 0 then ''0.'' @ replicate (nat (- n)) (CHR ''0'') @ digits
               else take 1 digits @ (if drop 1 digits \<noteq> [] then ''.'' @ drop 1 digits else [])
                    @ ''e-'' @ show_nat (nat (1 - n)))))"

definition show_int :: "int \<Rightarrow> string" where
  "show_int i = (if i < 0 then ''-'' @ show_nat (nat (- i)) else show_nat (nat i))"

fun write_number :: "json_number \<Rightarrow> (string, CanonicalJsonError) result" where
  "write_number (PosInt unsigned) =
     (if unsigned > MAX_SAFE_INTEGER then Err UnsafeInteger else Ok (show_nat unsigned))"
| "write_number (NegInt signed) =
     (if nat \<bar>signed\<bar> > MAX_SAFE_INTEGER then Err UnsafeInteger else Ok (show_int signed))"
| "write_number (Float float) =
     (if f64_abs float > of_nat MAX_SAFE_INTEGER then Err UnsafeInteger else Ok (format_f64 float))"

subsection \<open>Strings\<close>

definition hex4 :: "nat \<Rightarrow> string" where
  "hex4 n = map (\<lambda>i. ''0123456789abcdef'' ! (n div 16 ^ i mod 16)) [3, 2, 1, 0]"

text \<open>The escapes are all of ASCII characters; the bytes of other characters are copied.\<close>

definition escape_char :: "char \<Rightarrow> string" where
  "escape_char c =
     (if c = CHR 0x22 then [CHR 0x5C, CHR 0x22]
      else if c = CHR 0x5C then [CHR 0x5C, CHR 0x5C]
      else if c = CHR 0x08 then [CHR 0x5C, CHR ''b'']
      else if c = CHR 0x09 then [CHR 0x5C, CHR ''t'']
      else if c = CHR 0x0A then [CHR 0x5C, CHR ''n'']
      else if c = CHR 0x0C then [CHR 0x5C, CHR ''f'']
      else if c = CHR 0x0D then [CHR 0x5C, CHR ''r'']
      else if (of_char c :: nat) < 32 then [CHR 0x5C, CHR ''u''] @ hex4 (of_char c)
      else [c])"

definition write_string :: "string \<Rightarrow> string" where
  "write_string s = [CHR 0x22] @ concat (map escape_char s) @ [CHR 0x22]"

text \<open>\<^verbatim>\<open>encode_utf16\<close> of a UTF-8 string.\<close>

fun utf8_decode :: "nat list \<Rightarrow> nat list" where
  "utf8_decode [] = []"
| "utf8_decode (a # s) =
     (if a < 128 then a # utf8_decode s
      else (case s of
              [] \<Rightarrow> [a]
            | b # s2 \<Rightarrow>
                if a < 224 then ((a mod 32) * 64 + b mod 64) # utf8_decode s2
                else (case s2 of
                        [] \<Rightarrow> [a, b]
                      | c # s3 \<Rightarrow>
                          if a < 240 then ((a mod 16) * 4096 + (b mod 64) * 64 + c mod 64) # utf8_decode s3
                          else (case s3 of
                                  [] \<Rightarrow> [a, b, c]
                                | d # s4 \<Rightarrow>
                                    ((a mod 8) * 262144 + (b mod 64) * 4096 + (c mod 64) * 64 + d mod 64) # utf8_decode s4))))"

definition utf16_units :: "nat \<Rightarrow> nat list" where
  "utf16_units cp =
     (if cp < 65536 then [cp]
      else [55296 + (cp - 65536) div 1024, 56320 + (cp - 65536) mod 1024])"

definition encode_utf16 :: "string \<Rightarrow> nat list" where
  "encode_utf16 s = concat (map utf16_units (utf8_decode (map of_char s)))"

subsection \<open>Values\<close>

text \<open>The members of an object are written in the order of their UTF-16 code units. Writing first
  and sorting then gives the same text as the source's order, except that the source meets the
  errors of the members in sorted order; there is only one error.\<close>

fun write_value :: "json \<Rightarrow> (string, CanonicalJsonError) result"
  and write_items :: "bool \<Rightarrow> json list \<Rightarrow> (string, CanonicalJsonError) result"
  and write_members :: "json_object \<Rightarrow> ((string \<times> string) list, CanonicalJsonError) result" where
  "write_value JNull = Ok ''null''"
| "write_value (JBool flag) = Ok (if flag then ''true'' else ''false'')"
| "write_value (JNumber number) = write_number number"
| "write_value (JString s) = Ok (write_string s)"
| "write_value (JArray items) =
     and_then (write_items True items) (\<lambda>out. Ok (''['' @ out @ '']''))"
| "write_value (JObject members) =
     and_then (write_members members) (\<lambda>entries.
       Ok (''{'' @ concat (map (\<lambda>(i, key, out). (if i > 0 then '','' else []) @ write_string key @ '':'' @ out)
                     (zip [0..<length entries] (sort_key (\<lambda>(key, _). encode_utf16 key) entries)))
           @ ''}''))"
| "write_items first [] = Ok []"
| "write_items first (item # items) =
     and_then (write_value item) (\<lambda>out.
     and_then (write_items False items) (\<lambda>rest.
       Ok ((if first then [] else '','') @ out @ rest)))"
| "write_members [] = Ok []"
| "write_members ((key, member) # ms) =
     and_then (write_value member) (\<lambda>out.
     and_then (write_members ms) (\<lambda>rest. Ok ((key, out) # rest)))"

definition to_canonical_json :: "json \<Rightarrow> (string, CanonicalJsonError) result" where
  "to_canonical_json v = write_value v"

subsection \<open>The strict parse\<close>

text \<open>\<^verbatim>\<open>serde_json::from_slice::<Value>\<close> collects the members in a map, the last one of a name
  winning; \<^verbatim>\<open>StrictVisitor\<close> fails on a name it has seen.\<close>

fun plain_value :: "json \<Rightarrow> json" and plain_members :: "json_object \<Rightarrow> json_object \<Rightarrow> json_object" where
  "plain_value (JArray xs) = JArray (map plain_value xs)"
| "plain_value (JObject ms) = JObject (plain_members ms [])"
| "plain_value v = v"
| "plain_members [] acc = acc"
| "plain_members ((k, v) # ms) acc = plain_members ms (obj_insert k (plain_value v) acc)"

fun strict_value :: "json \<Rightarrow> json option"
  and visit_seq :: "json list \<Rightarrow> json list option"
  and visit_map :: "json_object \<Rightarrow> json_object \<Rightarrow> json_object option" where
  "strict_value (JArray xs) = map_option JArray (visit_seq xs)"
| "strict_value (JObject ms) = map_option JObject (visit_map ms [])"
| "strict_value v = Some v"
| "visit_seq [] = Some []"
| "visit_seq (x # xs) =
     (case strict_value x of None \<Rightarrow> None | Some y \<Rightarrow> map_option ((#) y) (visit_seq xs))"
| "visit_map [] members = Some members"
| "visit_map ((key, v) # ms) members =
     (case strict_value v of
        None \<Rightarrow> None
      | Some member \<Rightarrow>
          if contains_key members key then None else visit_map ms (obj_insert key member members))"

text \<open>\<^verbatim>\<open>u16::from_str_radix(hex, 16)\<close> of four bytes, which takes a plus sign.\<close>

definition hex_value :: "char \<Rightarrow> nat option" where
  "hex_value c =
     (let b = (of_char c :: nat)
      in if 48 \<le> b \<and> b \<le> 57 then Some (b - 48)
         else if 97 \<le> b \<and> b \<le> 102 then Some (b - 87)
         else if 65 \<le> b \<and> b \<le> 70 then Some (b - 55)
         else None)"

fun hex_number :: "nat \<Rightarrow> string \<Rightarrow> nat option" where
  "hex_number acc [] = Some acc"
| "hex_number acc (c # cs) = (case hex_value c of None \<Rightarrow> None | Some v \<Rightarrow> hex_number (acc * 16 + v) cs)"

definition escape_unit :: "string \<Rightarrow> nat option" where
  "escape_unit rest =
     (if length rest < 4 then None
      else (let hex = strip_plus (take 4 rest) in if hex = [] then None else hex_number 0 hex))"

text \<open>The scan, on the bytes from the index on.\<close>

function lone_surrogate :: "string \<Rightarrow> bool \<Rightarrow> bool \<Rightarrow> bool" where
  "lone_surrogate s in_string pending_high =
     (case s of
        [] \<Rightarrow> pending_high
      | byte # rest \<Rightarrow>
          if \<not> in_string then lone_surrogate rest (byte = CHR 0x22) pending_high
          else if byte = CHR 0x5C \<and> rest \<noteq> [] \<and> hd rest = CHR ''u''
          then (case escape_unit (tl rest) of
                  Some unit \<Rightarrow>
                    if 55296 \<le> unit \<and> unit \<le> 56319 \<and> \<not> pending_high then lone_surrogate (drop 6 s) True True
                    else if 56320 \<le> unit \<and> unit \<le> 57343 \<and> pending_high then lone_surrogate (drop 6 s) True False
                    else if 55296 \<le> unit \<and> unit \<le> 57343 then True
                    else if pending_high then True
                    else lone_surrogate (drop 6 s) True False
                | None \<Rightarrow> if pending_high then True else lone_surrogate (drop 6 s) True False)
          else if pending_high then True
          else if byte = CHR 0x5C then lone_surrogate (drop 2 s) True False
          else lone_surrogate rest (byte \<noteq> CHR 0x22) False)"
  by pat_completeness auto
termination
  by (relation "measure (\<lambda>(s, _). length s)") auto

definition has_lone_surrogate_escape :: "string \<Rightarrow> bool" where
  "has_lone_surrogate_escape bytes = lone_surrogate bytes False False"

definition parse_canonicalizable ::
  "(string \<Rightarrow> json option) \<Rightarrow> (string \<Rightarrow> bool) \<Rightarrow> string \<Rightarrow> (json, CanonicalJsonError) result" where
  "parse_canonicalizable parse_raw utf8_ok bytes =
     (case parse_raw bytes of
        None \<Rightarrow> Err (if \<not> utf8_ok bytes \<or> has_lone_surrogate_escape bytes then InvalidUnicode else InvalidJson)
      | Some raw \<Rightarrow> ok_or (strict_value raw) DuplicateKey)"

definition canonicalize_json_bytes ::
  "(string \<Rightarrow> json option) \<Rightarrow> (string \<Rightarrow> bool) \<Rightarrow> string \<Rightarrow> (string, CanonicalJsonError) result" where
  "canonicalize_json_bytes parse_raw utf8_ok bytes =
     and_then (parse_canonicalizable parse_raw utf8_ok bytes) to_canonical_json"

section \<open>Well-formed values and logical equality\<close>

definition f64_wf :: "f64 \<Rightarrow> bool" where
  "f64_wf x \<longleftrightarrow> f64_digits x \<noteq> [] \<and> list_all (\<lambda>d. d < 10) (f64_digits x)
     \<and> (f64_is_zero x \<or> hd (f64_digits x) \<noteq> 0 \<and> last (f64_digits x) \<noteq> 0)"

fun number_wf :: "json_number \<Rightarrow> bool" where
  "number_wf (PosInt n) = (n \<le> u64_max)"
| "number_wf (NegInt i) = (i < 0 \<and> - 9223372036854775808 \<le> i)"
| "number_wf (Float x) = f64_wf x"

fun num_value :: "json_number \<Rightarrow> rat" where
  "num_value (PosInt n) = of_nat n"
| "num_value (NegInt i) = of_int i"
| "num_value (Float x) = (if f64_negative x then - f64_abs x else f64_abs x)"

text \<open>What \<^verbatim>\<open>serde_json\<close> guarantees of a value: objects are maps, numbers are in range.\<close>

fun json_wf :: "json \<Rightarrow> bool" where
  "json_wf (JNumber n) = number_wf n"
| "json_wf (JArray xs) = list_all json_wf xs"
| "json_wf (JObject ms) = (obj_wf ms \<and> list_all (\<lambda>(_, v). json_wf v) ms)"
| "json_wf _ = True"

fun json_safe :: "json \<Rightarrow> bool" where
  "json_safe (JNumber n) = (\<bar>num_value n\<bar> \<le> of_nat MAX_SAFE_INTEGER)"
| "json_safe (JArray xs) = list_all json_safe xs"
| "json_safe (JObject ms) = list_all (\<lambda>(_, v). json_safe v) ms"
| "json_safe _ = True"

text \<open>No object of a document repeats a member name, at any depth.\<close>

fun unique_names :: "json \<Rightarrow> bool" where
  "unique_names (JArray xs) = list_all unique_names xs"
| "unique_names (JObject ms) = (distinct (map fst ms) \<and> list_all (\<lambda>(_, v). unique_names v) ms)"
| "unique_names _ = True"

text \<open>Two values that say the same: numbers are compared by value.\<close>

inductive json_equiv :: "json \<Rightarrow> json \<Rightarrow> bool" where
  equiv_null: "json_equiv JNull JNull"
| equiv_bool: "json_equiv (JBool b) (JBool b)"
| equiv_number: "num_value m = num_value n \<Longrightarrow> json_equiv (JNumber m) (JNumber n)"
| equiv_string: "json_equiv (JString t) (JString t)"
| equiv_array: "list_all2 json_equiv xs ys \<Longrightarrow> json_equiv (JArray xs) (JArray ys)"
| equiv_object: "list_all2 (\<lambda>a b. fst a = fst b \<and> json_equiv (snd a) (snd b)) ms ns \<Longrightarrow>
     json_equiv (JObject ms) (JObject ns)"

section \<open>Lemmas\<close>

subsection \<open>Decimal numbers\<close>

lemma digits_nat_Nil [simp]: "digits_nat [] = 0"
  by (simp add: digits_nat_def)

lemma digits_nat_snoc [simp]: "digits_nat (ds @ [d]) = digits_nat ds * 10 + d"
  by (simp add: digits_nat_def)

lemma digits_nat_append: "digits_nat (xs @ ys) = digits_nat xs * 10 ^ length ys + digits_nat ys"
  by (induction ys rule: rev_induct) (simp_all add: algebra_simps flip: append_assoc)

lemma digits_nat_zeros [simp]: "digits_nat (replicate n 0) = 0"
  by (induction n) (simp_all add: replicate_append_same [symmetric])

lemma pow10_add: "pow10 (a + b) = pow10 a * pow10 b"
  by (simp add: pow10_def power_int_add)

lemma pow10_nat [simp]: "pow10 (int n) = 10 ^ n"
  by (simp add: pow10_def)

lemma pow10_pos [simp]: "pow10 e > 0"
  by (simp add: pow10_def)

lemma show_nat_digits_nat:
  assumes "ds \<noteq> []" "list_all (\<lambda>d. d < 10) ds" "hd ds \<noteq> 0 \<or> length ds = 1"
  shows "show_nat (digits_nat ds) = digit_string ds"
  using assms
proof (induction ds rule: rev_induct)
  case (snoc d ds)
  show ?case
  proof (cases "ds = []")
    case True
    with snoc show ?thesis by (simp add: digits_nat_def digit_string_def show_nat.simps [of d])
  next
    case False
    then have IH: "show_nat (digits_nat ds) = digit_string ds" and d: "d < 10" and hd: "hd ds \<noteq> 0"
      using snoc by auto
    have "digits_nat ds \<noteq> 0"
    proof -
      obtain x xs where ds: "ds = x # xs" using False by (cases ds) auto
      then have "digits_nat ds = x * 10 ^ length xs + digits_nat xs"
        using digits_nat_append [of "[x]" xs] by (simp add: digits_nat_def)
      with hd ds show ?thesis by simp
    qed
    then have "show_nat (digits_nat (ds @ [d])) = show_nat (digits_nat ds) @ [digit_char d]"
      using d by (subst show_nat.simps) simp
    with IH show ?thesis by (simp add: digit_string_def)
  qed
qed simp

lemma digit_string_inject:
  assumes "list_all (\<lambda>d. d < 10) xs" "list_all (\<lambda>d. d < 10) ys" "digit_string xs = digit_string ys"
  shows "xs = ys"
proof -
  have "map digit_value (digit_string xs) = xs" "map digit_value (digit_string ys) = ys"
    using assms(1,2) by (induction xs, simp_all add: digit_string_def) (induction ys, simp_all add: digit_string_def)
  with assms(3) show ?thesis by metis
qed

lemma digit_string_digits: "list_all (\<lambda>d. d < 10) ds \<Longrightarrow> c \<in> set (digit_string ds) \<Longrightarrow> is_digit c"
  by (auto simp: digit_string_def list_all_iff)

definition string_nat :: "string \<Rightarrow> nat" where
  "string_nat s = digits_nat (map digit_value s)"

lemma string_nat_digit_string [simp]: "list_all (\<lambda>d. d < 10) ds \<Longrightarrow> string_nat (digit_string ds) = digits_nat ds"
proof -
  assume "list_all (\<lambda>d. d < 10) ds"
  then have "map digit_value (digit_string ds) = ds" by (induction ds) (simp_all add: digit_string_def)
  then show ?thesis by (simp add: string_nat_def)
qed

lemma string_nat_show_nat [simp]: "string_nat (show_nat n) = n"
proof (induction n rule: show_nat.induct)
  case (1 n)
  show ?case
  proof (cases "n < 10")
    case True
    then show ?thesis by (simp add: show_nat.simps [of n] string_nat_def digits_nat_def)
  next
    case False
    then have "string_nat (show_nat n) = string_nat (show_nat (n div 10)) * 10 + n mod 10"
      by (subst show_nat.simps) (simp add: string_nat_def)
    with "1.IH" False show ?thesis by simp
  qed
qed

text \<open>What a number's text denotes: an optional sign, digits with an optional point, an optional
  negative exponent.\<close>

definition abs_text_value :: "string \<Rightarrow> rat" where
  "abs_text_value r =
     (let (m, e) = (case split_once (CHR ''e'') r of None \<Rightarrow> (r, 0) | Some (m, x) \<Rightarrow> (m, string_nat (tl x)));
          (w, f) = (case split_once (CHR ''.'') m of None \<Rightarrow> (m, []) | Some p \<Rightarrow> p)
      in of_nat (string_nat (w @ f)) * pow10 (- int (length f) - int e))"

definition text_value :: "string \<Rightarrow> rat" where
  "text_value s = (case s of [] \<Rightarrow> 0 | c # r \<Rightarrow> if c = CHR ''-'' then - abs_text_value r else abs_text_value s)"

definition all_digits :: "string \<Rightarrow> bool" where
  "all_digits s \<longleftrightarrow> (\<forall>c \<in> set s. is_digit c)"

lemma all_digits_simps [simp]:
  "all_digits []" "all_digits (c # s) \<longleftrightarrow> is_digit c \<and> all_digits s"
  "all_digits (s @ t) \<longleftrightarrow> all_digits s \<and> all_digits t"
  "all_digits (show_nat n)"
  by (auto simp: all_digits_def show_nat_all_digits)

lemma digit_not: "is_digit c \<Longrightarrow> c \<noteq> CHR ''e'' \<and> c \<noteq> CHR ''.'' \<and> c \<noteq> CHR ''-''"
  by (auto simp: is_digit_def)

lemma split_once_None: "c \<notin> set s \<Longrightarrow> split_once c s = None"
  by (induction s) auto

lemma split_once_here: "c \<notin> set a \<Longrightarrow> split_once c (a @ c # b) = Some (a, b)"
  by (simp add: split_once_Some_iff)

lemma all_digits_no_marks:
  assumes "all_digits s"
  shows "CHR ''e'' \<notin> set s" "CHR ''.'' \<notin> set s" "CHR ''-'' \<notin> set s"
  using assms digit_not by (auto simp: all_digits_def)

lemma abs_text_value_simps:
  assumes "all_digits w" "all_digits f" "all_digits x"
  shows "abs_text_value w = of_nat (string_nat w)"
    and "abs_text_value (w @ ''.'' @ f) = of_nat (string_nat (w @ f)) * pow10 (- int (length f))"
    and "abs_text_value (w @ ''e-'' @ x) = of_nat (string_nat w) * pow10 (- int (string_nat x))"
    and "abs_text_value (w @ ''.'' @ f @ ''e-'' @ x) =
      of_nat (string_nat (w @ f)) * pow10 (- int (length f) - int (string_nat x))"
proof -
  note w = all_digits_no_marks [OF assms(1)] and f = all_digits_no_marks [OF assms(2)]
  show "abs_text_value w = of_nat (string_nat w)"
    using w by (simp add: abs_text_value_def split_once_None pow10_def)
  show "abs_text_value (w @ ''.'' @ f) = of_nat (string_nat (w @ f)) * pow10 (- int (length f))"
    using w f by (simp add: abs_text_value_def split_once_None split_once_here)
  show "abs_text_value (w @ ''e-'' @ x) = of_nat (string_nat w) * pow10 (- int (string_nat x))"
    using w by (simp add: abs_text_value_def split_once_None split_once_here)
  have "CHR ''e'' \<notin> set (w @ ''.'' @ f)" using w f by simp
  from split_once_here [OF this, of "''-'' @ x"]
  have "split_once (CHR ''e'') (w @ ''.'' @ f @ ''e-'' @ x) = Some (w @ ''.'' @ f, ''-'' @ x)" by simp
  then show "abs_text_value (w @ ''.'' @ f @ ''e-'' @ x) =
      of_nat (string_nat (w @ f)) * pow10 (- int (length f) - int (string_nat x))"
    using w by (simp add: abs_text_value_def split_once_here)
qed

lemma abs_text_value_digits [simp]: "all_digits w \<Longrightarrow> abs_text_value w = of_nat (string_nat w)"
  by (rule abs_text_value_simps(1))

lemma string_nat_append: "string_nat (a @ b) = string_nat a * 10 ^ length b + string_nat b"
  by (simp add: string_nat_def digits_nat_append)

lemma string_nat_zeros [simp]: "string_nat (replicate n (CHR ''0'')) = 0"
  by (simp add: string_nat_def digit_value_def map_replicate_const map_replicate)

lemma string_nat_zeros_append [simp]: "string_nat (replicate n (CHR ''0'') @ s) = string_nat s"
  by (simp add: string_nat_append)

lemma all_digits_zeros [simp]: "all_digits (replicate n (CHR ''0''))"
  by (simp add: all_digits_def is_digit_def)

text \<open>The text of a double without its sign.\<close>

definition abs_text :: "f64 \<Rightarrow> string" where
  "abs_text x =
     (let digits = digit_string (f64_digits x); k = int (length digits); n = f64_exponent x + 1
      in if k \<le> n then digits @ replicate (nat (n - k)) (CHR ''0'')
         else if 0 < n then take (nat n) digits @ ''.'' @ drop (nat n) digits
         else if - 6 < n \<and> n \<le> 0 then ''0.'' @ replicate (nat (- n)) (CHR ''0'') @ digits
         else take 1 digits @ (if drop 1 digits \<noteq> [] then ''.'' @ drop 1 digits else [])
              @ ''e-'' @ show_nat (nat (1 - n)))"

lemma format_f64_abs_text:
  "format_f64 x = (if f64_is_zero x then ''0'' else (if f64_negative x then ''-'' else []) @ abs_text x)"
  by (simp add: format_f64_def abs_text_def Let_def)

lemma abs_text_value_abs_text:
  assumes "list_all (\<lambda>d. d < 10) (f64_digits x)"
  shows "abs_text_value (abs_text x) = f64_abs x"
proof -
  define ds where "ds = digit_string (f64_digits x)"
  define n where "n = f64_exponent x + 1"
  define D where "D = digits_nat (f64_digits x)"
  have "all_digits ds" unfolding all_digits_def ds_def using digit_string_digits [OF assms] by blast
  moreover have "string_nat ds = D" using assms by (simp add: ds_def D_def)
  moreover have "length (f64_digits x) = length ds" by (simp add: ds_def digit_string_def)
  ultimately have ds: "all_digits ds" "string_nat ds = D" "length (f64_digits x) = length ds" .
  have parts: "all_digits (take i ds)" "all_digits (drop i ds)" for i
    using ds(1) by (auto simp: all_digits_def dest: in_set_takeD in_set_dropD)
  have val: "f64_abs x = of_nat D * pow10 (n - int (length ds))"
    by (simp add: f64_abs_def D_def n_def ds(3) algebra_simps)
  consider "int (length ds) \<le> n" | "0 < n" "n < int (length ds)" | "- 6 < n" "n \<le> 0" "n < int (length ds)"
    | "n \<le> - 6" "n < int (length ds)" by linarith
  then show ?thesis
  proof cases
    case 1
    then have "abs_text x = ds @ replicate (nat (n - int (length ds))) (CHR ''0'')"
      by (simp add: abs_text_def ds_def n_def Let_def)
    moreover have "pow10 (n - int (length ds)) = 10 ^ nat (n - int (length ds))"
      using 1 pow10_nat [of "nat (n - int (length ds))"] by simp
    ultimately show ?thesis
      using abs_text_value_simps(1) [of "ds @ replicate (nat (n - int (length ds))) (CHR ''0'')"] ds val
      by (simp add: string_nat_append)
  next
    case 2
    then have tx: "abs_text x = take (nat n) ds @ ''.'' @ drop (nat n) ds"
      by (simp add: abs_text_def ds_def n_def Let_def)
    have "- int (length (drop (nat n) ds)) = n - int (length ds)" using 2 by simp
    then show ?thesis
      unfolding tx abs_text_value_simps(2) [OF parts(1) parts(2) ds(1)] by (simp only: append_take_drop_id val ds(2))
  next
    case 3
    then have tx: "abs_text x = ''0'' @ ''.'' @ (replicate (nat (- n)) (CHR ''0'') @ ds)"
      by (simp add: abs_text_def ds_def n_def Let_def)
    have "string_nat (''0'' @ replicate (nat (- n)) (CHR ''0'') @ ds) = D"
      using string_nat_zeros_append [of "Suc (nat (- n))" ds] by (simp add: ds)
    moreover have "- int (length (replicate (nat (- n)) (CHR ''0'') @ ds)) = n - int (length ds)" using 3 by simp
    moreover have "all_digits ''0''" "all_digits (replicate (nat (- n)) (CHR ''0'') @ ds)"
      using ds by (simp_all add: is_digit_def)
    ultimately show ?thesis
      unfolding tx by (simp only: abs_text_value_simps(2) [OF _ _ ds(1)] val)
  next
    case 4
    let ?e = "show_nat (nat (1 - n))"
    have "abs_text x = take 1 ds @ (if drop 1 ds \<noteq> [] then ''.'' @ drop 1 ds else []) @ ''e-'' @ ?e"
      using 4 by (simp add: abs_text_def ds_def n_def Let_def)
    moreover have "n - int (length ds) = - int (length (drop 1 ds)) - int (string_nat ?e)" if "ds \<noteq> []"
    proof -
      have "length ds \<ge> 1" using that by (cases ds) auto
      then show ?thesis using 4 by simp
    qed
    moreover have "string_nat (take 1 ds @ drop 1 ds) = D" by (simp only: append_take_drop_id ds(2))
    moreover have "all_digits ?e" by simp
    ultimately show ?thesis
    proof (cases "drop 1 ds = []")
      case True
      have "abs_text x = take 1 ds @ ''e-'' @ ?e"
        using \<open>abs_text x = _\<close> True by simp
      moreover have "abs_text_value (take 1 ds @ ''e-'' @ ?e) = of_nat (string_nat (take 1 ds)) * pow10 (- int (string_nat ?e))"
        by (rule abs_text_value_simps(3) [OF parts(1) parts(1)]) simp
      moreover have "string_nat (take 1 ds) = D" using \<open>string_nat (take 1 ds @ drop 1 ds) = D\<close> True by simp
      moreover have "of_nat D * pow10 (- int (string_nat ?e)) = of_nat D * pow10 (n - int (length ds))"
      proof (cases "ds = []")
        case True
        then have "D = 0" using ds(2) by (simp add: string_nat_def)
        then show ?thesis by simp
      next
        case False
        with \<open>ds \<noteq> [] \<Longrightarrow> _\<close> True show ?thesis by simp
      qed
      ultimately show ?thesis by (simp add: val)
    next
      case False
      then have ne: "ds \<noteq> []" by auto
      have "abs_text x = take 1 ds @ ''.'' @ drop 1 ds @ ''e-'' @ ?e"
        using \<open>abs_text x = _\<close> False by simp
      moreover have "abs_text_value (take 1 ds @ ''.'' @ drop 1 ds @ ''e-'' @ ?e) =
          of_nat (string_nat (take 1 ds @ drop 1 ds)) * pow10 (- int (length (drop 1 ds)) - int (string_nat ?e))"
        by (rule abs_text_value_simps(4) [OF parts(1) parts(2)]) simp
      ultimately show ?thesis
        using \<open>ds \<noteq> [] \<Longrightarrow> _\<close> [OF ne] \<open>string_nat (take 1 ds @ drop 1 ds) = D\<close> by (simp only: val)
    qed
  qed
qed

definition num_char :: "char \<Rightarrow> bool" where
  "num_char c \<longleftrightarrow> is_digit c \<or> c = CHR ''.'' \<or> c = CHR ''e'' \<or> c = CHR ''-''"

lemma all_digits_num_char: "all_digits s \<Longrightarrow> list_all num_char s"
  by (auto simp: all_digits_def num_char_def list_all_iff)

lemma num_char_show_nat [simp]: "list_all num_char (show_nat n)"
  by (rule all_digits_num_char) simp

lemma abs_text_shape:
  assumes "list_all (\<lambda>d. d < 10) (f64_digits x)" "f64_digits x \<noteq> []"
  shows "list_all num_char (abs_text x)" "abs_text x \<noteq> []" "is_digit (hd (abs_text x))"
proof -
  define ds where "ds = digit_string (f64_digits x)"
  have digit: "is_digit c" if "c \<in> set ds" for c
    using digit_string_digits [OF assms(1)] that unfolding ds_def .
  then have ds: "list_all num_char ds" by (auto simp: list_all_iff num_char_def)
  have parts: "list_all num_char (take i ds)" "list_all num_char (drop i ds)" for i
    using ds by (auto simp: list_all_iff dest: in_set_takeD in_set_dropD)
  have zeros: "list_all num_char (replicate i (CHR ''0''))" for i
    by (simp add: list_all_iff num_char_def is_digit_def)
  have marks: "num_char (CHR ''0'')" "num_char (CHR ''.'')" "num_char (CHR ''e'')" "num_char (CHR ''-'')"
    by (simp_all add: is_digit_def num_char_def)
  show "list_all num_char (abs_text x)"
    unfolding abs_text_def Let_def ds_def [symmetric] by (simp add: ds parts zeros marks)
  obtain c cs where c: "ds = c # cs" using assms(2) by (cases ds) (auto simp: ds_def digit_string_def)
  have c_digit: "is_digit c" by (rule digit) (simp add: c)
  have zero: "is_digit (CHR ''0'')" by (simp add: is_digit_def)
  show "abs_text x \<noteq> []" "is_digit (hd (abs_text x))"
    unfolding abs_text_def Let_def ds_def [symmetric] c using c_digit zero by (auto simp: take_Cons')
qed

lemma text_value_nonneg: "s \<noteq> [] \<Longrightarrow> is_digit (hd s) \<Longrightarrow> text_value s = abs_text_value s"
  using digit_not [of "hd s"] by (cases s) (auto simp: text_value_def)

lemma text_value_neg [simp]: "text_value (CHR ''-'' # s) = - abs_text_value s"
  by (simp add: text_value_def)

lemma show_nat_hd: "is_digit (hd (show_nat n))"
  using show_nat_all_digits [of n] by (cases "show_nat n") auto

lemma text_value_show_nat [simp]: "text_value (show_nat n) = of_nat n"
  by (simp add: text_value_nonneg show_nat_hd)

lemma write_number_text:
  assumes "write_number n = Inr s" "number_wf n"
  shows "text_value s = num_value n \<and> s \<noteq> [] \<and> list_all num_char s \<and> (is_digit (hd s) \<or> hd s = CHR ''-'')"
proof (cases n)
  case (PosInt m)
  with assms show ?thesis by (auto simp: show_nat_hd split: if_splits)
next
  case (NegInt i)
  with assms have "s = ''-'' @ show_nat (nat (- i))" "i < 0" by (auto simp: show_int_def split: if_splits)
  then show ?thesis using NegInt by (simp add: num_char_def)
next
  case (Float x)
  then have s: "s = format_f64 x" and wf: "f64_wf x" using assms by (auto split: if_splits)
  from wf have ds: "list_all (\<lambda>d. d < 10) (f64_digits x)" "f64_digits x \<noteq> []" by (auto simp: f64_wf_def)
  note shape = abs_text_shape [OF ds]
  show ?thesis
  proof (cases "f64_is_zero x")
    case True
    then have "f64_abs x = 0" by (simp add: f64_abs_def f64_is_zero_def digits_nat_def)
    moreover have "text_value ''0'' = 0" using text_value_show_nat [of 0] by (simp add: show_nat.simps [of 0])
    ultimately show ?thesis using Float True s by (simp add: format_f64_abs_text num_char_def is_digit_def)
  next
    case False
    then show ?thesis
      using Float s shape text_value_nonneg [OF shape(2,3)] abs_text_value_abs_text [OF ds(1)]
      by (simp add: format_f64_abs_text num_char_def)
  qed
qed

lemma write_number_Ok_iff:
  assumes "number_wf n"
  shows "(\<exists>s. write_number n = Inr s) \<longleftrightarrow> \<bar>num_value n\<bar> \<le> of_nat MAX_SAFE_INTEGER"
proof (cases n)
  case (PosInt m)
  then show ?thesis by simp
next
  case (NegInt i)
  have "nat \<bar>i\<bar> \<le> MAX_SAFE_INTEGER \<longleftrightarrow> \<bar>rat_of_int i\<bar> \<le> of_nat MAX_SAFE_INTEGER"
    by (metis nat_le_iff of_int_abs of_int_le_iff of_int_of_nat_eq)
  with NegInt show ?thesis by (auto simp: not_less [symmetric])
next
  case (Float x)
  have "f64_abs x \<ge> 0" by (simp add: f64_abs_def less_imp_le)
  with Float show ?thesis by (auto simp: not_less)
qed

lemma write_number_Err: "write_number n = Inl e \<Longrightarrow> e = UnsafeInteger"
  by (cases n) (auto split: if_splits)

subsection \<open>Equal numbers have equal texts\<close>

lemma normal_form_unique:
  fixes D D' :: nat
  assumes "of_nat D * pow10 p = of_nat D' * pow10 p'" "\<not> 10 dvd D" "\<not> 10 dvd D'"
  shows "D = D' \<and> p = p'"
proof -
  have le: "E = E' \<and> q = q'"
    if "of_nat E * pow10 q = of_nat E' * pow10 q'" "\<not> 10 dvd E" "q \<le> q'" for E E' :: nat and q q' :: int
  proof -
    define d where "d = nat (q' - q)"
    have "q' = q + int d" using that(3) by (simp add: d_def)
    then have "of_nat E * pow10 q = of_nat (E' * 10 ^ d) * pow10 q"
      using that(1) by (simp add: pow10_add algebra_simps)
    moreover have "pow10 q \<noteq> 0" using pow10_pos [of q] by linarith
    ultimately have "rat_of_nat E = of_nat (E' * 10 ^ d)" by (metis mult_right_cancel)
    then have E: "E = E' * 10 ^ d" by (simp only: of_nat_eq_iff)
    have "d = 0"
    proof (rule ccontr)
      assume "d \<noteq> 0"
      then have "10 dvd (10 :: nat) ^ d" by simp
      with that(2) E show False by simp
    qed
    with E \<open>q' = q + int d\<close> show ?thesis by simp
  qed
  show ?thesis
    using le [of D p D' p'] le [of D' p' D p] assms by (cases "p \<le> p'") auto
qed

lemma digits_not_dvd:
  assumes "ds \<noteq> []" "list_all (\<lambda>d. d < 10) ds" "last ds \<noteq> 0"
  shows "\<not> 10 dvd digits_nat ds"
proof -
  obtain xs d where ds: "ds = xs @ [d]" using assms(1) by (cases ds rule: rev_cases) auto
  then have "digits_nat ds mod 10 = d" using assms(2) by simp
  with ds assms(3) show ?thesis by auto
qed

lemma f64_unique:
  assumes "f64_wf x" "f64_wf y" "\<not> f64_is_zero x" "\<not> f64_is_zero y" "f64_abs x = f64_abs y"
  shows "f64_digits x = f64_digits y \<and> f64_exponent x = f64_exponent y"
proof -
  from assms(1-4) have x: "f64_digits x \<noteq> []" "list_all (\<lambda>d. d < 10) (f64_digits x)" "hd (f64_digits x) \<noteq> 0" "last (f64_digits x) \<noteq> 0"
    and y: "f64_digits y \<noteq> []" "list_all (\<lambda>d. d < 10) (f64_digits y)" "hd (f64_digits y) \<noteq> 0" "last (f64_digits y) \<noteq> 0"
    by (auto simp: f64_wf_def)
  from normal_form_unique [OF assms(5) [unfolded f64_abs_def] digits_not_dvd [OF x(1,2,4)] digits_not_dvd [OF y(1,2,4)]]
  have D: "digits_nat (f64_digits x) = digits_nat (f64_digits y)"
    and e: "f64_exponent x + 1 - int (length (f64_digits x)) = f64_exponent y + 1 - int (length (f64_digits y))" by auto
  have "digit_string (f64_digits x) = digit_string (f64_digits y)"
    using show_nat_digits_nat [OF x(1,2)] show_nat_digits_nat [OF y(1,2)] x y D by simp
  then have "f64_digits x = f64_digits y" by (rule digit_string_inject [OF x(2) y(2)])
  with e show ?thesis by simp
qed

text \<open>A positive integer has a normal form with the same text.\<close>

lemma show_nat_times_ten: "m > 0 \<Longrightarrow> show_nat (m * 10) = show_nat m @ ''0''"
  by (subst show_nat.simps) simp

lemma show_nat_hd_nonzero: "n > 0 \<Longrightarrow> digit_value (hd (show_nat n)) \<noteq> 0"
proof (induction n rule: show_nat.induct)
  case (1 n)
  then show ?case by (subst show_nat.simps) (auto simp: hd_append)
qed

lemma nat_normal_form:
  assumes "m > 0"
  shows "\<exists>x. f64_wf x \<and> \<not> f64_is_zero x \<and> f64_abs x = of_nat m \<and> abs_text x = show_nat m"
proof -
  have "\<exists>D p. m = D * 10 ^ p \<and> \<not> 10 dvd D \<and> show_nat m = show_nat D @ replicate p (CHR ''0'')"
    using assms
  proof (induction m rule: less_induct)
    case (less m)
    show ?case
    proof (cases "10 dvd m")
      case False
      then show ?thesis by (intro exI [of _ m] exI [of _ 0]) simp
    next
      case True
      then obtain q where q: "m = q * 10" by (metis dvd_def mult.commute)
      with less.prems have "q > 0" "q < m" by auto
      then obtain D p where "q = D * 10 ^ p" "\<not> 10 dvd D" "show_nat q = show_nat D @ replicate p (CHR ''0'')"
        using less.IH by blast
      then show ?thesis
        using show_nat_times_ten [OF \<open>q > 0\<close>] q
        by (intro exI [of _ D] exI [of _ "Suc p"]) (simp add: replicate_append_same [symmetric])
    qed
  qed
  then obtain D p where D: "m = D * 10 ^ p" "\<not> 10 dvd D" "show_nat m = show_nat D @ replicate p (CHR ''0'')" by blast
  define ds where "ds = map digit_value (show_nat D)"
  have str: "digit_string ds = show_nat D"
  proof -
    have "digit_char (digit_value c) = c" if "is_digit c" for c
      using that by (auto simp: digit_char_def digit_value_def is_digit_def)
    then show ?thesis
      using show_nat_all_digits [of D] by (auto simp: ds_def digit_string_def intro!: map_idI)
  qed
  have nat: "digits_nat ds = D" using string_nat_show_nat [of D] by (simp add: string_nat_def ds_def)
  have lt: "list_all (\<lambda>d. d < 10) ds"
    using show_nat_all_digits [of D] by (auto simp: ds_def list_all_iff digit_value_def is_digit_def)
  have ne: "ds \<noteq> []" by (simp add: ds_def)
  have len: "length ds = length (show_nat D)" by (simp add: ds_def)
  have D0: "D \<noteq> 0" using assms D(1) by (cases D) auto
  have last: "last ds \<noteq> 0"
  proof
    assume "last ds = 0"
    then obtain xs where "ds = xs @ [0]" using ne by (metis append_butlast_last_id)
    then show False using nat D(2) by (metis add.right_neutral digits_nat_snoc dvd_triv_right)
  qed
  have hd: "hd ds \<noteq> 0" using show_nat_hd_nonzero [of D] D0 by (simp add: ds_def hd_map)
  define x where "x = \<lparr>f64_negative = False, f64_digits = ds, f64_exponent = int (length ds + p) - 1\<rparr>"
  have "\<not> f64_is_zero x" using hd by (auto simp: f64_is_zero_def x_def)
  moreover have "f64_wf x" using ne lt hd last by (simp add: f64_wf_def x_def)
  moreover have "f64_abs x = of_nat m" by (simp add: f64_abs_def x_def nat D(1))
  moreover have "abs_text x = show_nat m"
    by (simp add: abs_text_def x_def str len D(3))
  ultimately show ?thesis by blast
qed

lemma f64_abs_pos: "f64_wf x \<Longrightarrow> \<not> f64_is_zero x \<Longrightarrow> f64_abs x > 0"
proof -
  assume "f64_wf x" "\<not> f64_is_zero x"
  then have "\<not> 10 dvd digits_nat (f64_digits x)" by (intro digits_not_dvd) (auto simp: f64_wf_def)
  then have "digits_nat (f64_digits x) > 0" by (cases "digits_nat (f64_digits x)") auto
  then show ?thesis by (simp add: f64_abs_def)
qed

lemma number_normal_form:
  assumes "number_wf n" "write_number n = Inr s"
  shows "if num_value n = 0 then s = ''0''
    else \<exists>x. f64_wf x \<and> \<not> f64_is_zero x \<and> f64_abs x = \<bar>num_value n\<bar>
      \<and> s = (if num_value n < 0 then ''-'' else []) @ abs_text x"
proof (cases n)
  case (PosInt m)
  with assms have s: "s = show_nat m" by (auto split: if_splits)
  show ?thesis
  proof (cases "m = 0")
    case True
    with PosInt s show ?thesis by (simp add: show_nat.simps [of 0])
  next
    case False
    with nat_normal_form [of m] PosInt s show ?thesis by auto
  qed
next
  case (NegInt i)
  with assms have s: "s = ''-'' @ show_nat (nat (- i))" and i: "i < 0"
    by (auto simp: show_int_def split: if_splits)
  then obtain x where "f64_wf x" "\<not> f64_is_zero x" "f64_abs x = of_nat (nat (- i))" "abs_text x = show_nat (nat (- i))"
    using nat_normal_form [of "nat (- i)"] by auto
  moreover have "rat_of_nat (nat (- i)) = \<bar>of_int i\<bar>" using i by simp
  ultimately show ?thesis using NegInt s i by auto
next
  case (Float x)
  with assms have s: "s = format_f64 x" and wf: "f64_wf x" by (auto split: if_splits)
  show ?thesis
  proof (cases "f64_is_zero x")
    case True
    then have "f64_abs x = 0" by (simp add: f64_abs_def f64_is_zero_def digits_nat_def)
    with True Float s show ?thesis by (simp add: format_f64_abs_text)
  next
    case False
    with f64_abs_pos [OF wf] have "f64_abs x > 0" by simp
    with False Float s wf show ?thesis by (auto simp: format_f64_abs_text)
  qed
qed

lemma write_number_cong:
  assumes "number_wf m" "number_wf n" "write_number m = Inr s" "write_number n = Inr t" "num_value m = num_value n"
  shows "s = t"
proof (cases "num_value n = 0")
  case True
  with number_normal_form [OF assms(1,3)] number_normal_form [OF assms(2,4)] assms(5) show ?thesis by simp
next
  case False
  obtain x where x: "f64_wf x" "\<not> f64_is_zero x" "f64_abs x = \<bar>num_value n\<bar>"
    "s = (if num_value n < 0 then ''-'' else []) @ abs_text x"
    using number_normal_form [OF assms(1,3)] False assms(5) by (simp only: if_False) blast
  obtain y where y: "f64_wf y" "\<not> f64_is_zero y" "f64_abs y = \<bar>num_value n\<bar>"
    "t = (if num_value n < 0 then ''-'' else []) @ abs_text y"
    using number_normal_form [OF assms(2,4)] False by (simp only: if_False) blast
  have "f64_digits x = f64_digits y \<and> f64_exponent x = f64_exponent y"
    using f64_unique [OF x(1) y(1) x(2) y(2)] x(3) y(3) by simp
  then have "abs_text x = abs_text y" by (simp add: abs_text_def)
  with x y show ?thesis by simp
qed

subsection \<open>Strings can be read back\<close>

definition hex_table :: string where
  "hex_table = ''0123456789abcdef''"

lemma hex_table_inject: "i < 16 \<Longrightarrow> j < 16 \<Longrightarrow> hex_table ! i = hex_table ! j \<longleftrightarrow> i = j"
  by (intro nth_eq_iff_index_eq) (simp_all add: hex_table_def)

lemma hex4_inject:
  assumes "hex4 m @ a = hex4 n @ b" "m < 256" "n < 256"
  shows "m = n \<and> a = b"
proof -
  from assms(1) have "hex_table ! (m div 16 mod 16) = hex_table ! (n div 16 mod 16)"
    "hex_table ! (m mod 16) = hex_table ! (n mod 16)" "a = b"
    by (simp_all add: hex4_def hex_table_def)
  then have "m div 16 = n div 16" "m mod 16 = n mod 16"
    using assms(2,3) hex_table_inject by (simp_all add: less_mult_imp_div_less)
  then have "m = n" by (metis div_mult_mod_eq)
  with \<open>a = b\<close> show ?thesis by simp
qed

text \<open>The letter after the backslash of a short escape.\<close>

definition short_escape :: "char \<Rightarrow> char option" where
  "short_escape c =
     map_of [(CHR 0x22, CHR 0x22), (CHR 0x5C, CHR 0x5C), (CHR 0x08, CHR ''b''), (CHR 0x09, CHR ''t''),
             (CHR 0x0A, CHR ''n''), (CHR 0x0C, CHR ''f''), (CHR 0x0D, CHR ''r'')] c"

lemma escape_char_cases:
  "escape_char c = (case short_escape c of
      Some l \<Rightarrow> [CHR 0x5C, l]
    | None \<Rightarrow> if (of_char c :: nat) < 32 then [CHR 0x5C, CHR ''u''] @ hex4 (of_char c) else [c])"
  by (simp add: escape_char_def short_escape_def)

lemma short_escape_inject: "short_escape c = Some l \<Longrightarrow> short_escape d = Some l \<Longrightarrow> c = d"
  by (auto simp: short_escape_def split: if_splits)

lemma short_escape_not_u: "short_escape c \<noteq> Some (CHR ''u'')"
  by (auto simp: short_escape_def split: if_splits)

lemma short_escape_None: "short_escape c = None \<Longrightarrow> c \<noteq> CHR 0x22 \<and> c \<noteq> CHR 0x5C"
  by (auto simp: short_escape_def split: if_splits)

lemma escape_char_inject:
  assumes "escape_char c @ a = escape_char d @ b"
  shows "c = d \<and> a = b"
proof (cases "short_escape c")
  case (Some l)
  then show ?thesis
    using assms short_escape_inject [of c l d] short_escape_not_u [of c] short_escape_None [of d]
    by (auto simp: escape_char_cases split: option.splits if_splits)
next
  case None
  note c = this short_escape_None [OF this]
  show ?thesis
  proof (cases "(of_char c :: nat) < 32")
    case True
    then have "escape_char c = [CHR 0x5C, CHR ''u''] @ hex4 (of_char c)" using c by (simp add: escape_char_cases)
    with assms have eq: "[CHR 0x5C, CHR ''u''] @ hex4 (of_char c) @ a = escape_char d @ b" by simp
    then have "escape_char d = [CHR 0x5C, CHR ''u''] @ hex4 (of_char d)" "(of_char d :: nat) < 32"
      using short_escape_not_u [of d] short_escape_None [of d]
      by (auto simp: escape_char_cases split: option.splits if_splits)
    then show ?thesis
      using eq hex4_inject [of "of_char c" a "of_char d" b] True by simp
  next
    case False
    then have "escape_char c = [c]" using c by (simp add: escape_char_cases)
    with assms c show ?thesis by (auto simp: escape_char_cases split: option.splits if_splits)
  qed
qed

lemma escape_char_not_quote: "escape_char c @ a \<noteq> CHR 0x22 # b"
  using short_escape_None [of c] by (auto simp: escape_char_cases split: option.splits)

lemma escaped_inject:
  "concat (map escape_char s) @ CHR 0x22 # r = concat (map escape_char t) @ CHR 0x22 # r' \<Longrightarrow> s = t \<and> r = r'"
proof (induction s arbitrary: t)
  case Nil
  then show ?case using escape_char_not_quote by (cases t) (auto dest: sym)
next
  case (Cons c s)
  show ?case
  proof (cases t)
    case Nil
    with Cons.prems show ?thesis using escape_char_not_quote by fastforce
  next
    case t: (Cons d u)
    with Cons.prems have "escape_char c @ (concat (map escape_char s) @ CHR 0x22 # r) =
        escape_char d @ (concat (map escape_char u) @ CHR 0x22 # r')" by simp
    from escape_char_inject [OF this] Cons.IH t show ?thesis by blast
  qed
qed

lemma write_string_inject: "write_string s @ r = write_string t @ r' \<Longrightarrow> s = t \<and> r = r'"
  using escaped_inject [of s r t r'] by (simp add: write_string_def)

subsection \<open>The shape of the text\<close>

fun join_entries :: "bool \<Rightarrow> (string \<times> string) list \<Rightarrow> string" where
  "join_entries first [] = []"
| "join_entries first ((key, out) # es) =
     (if first then [] else '','') @ write_string key @ '':'' @ out @ join_entries False es"

lemma join_entries_zip:
  "concat (map (\<lambda>(i, key, out). (if i > 0 then '','' else []) @ write_string key @ '':'' @ out) (zip [i..<i + length es] es)) =
     join_entries (i = 0) es"
proof (induction es arbitrary: i)
  case (Cons e es)
  obtain key out where e: "e = (key, out)" by force
  have "[i..<i + length (e # es)] = i # [Suc i..<Suc i + length es]" by (subst upt_conv_Cons) simp_all
  then have "zip [i..<i + length (e # es)] (e # es) = (i, e) # zip [Suc i..<Suc i + length es] es"
    by (simp only: zip_Cons_Cons)
  with Cons.IH [of "Suc i"] show ?case by (simp only: e list.map concat.simps prod.case) simp
qed simp

lemma write_object:
  "write_value (JObject ms) = and_then (write_members ms) (\<lambda>es.
     Ok (''{'' @ join_entries True (sort_key (encode_utf16 \<circ> fst) es) @ ''}''))"
proof -
  have "concat (map (\<lambda>(i, key, out). (if i > 0 then '','' else []) @ write_string key @ '':'' @ out)
      (zip [0..<length es] (sort_key (\<lambda>(key, _). encode_utf16 key) es))) =
      join_entries True (sort_key (encode_utf16 \<circ> fst) es)" for es :: "(string \<times> string) list"
    using join_entries_zip [of 0 "sort_key (encode_utf16 \<circ> fst) es"] by (simp add: case_prod_unfold comp_def)
  then show ?thesis by simp
qed

lemma write_members_iff:
  "write_members ms = Inr es \<longleftrightarrow> list_all2 (\<lambda>a b. fst a = fst b \<and> write_value (snd a) = Inr (snd b)) ms es"
proof (induction ms arbitrary: es)
  case (Cons m ms)
  obtain k v where m: "m = (k, v)" by force
  show ?case by (auto simp: m and_then_Inr_iff list_all2_Cons1 Cons.IH)
qed auto

text \<open>The first character tells the kind of a value.\<close>

fun lead :: "json \<Rightarrow> char \<Rightarrow> bool" where
  "lead JNull c = (c = CHR ''n'')"
| "lead (JBool b) c = (c = (if b then CHR ''t'' else CHR ''f''))"
| "lead (JNumber n) c = (is_digit c \<or> c = CHR ''-'')"
| "lead (JString s) c = (c = CHR 0x22)"
| "lead (JArray xs) c = (c = CHR ''['')"
| "lead (JObject ms) c = (c = CHR ''{'')"

lemma write_value_lead:
  assumes "write_value v = Inr s" "json_wf v"
  shows "\<exists>c r. s = c # r \<and> lead v c"
proof (cases v)
  case (JNumber n)
  with assms write_number_text [of n s] show ?thesis by (cases s) auto
qed (use assms in \<open>auto simp: write_string_def and_then_Inr_iff simp del: write_value.simps(6) simp add: write_object split: if_splits\<close>)

lemma lead_not_close: "lead v c \<Longrightarrow> c \<noteq> CHR '']'' \<and> c \<noteq> CHR ''}'' \<and> c \<noteq> CHR '',''"
  by (cases v) (auto simp: is_digit_def split: if_splits)

definition delim :: "string \<Rightarrow> bool" where
  "delim r \<longleftrightarrow> r = [] \<or> hd r = CHR '','' \<or> hd r = CHR '']'' \<or> hd r = CHR ''}''"

lemma delim_simps [simp]: "delim (CHR '','' # r)" "delim (CHR '']'' # r)" "delim (CHR ''}'' # r)"
  by (simp_all add: delim_def)

lemma number_text_split:
  assumes "list_all num_char s" "list_all num_char t" "delim r" "delim r'" "s @ r = t @ r'"
  shows "s = t \<and> r = r'"
proof -
  have take: "takeWhile num_char (u @ q) = u" if "list_all num_char u" "delim q" for u q
  proof -
    have "takeWhile num_char q = []"
      using that(2) by (cases q) (auto simp: delim_def num_char_def is_digit_def)
    with that(1) show ?thesis by (simp add: takeWhile_append list_all_iff)
  qed
  have "s = t" using take [OF assms(1,3)] take [OF assms(2,4)] assms(5) by simp
  with assms(5) show ?thesis by simp
qed

text \<open>Sorting by a function of the keys keeps two lists with the same keys aligned.\<close>

lemma insort_aligned:
  assumes "fst a = fst b" "E a b" "list_all2 (\<lambda>a b. fst a = fst b \<and> E a b) xs ys"
  shows "list_all2 (\<lambda>a b. fst a = fst b \<and> E a b) (insort_key (f \<circ> fst) a xs) (insort_key (f \<circ> fst) b ys)"
  using assms(3) by (induction rule: list_all2_induct) (use assms(1,2) in auto)

lemma sort_aligned:
  "list_all2 (\<lambda>a b. fst a = fst b \<and> E a b) xs ys \<Longrightarrow>
   list_all2 (\<lambda>a b. fst a = fst b \<and> E a b) (sort_key (f \<circ> fst) xs) (sort_key (f \<circ> fst) ys)"
proof (induction rule: list_all2_induct)
  case (Cons x xs y ys)
  then show ?case unfolding sort_key_simps by (intro insort_aligned) blast+
qed simp

lemma obj_wf_unsort:
  assumes "obj_wf ms"
  shows "sort_key fst (sort_key g ms) = ms"
proof -
  have "distinct (map fst ms)" "sorted (map fst ms)"
    using assms by (auto simp: obj_wf_def strict_sorted_iff)
  then show ?thesis
    by (intro sort_key_inj_key_eq) (auto simp: distinct_map)
qed

subsection \<open>Texts can be read back\<close>

definition read_back :: "json \<Rightarrow> bool" where
  "read_back v \<longleftrightarrow> (\<forall>w s t r r'. write_value v = Inr s \<longrightarrow> write_value w = Inr t \<longrightarrow> json_wf v \<longrightarrow> json_wf w \<longrightarrow>
     delim r \<longrightarrow> delim r' \<longrightarrow> s @ r = t @ r' \<longrightarrow> json_equiv v w \<and> r = r')"

lemma read_backD:
  "read_back v \<Longrightarrow> write_value v = Inr s \<Longrightarrow> write_value w = Inr t \<Longrightarrow> json_wf v \<Longrightarrow> json_wf w \<Longrightarrow>
   delim r \<Longrightarrow> delim r' \<Longrightarrow> s @ r = t @ r' \<Longrightarrow> json_equiv v w \<and> r = r'"
  unfolding read_back_def by blast

lemma entries_read_back:
  assumes "list_all2 (\<lambda>a b. fst a = fst b \<and> write_value (snd a) = Inr (snd b)) ms es"
    "list_all2 (\<lambda>a b. fst a = fst b \<and> write_value (snd a) = Inr (snd b)) ns fs"
    "\<forall>m \<in> set ms. read_back (snd m) \<and> json_wf (snd m)" "\<forall>n \<in> set ns. json_wf (snd n)"
    "join_entries first es @ CHR ''}'' # r = join_entries first fs @ CHR ''}'' # r'"
  shows "list_all2 (\<lambda>a b. fst a = fst b \<and> json_equiv (snd a) (snd b)) ms ns \<and> r = r'"
  using assms
proof (induction ms es arbitrary: ns fs first rule: list_all2_induct)
  case Nil
  then show ?case
    by (cases fs) (auto simp: write_string_def split: if_splits prod.splits)
next
  case (Cons m ms e es)
  obtain n ns' f fs' where nf: "ns = n # ns'" "fs = f # fs'"
    using Cons.prems(1,4) by (cases ns; cases fs; cases e) (auto simp: write_string_def split: if_splits)
  obtain k u k' u' where e: "e = (k, u)" and f: "f = (k', u')" by (cases e; cases f) blast
  let ?R = "\<lambda>es r. join_entries False es @ CHR ''}'' # r"
  have "write_string k @ CHR '':'' # u @ ?R es r = write_string k' @ CHR '':'' # u' @ ?R fs' r'"
    using Cons.prems(4) nf e f by (simp split: if_splits)
  then have kk: "k = k'" and oo: "u @ ?R es r = u' @ ?R fs' r'" using write_string_inject by blast+
  have delim: "delim (?R xs q)" for xs q by (cases xs) (auto simp: split: prod.splits)
  have "json_equiv (snd m) (snd n) \<and> ?R es r = ?R fs' r'"
    by (rule read_backD [of _ u _ u'])
       (use Cons.hyps Cons.prems nf e f oo delim in auto)
  moreover from this have "list_all2 (\<lambda>a b. fst a = fst b \<and> json_equiv (snd a) (snd b)) ms ns' \<and> r = r'"
    using Cons.IH [of ns' fs' False] Cons.prems nf by auto
  ultimately show ?case using Cons.hyps(1) Cons.prems(1) nf e f kk by auto
qed

lemma items_read_back:
  assumes "\<forall>x \<in> set xs. read_back x \<and> json_wf x" "\<forall>y \<in> set ys. json_wf y"
    "write_items first xs = Inr s" "write_items first ys = Inr t" "s @ CHR '']'' # r = t @ CHR '']'' # r'"
  shows "list_all2 json_equiv xs ys \<and> r = r'"
  using assms
proof (induction xs arbitrary: ys first s t)
  case Nil
  show ?case
  proof (cases ys)
    case Nil
    with Nil.prems show ?thesis by simp
  next
    case (Cons y ys')
    obtain c u where "write_value y = Inr (c # u)" "lead y c"
      using Nil.prems Cons write_value_lead [of y] by (auto simp: and_then_Inr_iff)
    with Nil.prems Cons lead_not_close [of y c] show ?thesis by (auto simp: and_then_Inr_iff split: if_splits)
  qed
next
  case (Cons x xs)
  obtain a s' where s: "write_value x = Inr a" "write_items False xs = Inr s'" "s = (if first then [] else '','') @ a @ s'"
    using Cons.prems(3) by (auto simp: and_then_Inr_iff)
  obtain c u where a: "a = c # u" "lead x c" using write_value_lead [OF s(1)] Cons.prems(1) by auto
  obtain y ys' where ys: "ys = y # ys'"
    using Cons.prems(4,5) s(3) a lead_not_close [of x c] by (cases ys) (auto split: if_splits)
  obtain b t' where t: "write_value y = Inr b" "write_items False ys' = Inr t'" "t = (if first then [] else '','') @ b @ t'"
    using Cons.prems(4) ys by (auto simp: and_then_Inr_iff)
  have eq: "a @ (s' @ CHR '']'' # r) = b @ (t' @ CHR '']'' # r')"
    using Cons.prems(5) s(3) t(3) by (simp split: if_splits)
  have delim: "delim (q @ CHR '']'' # p)" if "write_items False zs = Inr q" for zs q p
    using that by (cases zs) (auto simp: and_then_Inr_iff)
  have "json_equiv x y \<and> s' @ CHR '']'' # r = t' @ CHR '']'' # r'"
    by (rule read_backD [OF _ s(1) t(1) _ _ delim [OF s(2)] delim [OF t(2)] eq])
       (use Cons.prems ys in auto)
  with Cons.IH [OF _ _ s(2) t(2)] Cons.prems ys show ?case by auto
qed

lemma read_back_all: "read_back v"
proof (induction v)
  case (JNumber n)
  show ?case
    unfolding read_back_def
  proof (intro allI impI)
    fix w s t r r'
    assume v: "write_value (JNumber n) = Inr s" "json_wf (JNumber n)"
      and w: "write_value w = Inr t" "json_wf w" and d: "delim r" "delim r'" and eq: "s @ r = t @ r'"
    obtain c p where s: "s = c # p" "lead (JNumber n) c" using write_value_lead [OF v] by blast
    obtain c' q where t: "t = c' # q" "lead w c'" using write_value_lead [OF w] by blast
    obtain m where m: "w = JNumber m"
      using eq s t by (cases w) (auto simp: is_digit_def split: if_splits)
    have "text_value s = num_value n" "text_value t = num_value m" "list_all num_char s" "list_all num_char t"
      using write_number_text [of n s] write_number_text [of m t] v w m by auto
    with number_text_split [OF _ _ d eq] m show "json_equiv (JNumber n) w \<and> r = r'"
      by (auto intro: equiv_number)
  qed
next
  case (JArray xs)
  show ?case
    unfolding read_back_def
  proof (intro allI impI)
    fix w s t r r'
    assume v: "write_value (JArray xs) = Inr s" "json_wf (JArray xs)"
      and w: "write_value w = Inr t" "json_wf w" and eq: "s @ r = t @ r'"
    obtain a where s: "s = ''['' @ a @ '']''" "write_items True xs = Inr a" using v by (auto simp: and_then_Inr_iff)
    obtain c q where t: "t = c # q" "lead w c" using write_value_lead [OF w] by blast
    obtain ys where ys: "w = JArray ys" using eq s t by (cases w) (auto simp: is_digit_def split: if_splits)
    obtain b where b: "t = ''['' @ b @ '']''" "write_items True ys = Inr b" using w ys by (auto simp: and_then_Inr_iff)
    have "list_all2 json_equiv xs ys \<and> r = r'"
      by (rule items_read_back [OF _ _ s(2) b(2)]) (use JArray v w ys eq s b in \<open>auto simp: list_all_iff\<close>)
    with ys show "json_equiv (JArray xs) w \<and> r = r'" by (auto intro: equiv_array)
  qed
next
  case (JObject ms)
  have IH: "read_back (snd m)" if "m \<in> set ms" for m using JObject [OF that] by (cases m) simp
  show ?case
    unfolding read_back_def
  proof (intro allI impI)
    fix w s t r r'
    assume v: "write_value (JObject ms) = Inr s" "json_wf (JObject ms)"
      and w: "write_value w = Inr t" "json_wf w" and eq: "s @ r = t @ r'"
    let ?f = "encode_utf16 \<circ> fst"
    obtain es where es: "write_members ms = Inr es" "s = ''{'' @ join_entries True (sort_key ?f es) @ ''}''"
      using v(1) unfolding write_object by (auto simp: and_then_Inr_iff)
    obtain c q where t: "t = c # q" "lead w c" using write_value_lead [OF w] by blast
    obtain ns where ns: "w = JObject ns" using eq es t by (cases w) (auto simp: is_digit_def split: if_splits)
    obtain fs where fs: "write_members ns = Inr fs" "t = ''{'' @ join_entries True (sort_key ?f fs) @ ''}''"
      using w(1) unfolding ns write_object by (auto simp: and_then_Inr_iff)
    have wf: "obj_wf ms" "obj_wf ns" "\<forall>m \<in> set ms. json_wf (snd m)" "\<forall>n \<in> set ns. json_wf (snd n)"
      using v(2) w(2) ns by (auto simp: list_all_iff)
    have sorted: "list_all2 (\<lambda>a b. fst a = fst b \<and> json_equiv (snd a) (snd b)) (sort_key ?f ms) (sort_key ?f ns) \<and> r = r'"
    proof (rule entries_read_back)
      show "list_all2 (\<lambda>a b. fst a = fst b \<and> write_value (snd a) = Inr (snd b)) (sort_key ?f ms) (sort_key ?f es)"
        using es(1) unfolding write_members_iff by (rule sort_aligned)
      show "list_all2 (\<lambda>a b. fst a = fst b \<and> write_value (snd a) = Inr (snd b)) (sort_key ?f ns) (sort_key ?f fs)"
        using fs(1) unfolding write_members_iff by (rule sort_aligned)
      show "\<forall>m \<in> set (sort_key ?f ms). read_back (snd m) \<and> json_wf (snd m)" using IH wf by simp
      show "\<forall>n \<in> set (sort_key ?f ns). json_wf (snd n)" using wf by simp
      show "join_entries True (sort_key ?f es) @ CHR ''}'' # r = join_entries True (sort_key ?f fs) @ CHR ''}'' # r'"
        using eq es(2) fs(2) by simp
    qed
    have "list_all2 (\<lambda>a b. fst a = fst b \<and> json_equiv (snd a) (snd b))
        (sort_key (id \<circ> fst) (sort_key ?f ms)) (sort_key (id \<circ> fst) (sort_key ?f ns))"
      by (rule sort_aligned) (rule conjunct1 [OF sorted])
    then have "list_all2 (\<lambda>a b. fst a = fst b \<and> json_equiv (snd a) (snd b)) ms ns"
      by (simp only: id_comp obj_wf_unsort [OF wf(1)] obj_wf_unsort [OF wf(2)])
    with sorted ns show "json_equiv (JObject ms) w \<and> r = r'" by (auto intro: equiv_object)
  qed
next
  case JNull
  show ?case
    unfolding read_back_def
  proof (intro allI impI)
    fix w s t r r'
    assume v: "write_value JNull = Inr s" and w: "write_value w = Inr t" "json_wf w" and eq: "s @ r = t @ r'"
    obtain c q where t: "t = c # q" "lead w c" using write_value_lead [OF w] by blast
    have "w = JNull" using eq t v by (cases w) (auto simp: is_digit_def split: if_splits)
    with eq v w show "json_equiv JNull w \<and> r = r'" by (auto intro: equiv_null)
  qed
next
  case (JBool b)
  show ?case
    unfolding read_back_def
  proof (intro allI impI)
    fix w s t r r'
    assume v: "write_value (JBool b) = Inr s" and w: "write_value w = Inr t" "json_wf w" and eq: "s @ r = t @ r'"
    obtain c q where t: "t = c # q" "lead w c" using write_value_lead [OF w] by blast
    have "w = JBool b" using eq t v by (cases w) (auto simp: is_digit_def split: if_splits)
    with eq v w show "json_equiv (JBool b) w \<and> r = r'" by (auto intro: equiv_bool)
  qed
next
  case (JString x)
  show ?case
    unfolding read_back_def
  proof (intro allI impI)
    fix w s t r r'
    assume v: "write_value (JString x) = Inr s" and w: "write_value w = Inr t" "json_wf w" and eq: "s @ r = t @ r'"
    obtain c q where t: "t = c # q" "lead w c" using write_value_lead [OF w] by blast
    obtain y where y: "w = JString y"
      using eq t v by (cases w) (auto simp: is_digit_def write_string_def split: if_splits)
    with eq v w write_string_inject [of x r y r'] show "json_equiv (JString x) w \<and> r = r'" by (auto intro: equiv_string)
  qed
qed

subsection \<open>When there is a text\<close>

lemma write_items_iff:
  "(\<exists>s. write_items first xs = Inr s) \<longleftrightarrow> (\<forall>x \<in> set xs. \<exists>s. write_value x = Inr s)"
  by (induction xs arbitrary: first) (force simp: and_then_Inr_iff)+

lemma write_members_Ok_iff:
  "(\<exists>es. write_members ms = Inr es) \<longleftrightarrow> (\<forall>m \<in> set ms. \<exists>s. write_value (snd m) = Inr s)"
  by (induction ms) (force simp: and_then_Inr_iff)+

lemma write_value_Ok_iff: "json_wf v \<Longrightarrow> (\<exists>s. write_value v = Inr s) \<longleftrightarrow> json_safe v"
proof (induction v)
  case (JNumber n)
  then show ?case using write_number_Ok_iff [of n] by simp
next
  case (JArray xs)
  have "(\<exists>s. write_value (JArray xs) = Inr s) \<longleftrightarrow> (\<exists>s. write_items True xs = Inr s)"
    by (simp add: and_then_Inr_iff)
  also have "\<dots> \<longleftrightarrow> (\<forall>x \<in> set xs. json_safe x)"
    unfolding write_items_iff using JArray by (auto simp: list_all_iff)
  finally show ?case by (simp add: list_all_iff)
next
  case (JObject ms)
  have "(\<exists>s. write_value (JObject ms) = Inr s) \<longleftrightarrow> (\<exists>es. write_members ms = Inr es)"
    unfolding write_object by (simp add: and_then_Inr_iff)
  also have "\<dots> \<longleftrightarrow> (\<forall>m \<in> set ms. json_safe (snd m))"
    unfolding write_members_Ok_iff
  proof (rule ball_cong [OF refl])
    fix m assume "m \<in> set ms"
    then show "(\<exists>s. write_value (snd m) = Inr s) \<longleftrightarrow> json_safe (snd m)"
      using JObject.IH [of m "snd m"] JObject.prems by (cases m) (auto simp: list_all_iff)
  qed
  finally show ?case by (auto simp: list_all_iff)
qed simp_all

lemma write_value_Err:
  "write_value v = Inl e \<Longrightarrow> e = UnsafeInteger"
  "write_items first xs = Inl e \<Longrightarrow> e = UnsafeInteger"
  "write_members ms = Inl e \<Longrightarrow> e = UnsafeInteger"
  by (induction v and first xs and ms rule: write_value_write_items_write_members.induct)
     (auto simp: and_then_Inl_iff dest: write_number_Err)

text \<open>Equivalent values have the same text.\<close>

lemma equiv_same_text:
  "json_equiv v w \<Longrightarrow> json_wf v \<Longrightarrow> json_wf w \<Longrightarrow> write_value v = Inr s \<Longrightarrow> write_value w = Inr s"
proof (induction arbitrary: s rule: json_equiv.induct)
  case (equiv_number m n)
  then have "\<bar>num_value n\<bar> \<le> of_nat MAX_SAFE_INTEGER" using write_number_Ok_iff [of m] by auto
  then obtain t where "write_number n = Inr t" using write_number_Ok_iff [of n] equiv_number by auto
  with equiv_number write_number_cong [of m n s t] show ?case by simp
next
  case (equiv_array xs ys)
  have "write_items first ys = Inr u" if "write_items first xs = Inr u" for first u
    using equiv_array.IH equiv_array.prems(1,2) that
  proof (induction arbitrary: first u rule: list_all2_induct)
    case (Cons x xs y ys)
    then show ?case by (auto simp: and_then_Inr_iff list_all_iff)
  qed simp
  with equiv_array.prems(3) show ?case by (auto simp: and_then_Inr_iff)
next
  case (equiv_object ms ns)
  have "write_members ns = Inr es" if "write_members ms = Inr es" for es
    using equiv_object.IH equiv_object.prems(1,2) that
    unfolding json_wf.simps
  proof (induction arbitrary: es rule: list_all2_induct)
    case (Cons m ms n ns)
    obtain k v k' v' where "m = (k, v)" "n = (k', v')" by (cases m; cases n) blast
    with Cons show ?case by (auto simp: and_then_Inr_iff list_all_iff obj_wf_def)
  qed simp
  with equiv_object.prems(3) show ?case unfolding write_object by (auto simp: and_then_Inr_iff)
qed auto

subsection \<open>The strict parse\<close>

lemma contains_key_insert [simp]: "contains_key (obj_insert k v m) k' \<longleftrightarrow> k = k' \<or> contains_key m k'"
  by (induction m) (auto simp: contains_key_def)

lemma contains_key_Nil: "\<not> contains_key [] k"
  by (simp add: contains_key_def)

lemma strict_value_eq:
  "strict_value v = (if unique_names v then Some (plain_value v) else None)"
  "visit_seq xs = (if list_all unique_names xs then Some (map plain_value xs) else None)"
  "visit_map ms acc =
     (if distinct (map fst ms) \<and> (\<forall>k \<in> fst ` set ms. \<not> contains_key acc k) \<and> (\<forall>v \<in> snd ` set ms. unique_names v)
      then Some (plain_members ms acc) else None)"
  by (induction v and xs and ms acc rule: strict_value_visit_seq_visit_map.induct)
     (auto simp: list_all_iff contains_key_Nil split: prod.splits)

section \<open>Canonicity\<close>

text \<open>
  C27: Canonical bytes say exactly what the value says. Serialization of a well-formed value
  succeeds if and only if all its numbers are within \<open>\<plusminus>(2^53 - 1)\<close>, and fails only with
  \<^verbatim>\<open>UnsafeInteger\<close>. Two values have the same canonical bytes if and only if they are
  logically equal, with numbers compared by value: no two different inputs of a guest share
  their bytes, and equal inputs never differ in them.
\<close>

theorem canonical_json_exact:
  assumes "json_wf v" "json_wf w"
  shows "(case to_canonical_json v of Inr _ \<Rightarrow> json_safe v | Inl e \<Rightarrow> e = UnsafeInteger \<and> \<not> json_safe v) \<and>
    ((\<exists>s. to_canonical_json v = Ok s \<and> to_canonical_json w = Ok s) \<longleftrightarrow> json_safe v \<and> json_equiv v w)"
proof
  show "case to_canonical_json v of Inr _ \<Rightarrow> json_safe v | Inl e \<Rightarrow> e = UnsafeInteger \<and> \<not> json_safe v"
    using write_value_Ok_iff [OF assms(1)] write_value_Err(1) [of v] unfolding to_canonical_json_def
    by (cases "write_value v") auto
  show "(\<exists>s. to_canonical_json v = Ok s \<and> to_canonical_json w = Ok s) \<longleftrightarrow> json_safe v \<and> json_equiv v w"
  proof
    assume "\<exists>s. to_canonical_json v = Ok s \<and> to_canonical_json w = Ok s"
    then obtain s where s: "write_value v = Inr s" "write_value w = Inr s" unfolding to_canonical_json_def by blast
    have "json_equiv v w \<and> [] = ([] :: string)"
      by (rule read_backD [OF read_back_all s assms]) (simp_all add: delim_def)
    with s write_value_Ok_iff [OF assms(1)] show "json_safe v \<and> json_equiv v w" by blast
  next
    assume "json_safe v \<and> json_equiv v w"
    with write_value_Ok_iff [OF assms(1)] equiv_same_text [OF _ assms]
    show "\<exists>s. to_canonical_json v = Ok s \<and> to_canonical_json w = Ok s"
      unfolding to_canonical_json_def by blast
  qed
qed

text \<open>The numbers \<open>100\<close> and \<open>1e2\<close>.\<close>

definition sample_hundred :: f64 where
  "sample_hundred = \<lparr>f64_negative = False, f64_digits = [1], f64_exponent = 2\<rparr>"

lemma sample_hundred_value: "num_value (Float sample_hundred) = 100"
  by (simp add: sample_hundred_def f64_abs_def digits_nat_def pow10_def)

theorem canonical_json_exact_witness:
  "json_wf (JNumber (PosInt 100)) \<and> json_wf (JNumber (Float sample_hundred)) \<and>
   (\<exists>s. to_canonical_json (JNumber (PosInt 100)) = Ok s \<and> to_canonical_json (JNumber (Float sample_hundred)) = Ok s)"
proof -
  have wf: "json_wf (JNumber (PosInt 100))" "json_wf (JNumber (Float sample_hundred))"
    by (simp_all add: u64_max_def f64_wf_def f64_is_zero_def sample_hundred_def)
  have "json_equiv (JNumber (PosInt 100)) (JNumber (Float sample_hundred))"
    by (rule equiv_number) (simp only: sample_hundred_value, simp)
  moreover have "json_safe (JNumber (PosInt 100))" by (simp add: MAX_SAFE_INTEGER_def)
  ultimately show ?thesis using canonical_json_exact [OF wf] wf by blast
qed

text \<open>
  C39: The error of caller bytes is exact. Bytes that parse and repeat no member name, at any depth,
  canonicalize to the canonical form of their plain value or fail because a number is unsafe; bytes
  that parse and repeat a name are \<^verbatim>\<open>DuplicateKey\<close>, never silently reduced to the last
  occurrence; only bytes that do not parse are \<^verbatim>\<open>InvalidUnicode\<close> or
  \<^verbatim>\<open>InvalidJson\<close>.
\<close>

theorem canonicalize_json_bytes_exact:
  "canonicalize_json_bytes parse_raw utf8_ok bytes =
     (case parse_raw bytes of
        Some raw \<Rightarrow> if unique_names raw then to_canonical_json (plain_value raw) else Err DuplicateKey
      | None \<Rightarrow> if utf8_ok bytes \<and> \<not> has_lone_surrogate_escape bytes then Err InvalidJson else Err InvalidUnicode)"
  by (simp add: canonicalize_json_bytes_def parse_canonicalizable_def strict_value_eq split: option.split)

end
