(* ===== verification/Runtime_Outcome.thy ===== *)
theory Runtime_Outcome
  imports Runtime_Types Canonical_Json
begin

text \<open>
  The functions of \<^verbatim>\<open>crates/traverse-runtime/src/lib.rs\<close> that validate a request, attribute its caller,
  evaluate candidates and build the outcome of an execution: one function for every early exit, one
  for a failed and one for a successful execution, and the OpenTelemetry record derived from a
  trace.

  \<open>json_text\<close> is the JSON printer of \<^verbatim>\<open>serde_json\<close>, used only for the digest of an output, and
  \<open>semver_ok\<close> tells whether \<^verbatim>\<open>semver::Version::parse\<close> accepts a version. The details of state
  events are JSON, so the serialized names of the enumerations are given as functions.
\<close>

section \<open>Definitions\<close>

subsection \<open>Serialized names\<close>

definition opt_json :: "('a \<Rightarrow> json) \<Rightarrow> 'a option \<Rightarrow> json" where
  "opt_json f v = (case v of None \<Rightarrow> JNull | Some x \<Rightarrow> f x)"

fun scope_json :: "RuntimeLookupScope \<Rightarrow> json" where
  "scope_json RtPublicOnly = JString ''public_only''"
| "scope_json RtPreferPrivate = JString ''prefer_private''"

fun target_json :: "PlacementTarget \<Rightarrow> json" where
  "target_json TargetLocal = JString ''local''"
| "target_json TargetBrowser = JString ''browser''"
| "target_json TargetEdge = JString ''edge''"
| "target_json TargetCloud = JString ''cloud''"
| "target_json TargetWorker = JString ''worker''"
| "target_json TargetDevice = JString ''device''"

fun placement_status_json :: "PlacementDecisionStatus \<Rightarrow> json" where
  "placement_status_json PlacementNotAttempted = JString ''not_attempted''"
| "placement_status_json PlacementSelected = JString ''selected''"
| "placement_status_json PlacementRejected = JString ''unsupported''"

fun placement_reason_json :: "PlacementDecisionReason \<Rightarrow> json" where
  "placement_reason_json SelectionNotReached = JString ''selection_not_reached''"
| "placement_reason_json RequestedTargetSelected = JString ''requested_target_selected''"
| "placement_reason_json RequestedTargetUnsupported = JString ''requested_target_unsupported''"

fun error_code_json :: "RuntimeErrorCode \<Rightarrow> json" where
  "error_code_json RequestInvalid = JString ''request_invalid''"
| "error_code_json RtCapabilityNotFound = JString ''capability_not_found''"
| "error_code_json CapabilityAmbiguous = JString ''capability_ambiguous''"
| "error_code_json CapabilityNotRunnable = JString ''capability_not_runnable''"
| "error_code_json PlacementUnsupportedError = JString ''placement_unsupported''"
| "error_code_json ArtifactMissingError = JString ''artifact_missing''"
| "error_code_json ExecutionFailedError = JString ''execution_failed''"
| "error_code_json OutputValidationFailed = JString ''output_validation_failed''"
| "error_code_json ContractViolationError = JString ''contract_violation''"

fun registry_scope_json :: "RuntimeRegistryScope \<Rightarrow> json" where
  "registry_scope_json RtPublic = JString ''public''"
| "registry_scope_json RtPrivate = JString ''private''"

fun implementation_kind_json :: "RuntimeImplementationKind \<Rightarrow> json" where
  "implementation_kind_json RtExecutable = JString ''executable''"
| "implementation_kind_json RtWorkflow = JString ''workflow''"

fun lifecycle_json :: "RuntimeLifecycle \<Rightarrow> json" where
  "lifecycle_json RtDraft = JString ''draft''"
| "lifecycle_json RtActive = JString ''active''"
| "lifecycle_json RtDeprecated = JString ''deprecated''"
| "lifecycle_json RtRetired = JString ''retired''"
| "lifecycle_json RtArchived = JString ''archived''"

fun candidate_reason_json :: "CandidateReason \<Rightarrow> json" where
  "candidate_reason_json ExactMatch = JString ''exact_match''"
| "candidate_reason_json IntentMatch = JString ''intent_match''"

fun rejected_reason_json :: "RejectedCandidateReason \<Rightarrow> json" where
  "rejected_reason_json WrongScope = JString ''wrong_scope''"
| "rejected_reason_json NotRunnableLocally = JString ''not_runnable_locally''"
| "rejected_reason_json LifecycleNotRunnable = JString ''lifecycle_not_runnable''"
| "rejected_reason_json InputContractInvalid = JString ''input_contract_invalid''"
| "rejected_reason_json CandidateArtifactMissing = JString ''artifact_missing''"
| "rejected_reason_json SupersededByPrivateOverlay = JString ''superseded_by_private_overlay''"
| "rejected_reason_json NotSelectedAfterOrdering = JString ''not_selected_after_ordering''"

definition candidate_json :: "RuntimeCandidate \<Rightarrow> json" where
  "candidate_json c = json_obj
     [(''scope'', registry_scope_json (rcd_scope c)), (''capability_id'', JString (rcd_capability_id c)),
      (''capability_version'', JString (rcd_capability_version c)), (''artifact_ref'', JString (rcd_artifact_ref c)),
      (''implementation_kind'', implementation_kind_json (rcd_implementation_kind c)),
      (''lifecycle'', lifecycle_json (rcd_lifecycle c)), (''reason'', candidate_reason_json (rcd_reason c))]"

definition rejected_json :: "RejectedRuntimeCandidate \<Rightarrow> json" where
  "rejected_json c = json_obj
     [(''capability_id'', JString (rj_capability_id c)), (''capability_version'', JString (rj_capability_version c)),
      (''scope'', registry_scope_json (rj_scope c)), (''reason'', rejected_reason_json (rj_reason c))]"

definition identity_json :: "RuntimeIdentity \<Rightarrow> json" where
  "identity_json i = json_obj [(''subject_id'', JString (subject_id i)), (''actor_id'', opt_json JString (actor_id i)),
     (''token_reference_hash'', JString (token_reference_hash i))]"

definition verification_json :: "ArtifactVerificationRecord \<Rightarrow> json" where
  "verification_json r = json_obj
     [(''status'', JString (case av_status r of Verified \<Rightarrow> ''verified'' | Warning \<Rightarrow> ''warning'' | Rejected \<Rightarrow> ''rejected'')),
      (''trust_level'', JString (case av_trust_level r of LocalDev \<Rightarrow> ''local_dev'' | PublishedGoverned \<Rightarrow> ''published_governed'')),
      (''scheme'', opt_json (\<lambda>s. JString (case s of Ed25519 \<Rightarrow> ''ed25519'' | Sigstore \<Rightarrow> ''sigstore'')) (av_scheme r)),
      (''warning_code'', opt_json JString (av_warning_code r)), (''error_code'', opt_json JString (av_error_code r))]"

subsection \<open>Requests\<close>

definition non_empty :: "string \<Rightarrow> bool" where
  "non_empty v \<longleftrightarrow> \<not> blank v"

definition some_non_empty :: "string option \<Rightarrow> bool" where
  "some_non_empty v \<longleftrightarrow> (case v of None \<Rightarrow> False | Some s \<Rightarrow> non_empty s)"

definition request_error :: "string \<Rightarrow> string \<Rightarrow> RuntimeError option" where
  "request_error message path = Some (runtime_error RequestInvalid message (json_obj [(''path'', JString path)]))"

definition validate_request :: "(string \<Rightarrow> bool) \<Rightarrow> RuntimeRequest \<Rightarrow> RuntimeError option" where
  "validate_request semver_ok request =
     (let intent = rq_intent request;
          exact_id = some_non_empty (ri_capability_id intent);
          exact_version = some_non_empty (ri_capability_version intent);
          intent_key = some_non_empty (ri_intent_key intent);
          has_version_range = some_non_empty (ri_version_range intent)
      in if rq_kind request \<noteq> RUNTIME_REQUEST_KIND then request_error ''kind must equal runtime_request'' ''$.kind''
         else if rq_schema_version request \<noteq> RUNTIME_SCHEMA_VERSION
         then request_error ''schema_version must equal 1.0.0'' ''$.schema_version''
         else if rq_governing_spec request \<noteq> GOVERNING_SPEC
         then request_error ''governing_spec must equal 006-runtime-request-execution'' ''$.governing_spec''
         else if blank (rq_request_id request) then request_error ''request_id must be non-empty'' ''$.request_id''
         else if rl_allow_ambiguity (rq_lookup request)
         then request_error ''allow_ambiguity must be false in this runtime slice'' ''$.lookup.allow_ambiguity''
         else if (case ri_capability_version intent of None \<Rightarrow> False | Some version \<Rightarrow> \<not> semver_ok version)
         then request_error ''capability_version must be valid semantic versioning'' ''$.intent.capability_version''
         else if \<not> (exact_id \<or> intent_key)
         then request_error ''runtime intent must include capability_id or intent_key'' ''$.intent''
         else if exact_version \<and> \<not> exact_id
         then request_error ''capability_version requires capability_id'' ''$.intent.capability_version''
         else if has_version_range \<and> \<not> exact_id
         then request_error ''version_range requires capability_id'' ''$.intent.version_range''
         else if has_version_range \<and> exact_version
         then request_error ''version_range and capability_version are mutually exclusive'' ''$.intent.version_range''
         else None)"

definition is_exact_target :: "RuntimeIntent \<Rightarrow> bool" where
  "is_exact_target intent \<longleftrightarrow> some_non_empty (ri_capability_id intent) \<and> some_non_empty (ri_capability_version intent)"

fun map_lookup_scope :: "RuntimeLookupScope \<Rightarrow> LookupScope" where
  "map_lookup_scope RtPublicOnly = PublicOnly"
| "map_lookup_scope RtPreferPrivate = PreferPrivate"

definition sanitized_request :: "SecurityPlatform \<Rightarrow> RuntimeRequest \<Rightarrow> RuntimeRequest" where
  "sanitized_request sp request =
     (let context = rq_context request
      in case rx_caller context of
           None \<Rightarrow> request
         | Some token \<Rightarrow>
             (case derive_identity_from_jwt sp token of
                Some identity \<Rightarrow> request\<lparr>rq_context := context\<lparr>rx_caller := None, rx_identity := Some identity\<rparr>\<rparr>
              | None \<Rightarrow> request\<lparr>rq_context := context\<lparr>rx_caller := Some token\<rparr>\<rparr>))"

definition begin_attempt ::
  "SecurityPlatform \<Rightarrow> RuntimeRequest \<Rightarrow> RuntimeObservabilityConfig \<Rightarrow> AttemptContext \<times> StateEmitter" where
  "begin_attempt sp request observability =
     (let request = sanitized_request sp request;
          request_id = rq_request_id request;
          execution_id = EXECUTION_PREFIX @ request_id;
          trace_id = TRACE_PREFIX @ execution_id;
          emitter = new_emitter execution_id request_id;
          emitter = push emitter LoadingRegistry RuntimeInitializationStarted
            (json_obj [(''registry_status'', JString ''available''),
                       (''identity'', opt_json identity_json (rx_identity (rq_context request)))]);
          emitter = push emitter Ready RegistryLoaded (json_obj [(''governing_spec'', JString GOVERNING_SPEC)])
      in (\<lparr>at_request = request, at_execution_id = execution_id, at_trace_id = trace_id,
           at_observability = observability, at_artifact_verification = None, at_warnings = []\<rparr>, emitter))"

subsection \<open>Candidates\<close>

fun map_registry_scope :: "RegistryScope \<Rightarrow> RuntimeRegistryScope" where
  "map_registry_scope PublicScope = RtPublic"
| "map_registry_scope PrivateScope = RtPrivate"

fun map_implementation_kind :: "ImplementationKind \<Rightarrow> RuntimeImplementationKind" where
  "map_implementation_kind ExecutableKind = RtExecutable"
| "map_implementation_kind WorkflowKind = RtWorkflow"

fun map_lifecycle :: "Lifecycle \<Rightarrow> RuntimeLifecycle" where
  "map_lifecycle Draft = RtDraft"
| "map_lifecycle Active = RtActive"
| "map_lifecycle Deprecated = RtDeprecated"
| "map_lifecycle Retired = RtRetired"
| "map_lifecycle Archived = RtArchived"

definition runtime_candidate :: "ResolvedCapability \<Rightarrow> CandidateReason \<Rightarrow> RuntimeCandidate" where
  "runtime_candidate capability reason =
     \<lparr>rcd_scope = map_registry_scope (rec_scope (rc_record capability)),
      rcd_capability_id = rec_id (rc_record capability), rcd_capability_version = rec_version (rc_record capability),
      rcd_artifact_ref = rec_artifact_ref (rc_record capability),
      rcd_implementation_kind = map_implementation_kind (rec_implementation_kind (rc_record capability)),
      rcd_lifecycle = map_lifecycle (rec_lifecycle (rc_record capability)), rcd_reason = reason\<rparr>"

definition evaluate_candidate :: "ResolvedCapability \<Rightarrow> CandidateEvaluation" where
  "evaluate_candidate candidate =
     (if \<not> is_runtime_eligible (cc_lifecycle (rc_contract candidate))
      then RejectedCandidate candidate LifecycleNotRunnable
      else if rec_implementation_kind (rc_record candidate) = WorkflowKind
      then (if artifact_workflow_ref (rc_artifact candidate) \<noteq> None then Eligible candidate
            else RejectedCandidate candidate CandidateArtifactMissing)
      else (let execution = cc_execution (rc_contract candidate)
            in if Local \<notin> set (preferred_targets execution)
                  \<or> host_api_access (constraints execution) \<noteq> NoHostApi
                  \<or> network_access (constraints execution) \<noteq> Forbidden
               then RejectedCandidate candidate NotRunnableLocally
               else (case artifact_binary (rc_artifact candidate) of
                       Some binary \<Rightarrow>
                         if blank (binary_location binary) then RejectedCandidate candidate CandidateArtifactMissing
                         else Eligible candidate
                     | None \<Rightarrow> Eligible candidate)))"

subsection \<open>Placement and artifacts\<close>

definition supported_executor_targets :: "PlacementTarget list" where
  "supported_executor_targets = [TargetLocal]"

definition placement_not_attempted :: "PlacementTarget \<Rightarrow> PlacementDecisionReason \<Rightarrow> PlacementDecisionRecord" where
  "placement_not_attempted requested reason =
     \<lparr>pdr_requested_target = requested, pdr_selected_target = None, pdr_status = PlacementNotAttempted,
      pdr_reason = reason, pdr_supported_executor_targets = supported_executor_targets\<rparr>"

definition resolve_placement :: "PlacementTarget \<Rightarrow> (PlacementDecisionRecord, RuntimeError) result" where
  "resolve_placement requested =
     (if requested = TargetLocal
      then Ok \<lparr>pdr_requested_target = requested, pdr_selected_target = Some TargetLocal, pdr_status = PlacementSelected,
               pdr_reason = RequestedTargetSelected, pdr_supported_executor_targets = supported_executor_targets\<rparr>
      else Err (runtime_error PlacementUnsupportedError
             ''requested placement target is not supported by the available executor set''
             (json_obj [(''requested_target'', target_json requested),
                        (''supported_executor_targets'', JArray (map target_json supported_executor_targets))])))"

text \<open>\<open>read\<close> is \<^verbatim>\<open>fs::read\<close>, with the message of the operating system when it fails.\<close>

definition load_artifact_bytes_for_verification ::
  "(string \<Rightarrow> (string, string) result) \<Rightarrow> ResolvedCapability \<Rightarrow> (string, RuntimeError) result" where
  "load_artifact_bytes_for_verification read selected =
     (case artifact_binary (rc_artifact selected) of
        None \<Rightarrow> Ok []
      | Some binary \<Rightarrow>
          (case read (binary_location binary) of
             Inr bytes \<Rightarrow> Ok bytes
           | Inl message \<Rightarrow>
               if binary_signature binary = None
               then Ok (case binary_digest (rc_artifact selected) of
                          Some digest \<Rightarrow> digest
                        | None \<Rightarrow> rec_artifact_ref (rc_record selected))
               else Err (runtime_error ArtifactMissingError
                      ''artifact bytes could not be loaded for signature verification''
                      (json_obj [(''artifact_ref'', JString (rec_artifact_ref (rc_record selected))),
                                 (''location'', JString (binary_location binary)),
                                 (''code'', JString ''artifact_load_failed''), (''message'', JString message)]))))"

definition artifact_verification_runtime_error :: "ArtifactVerificationFailure \<Rightarrow> RuntimeError" where
  "artifact_verification_runtime_error error = runtime_error ContractViolationError
     ''artifact signature verification failed before execution''
     (json_obj [(''code'', JString (failure_code error)),
                (''artifact_verification'', verification_json (failure_record error))])"

definition contains_drafts_segment :: "string \<Rightarrow> bool" where
  "contains_drafts_segment path \<longleftrightarrow>
     ''drafts'' \<in> set (split_on CHR ''/'' (map (\<lambda>c. if c = CHR 0x5C then CHR ''/'' else c) path))"

fun canonical_error_display :: "CanonicalJsonError \<Rightarrow> string" where
  "canonical_error_display InvalidJson = canonical_error_code InvalidJson @ '': input is not valid JSON''"
| "canonical_error_display UnsafeInteger = canonical_error_code UnsafeInteger
     @ '': input contains an integer beyond '' @ [CHR 0xC2, CHR 0xB1] @ ''(2^53 '' @ [CHR 0xE2, CHR 0x88, CHR 0x92] @ '' 1)''"
| "canonical_error_display DuplicateKey = canonical_error_code DuplicateKey
     @ '': input contains an object with a duplicate member name''"
| "canonical_error_display InvalidUnicode = canonical_error_code InvalidUnicode
     @ '': input contains a string that is not valid Unicode''"

definition canonical_input_check :: "json \<Rightarrow> (unit, RuntimeError) result" where
  "canonical_input_check input =
     (case to_canonical_json input of
        Inr _ \<Rightarrow> Ok ()
      | Inl error \<Rightarrow> Err (runtime_error RequestInvalid
          ''runtime request input cannot be fed to a guest as canonical JSON''
          (json_obj [(''reason_code'', JString (canonical_error_code error)),
                     (''detail'', JString (canonical_error_display error))])))"

definition hydration_runtime_error :: "HydrationError \<Rightarrow> RuntimeError" where
  "hydration_runtime_error error =
     (let code = (if he_code error = ''indexed_capability_missing'' then RtCapabilityNotFound
                  else if he_code error \<in> {''contract_digest_mismatch'', ''contract_parse_failed'', ''contract_not_utf8''}
                  then ContractViolationError
                  else ArtifactMissingError)
      in runtime_error code ''capability contract could not be hydrated''
           (json_obj [(''reason_code'', JString (he_code error))]))"

subsection \<open>OpenTelemetry\<close>

definition content_digest :: "(json \<Rightarrow> string) \<Rightarrow> json \<Rightarrow> string" where
  "content_digest json_text v = ''0.1.0:'' @ hex016 (fnv1a (json_text v))"

definition otel_phase_names :: "string list" where
  "otel_phase_names = [''traverse.request.intake'', ''traverse.registry.lookup'', ''traverse.contract.validation'',
     ''traverse.capability.execution'', ''traverse.trace.assembly'']"

definition fnv128_step :: "128 word \<Rightarrow> char \<Rightarrow> 128 word" where
  "fnv128_step hash byte = (hash XOR of_nat (of_char byte)) * 0x0000000001000000000000000000013b"

definition hex032 :: "128 word \<Rightarrow> string" where
  "hex032 w = map (\<lambda>i. hex_digit ((unat w div 16 ^ (31 - i)) mod 16)) [0..<32]"

definition deterministic_hex :: "string \<Rightarrow> string \<Rightarrow> nat \<Rightarrow> string" where
  "deterministic_hex seed v len = take len (hex032 (foldl fnv128_step 0x6c62272e07bb014262b821756295c58d (seed @ v)))"

definition otel_trace_id :: "AttemptContext \<Rightarrow> string" where
  "otel_trace_id attempt =
     (if deterministic_ids (at_observability attempt)
      then deterministic_hex (case deterministic_seed (at_observability attempt) of None \<Rightarrow> ''traverse-test'' | Some s \<Rightarrow> s)
             (at_trace_id attempt) 32
      else deterministic_hex ''traverse-runtime'' (at_trace_id attempt) 32)"

definition otel_span_id :: "AttemptContext \<Rightarrow> string \<Rightarrow> nat \<Rightarrow> string" where
  "otel_span_id attempt name index =
     deterministic_hex (case deterministic_seed (at_observability attempt) of None \<Rightarrow> ''traverse-runtime'' | Some s \<Rightarrow> s)
       (at_execution_id attempt @ '':'' @ name @ '':'' @ show_nat index) 16"

definition otel_attr :: "string \<Rightarrow> json \<Rightarrow> OTelAttribute" where
  "otel_attr key v = \<lparr>oa_key = key, oa_value = v\<rparr>"

definition base_otel_attributes :: "AttemptContext \<Rightarrow> SelectionRecord \<Rightarrow> ExecutionRecord \<Rightarrow> OTelAttribute list" where
  "base_otel_attributes attempt selection execution =
     [otel_attr ''traverse.request.id'' (JString (rq_request_id (at_request attempt))),
      otel_attr ''traverse.execution.id'' (JString (at_execution_id attempt)),
      otel_attr ''traverse.lookup.scope'' (scope_json (rl_scope (rq_lookup (at_request attempt)))),
      otel_attr ''traverse.runtime.placement.target'' (target_json (ex_placement_target execution))]
     @ (case rx_correlation_id (rq_context (at_request attempt)) of None \<Rightarrow> [] | Some v \<Rightarrow> [otel_attr ''traverse.correlation.id'' (JString v)])
     @ (case selected_capability_id selection of None \<Rightarrow> [] | Some v \<Rightarrow> [otel_attr ''traverse.capability.id'' (JString v)])
     @ (case selected_capability_version selection of None \<Rightarrow> [] | Some v \<Rightarrow> [otel_attr ''traverse.capability.version'' (JString v)])"

definition error_events :: "TraceResultRecord \<Rightarrow> OTelSpanEvent list" where
  "error_events result =
     (case trr_error result of
        None \<Rightarrow> []
      | Some error \<Rightarrow>
          [\<lparr>ose_name = ''exception'', ose_timestamp = ''1970-01-01T00:00:00Z'',
            ose_attributes = [otel_attr ''traverse.error.classification'' (error_code_json (re_code error)),
                              otel_attr ''traverse.error.message'' (JString (re_message error))]\<rparr>])"

fun span_status :: "RuntimeResultStatus \<Rightarrow> OTelSpanStatus" where
  "span_status ResultCompleted = SpanOk"
| "span_status ResultError = SpanError"

definition phase_status :: "string \<Rightarrow> RuntimeResultStatus \<Rightarrow> OTelSpanStatus" where
  "phase_status phase status =
     (if status = ResultError \<and> phase = ''traverse.trace.assembly'' then SpanError else SpanOk)"

definition first_transition_time :: "RuntimeTransitionRecord list \<Rightarrow> string" where
  "first_transition_time ts = (case ts of [] \<Rightarrow> ''1970-01-01T00:00:00Z'' | t # _ \<Rightarrow> occurred_at t)"

definition last_transition_time :: "RuntimeTransitionRecord list \<Rightarrow> string" where
  "last_transition_time ts = (if ts = [] then ''1970-01-01T00:00:00Z'' else occurred_at (last ts))"

definition phase_started_at :: "RuntimeTransitionRecord list \<Rightarrow> nat \<Rightarrow> string" where
  "phase_started_at ts index = (if index < length ts then occurred_at (ts ! index) else first_transition_time ts)"

definition phase_ended_at :: "RuntimeTransitionRecord list \<Rightarrow> nat \<Rightarrow> string" where
  "phase_ended_at ts index = (if index + 1 < length ts then occurred_at (ts ! (index + 1)) else last_transition_time ts)"

definition otel_trace_record ::
  "AttemptContext \<Rightarrow> RuntimeTransitionRecord list \<Rightarrow> SelectionRecord \<Rightarrow> ExecutionRecord \<Rightarrow> TraceResultRecord \<Rightarrow> OTelTraceRecord" where
  "otel_trace_record attempt transitions selection execution result =
     (let trace_id = otel_trace_id attempt;
          root_span_id = otel_span_id attempt ''runtime.request'' 0;
          root = \<lparr>os_trace_id = trace_id, os_span_id = root_span_id, os_parent_span_id = None,
                  os_name = ''traverse.runtime.request'', os_kind = OTelInternal, os_status = span_status (trr_status result),
                  os_started_at = first_transition_time transitions, os_ended_at = last_transition_time transitions,
                  os_attributes = base_otel_attributes attempt selection execution, os_events = error_events result\<rparr>;
          phases = map (\<lambda>(index, phase).
                 \<lparr>os_trace_id = trace_id, os_span_id = otel_span_id attempt phase (index + 1),
                  os_parent_span_id = Some root_span_id, os_name = phase, os_kind = OTelInternal,
                  os_status = phase_status phase (trr_status result),
                  os_started_at = phase_started_at transitions index, os_ended_at = phase_ended_at transitions index,
                  os_attributes = base_otel_attributes attempt selection execution,
                  os_events = (if trr_status result = ResultError \<and> phase = ''traverse.trace.assembly''
                               then error_events result else [])\<rparr>) (enumerate 0 otel_phase_names);
          exporter = ob_exporter (at_observability attempt)
      in \<lparr>ot_trace_id = trace_id, parent_traceparent = rx_traceparent (rq_context (at_request attempt)),
          ot_tracestate = rx_tracestate (rq_context (at_request attempt)),
          ot_exporter = \<lparr>oxr_enabled = oe_endpoint exporter \<noteq> None, oxr_endpoint = oe_endpoint exporter,
                         oxr_protocol = oe_protocol exporter\<rparr>,
          ot_spans = root # phases\<rparr>)"

subsection \<open>Outcomes\<close>

definition terminal_failure :: "FailureContext \<Rightarrow> RuntimeExecutionOutcome" where
  "terminal_failure context =
     (let attempt = fc_attempt context;
          result_record = \<lparr>trr_status = ResultError, trr_output = None, trr_error = Some (fc_error context),
                           trr_warnings = at_warnings attempt\<rparr>;
          otel = otel_trace_record attempt (fc_state_transitions context) (fc_selection context) (fc_execution context) result_record;
          trace = \<lparr>rt_kind = RUNTIME_TRACE_KIND, rt_schema_version = RUNTIME_SCHEMA_VERSION,
            rt_trace_id = at_trace_id attempt, rt_execution_id = at_execution_id attempt,
            rt_request_id = rq_request_id (at_request attempt), rt_governing_spec = GOVERNING_SPEC,
            rt_request = at_request attempt,
            decision_evidence = \<lparr>tde_candidate_collection = fc_candidate_collection context,
              tde_selection = fc_selection context, tde_model_resolution = []\<rparr>,
            state_progression = \<lparr>tsp_state_events = fc_state_events context,
              tsp_transitions = fc_state_transitions context, tsp_validation = fc_state_machine_validation context\<rparr>,
            terminal_outcome = \<lparr>tto_runtime_status = ResultError, tto_execution_status = ex_status (fc_execution context),
              tto_failure_reason = ex_failure_reason (fc_execution context), tto_error = Some (fc_error context)\<rparr>,
            rt_emitted_events = fc_emitted_events context, workflow_evidence = fc_workflow_evidence context,
            rt_model_resolution = [], state_transitions = fc_state_transitions context,
            state_machine_validation = fc_state_machine_validation context,
            rt_candidate_collection = fc_candidate_collection context, rt_selection = fc_selection context,
            rt_execution = fc_execution context, rt_result = result_record, otel_trace = otel\<rparr>;
          result = \<lparr>rr_kind = RUNTIME_RESULT_KIND, rr_schema_version = RUNTIME_SCHEMA_VERSION,
            rr_execution_id = at_execution_id attempt, rr_request_id = rq_request_id (at_request attempt),
            rr_status = ResultError, rr_trace_ref = at_trace_id attempt, rr_output = None,
            rr_error = Some (fc_error context), rr_warnings = at_warnings attempt\<rparr>
      in \<lparr>ro_result = result, ro_trace = trace, ro_state_events = fc_state_events context\<rparr>)"

text \<open>\<^verbatim>\<open>json!({"terminal_state": RuntimeState::Error})\<close> and the last push of every failure.\<close>

definition close_failed :: "StateEmitter \<Rightarrow> StateEmitter" where
  "close_failed emitter = push emitter Ready ExecutionClosed
     (json_obj [(''terminal_state'', JString (runtime_state_name ErrorState))])"

definition not_started ::
  "PlacementDecisionRecord \<Rightarrow> PlacementTarget \<Rightarrow> string option \<Rightarrow> ExecutionFailureReason \<Rightarrow>
     ArtifactVerificationRecord option \<Rightarrow> RuntimeIdentity option \<Rightarrow> ExecutionRecord" where
  "not_started placement target artifact_ref reason verification identity =
     \<lparr>ex_placement = placement, ex_placement_target = target, ex_status = NotStarted, ex_artifact_ref = artifact_ref,
      ex_started_at = None, ex_completed_at = None, ex_output_digest = None, ex_failure_reason = Some reason,
      ex_artifact_verification = verification, ex_identity = identity\<rparr>"

definition invalid_request_outcome :: "AttemptContext \<Rightarrow> StateEmitter \<Rightarrow> RuntimeError \<Rightarrow> RuntimeExecutionOutcome" where
  "invalid_request_outcome attempt emitter error =
     (let placement = placement_not_attempted (rx_requested_target (rq_context (at_request attempt))) SelectionNotReached;
          emitter = push emitter EvaluatingConstraints CandidatesCollected
            (json_obj [(''candidate_count'', JNumber (PosInt 0))]);
          emitter = push emitter ErrorState ConstraintValidationFailed
            (json_obj [(''code'', error_code_json (re_code error)), (''message'', JString (re_message error))]);
          finished = finish (close_failed emitter)
      in terminal_failure
           \<lparr>fc_attempt = attempt, fc_state_events = fin_events finished, fc_state_transitions = fin_transitions finished,
            fc_state_machine_validation = fin_validation finished,
            fc_candidate_collection = \<lparr>lookup_scope = RtPreferPrivate, col_candidates = [], col_rejected_candidates = []\<rparr>,
            fc_selection = \<lparr>sel_status = SelInvalidRequest, selected_capability_id = None,
              selected_capability_version = None, sel_failure_reason = Some SelFailInvalidRequest, remaining_candidates = []\<rparr>,
            fc_execution = not_started placement (pdr_requested_target placement) None ContractInputInvalid None
              (rx_identity (rq_context (at_request attempt))),
            fc_error = error, fc_emitted_events = [], fc_workflow_evidence = None\<rparr>)"

definition hydration_failure_outcome ::
  "AttemptContext \<Rightarrow> StateEmitter \<Rightarrow> CandidateCollectionRecord \<Rightarrow> HydrationError \<Rightarrow> RuntimeExecutionOutcome" where
  "hydration_failure_outcome attempt emitter collection error =
     (let placement = placement_not_attempted (rx_requested_target (rq_context (at_request attempt))) SelectionNotReached;
          rt_error = hydration_runtime_error error;
          emitter = push emitter ErrorState NoMatch
            (json_obj [(''code'', error_code_json (re_code rt_error)), (''reason_code'', JString (he_code error))]);
          finished = finish (close_failed emitter)
      in terminal_failure
           \<lparr>fc_attempt = attempt, fc_state_events = fin_events finished, fc_state_transitions = fin_transitions finished,
            fc_state_machine_validation = fin_validation finished, fc_candidate_collection = collection,
            fc_selection = \<lparr>sel_status = SelNoMatch, selected_capability_id = None,
              selected_capability_version = None, sel_failure_reason = Some SelFailNotRunnable, remaining_candidates = []\<rparr>,
            fc_execution = not_started placement (pdr_requested_target placement) None ArtifactNotRunnable None
              (rx_identity (rq_context (at_request attempt))),
            fc_error = rt_error, fc_emitted_events = [], fc_workflow_evidence = None\<rparr>)"

definition no_eligible_outcome ::
  "AttemptContext \<Rightarrow> StateEmitter \<Rightarrow> CandidateCollectionRecord \<Rightarrow> RuntimeExecutionOutcome" where
  "no_eligible_outcome attempt emitter collection =
     (let placement = placement_not_attempted (rx_requested_target (rq_context (at_request attempt))) SelectionNotReached;
          rejected = col_rejected_candidates collection;
          error = (if rejected = []
                   then runtime_error RtCapabilityNotFound ''no eligible capability matched the runtime request''
                          (json_obj [(''request_id'', JString (rq_request_id (at_request attempt)))])
                   else runtime_error CapabilityNotRunnable
                          ''matching capabilities were found but none were runnable locally''
                          (json_obj [(''rejected_candidates'', JArray (map rejected_json rejected))]));
          reason = (if rejected = [] then NoMatch else ConstraintValidationFailed);
          emitter = push emitter ErrorState reason (json_obj [(''code'', error_code_json (re_code error))]);
          failure_reason = (if re_code error = RtCapabilityNotFound then SelFailNoMatch else SelFailNotRunnable);
          finished = finish (close_failed emitter)
      in terminal_failure
           \<lparr>fc_attempt = attempt, fc_state_events = fin_events finished, fc_state_transitions = fin_transitions finished,
            fc_state_machine_validation = fin_validation finished, fc_candidate_collection = collection,
            fc_selection = \<lparr>sel_status = SelNoMatch, selected_capability_id = None,
              selected_capability_version = None, sel_failure_reason = Some failure_reason, remaining_candidates = []\<rparr>,
            fc_execution = not_started placement (pdr_requested_target placement) None ArtifactNotRunnable None
              (rx_identity (rq_context (at_request attempt))),
            fc_error = error, fc_emitted_events = [], fc_workflow_evidence = None\<rparr>)"

definition ambiguous_outcome ::
  "AttemptContext \<Rightarrow> StateEmitter \<Rightarrow> CandidateResolution \<Rightarrow> RuntimeExecutionOutcome" where
  "ambiguous_outcome attempt emitter resolution =
     (let placement = placement_not_attempted (rx_requested_target (rq_context (at_request attempt))) SelectionNotReached;
          remaining = map (\<lambda>c. runtime_candidate c (cr_candidate_reason resolution)) (cr_eligible resolution);
          error = runtime_error CapabilityAmbiguous ''runtime request matched more than one eligible capability''
                    (json_obj [(''remaining_candidates'', JArray (map candidate_json remaining))]);
          emitter = push emitter ErrorState SelectionFailed (json_obj [(''code'', error_code_json (re_code error))]);
          finished = finish (close_failed emitter)
      in terminal_failure
           \<lparr>fc_attempt = attempt, fc_state_events = fin_events finished, fc_state_transitions = fin_transitions finished,
            fc_state_machine_validation = fin_validation finished, fc_candidate_collection = cr_collection resolution,
            fc_selection = \<lparr>sel_status = SelAmbiguous, selected_capability_id = None,
              selected_capability_version = None, sel_failure_reason = Some SelFailAmbiguous, remaining_candidates = remaining\<rparr>,
            fc_execution = not_started placement (pdr_requested_target placement) None ArtifactNotRunnable None
              (rx_identity (rq_context (at_request attempt))),
            fc_error = error, fc_emitted_events = [], fc_workflow_evidence = None\<rparr>)"

definition effective_target :: "PlacementDecisionRecord \<Rightarrow> PlacementTarget" where
  "effective_target placement =
     (case pdr_selected_target placement of None \<Rightarrow> pdr_requested_target placement | Some t \<Rightarrow> t)"

definition pre_execution_failure_outcome :: "ExecutionContext \<Rightarrow> PreExecutionFailure \<Rightarrow> RuntimeExecutionOutcome" where
  "pre_execution_failure_outcome context failure =
     (let attempt = ec_attempt context; emitter = ec_emitter context; error = pf_error failure;
          reason = (if current_state emitter = Selecting then SelectionFailed else ConstraintValidationFailed);
          emitter = push emitter ErrorState reason
            (json_obj [(''code'', error_code_json (re_code error)), (''details'', re_details error)]);
          finished = finish (close_failed emitter)
      in terminal_failure
           \<lparr>fc_attempt = attempt, fc_state_events = fin_events finished, fc_state_transitions = fin_transitions finished,
            fc_state_machine_validation = fin_validation finished,
            fc_candidate_collection = ec_candidate_collection context, fc_selection = ec_selection context,
            fc_execution = not_started (pf_placement failure) (effective_target (pf_placement failure))
              (pf_artifact_ref failure) (pf_failure_reason failure) (pf_artifact_verification failure)
              (rx_identity (rq_context (at_request attempt))),
            fc_error = error, fc_emitted_events = [], fc_workflow_evidence = None\<rparr>)"

definition execution_failure_outcome ::
  "ExecutionContext \<Rightarrow> ExecutionFailureState \<Rightarrow> RuntimeError \<Rightarrow> EventReference list \<Rightarrow>
     WorkflowTraversalEvidence option \<Rightarrow> RuntimeExecutionOutcome" where
  "execution_failure_outcome context failure error emitted evidence =
     (let attempt = ec_attempt context;
          emitter = push (ec_emitter context) ErrorState ExecutionFailed
            (json_obj [(''code'', error_code_json (re_code error)), (''details'', re_details error)]);
          (completed_at, emitter) = next_timestamp emitter;
          finished = finish (close_failed emitter)
      in terminal_failure
           \<lparr>fc_attempt = attempt, fc_state_events = fin_events finished, fc_state_transitions = fin_transitions finished,
            fc_state_machine_validation = fin_validation finished,
            fc_candidate_collection = ec_candidate_collection context, fc_selection = ec_selection context,
            fc_execution =
              \<lparr>ex_placement = ef_placement failure, ex_placement_target = effective_target (ef_placement failure),
               ex_status = ExecFailed, ex_artifact_ref = Some (ef_artifact_ref failure),
               ex_started_at = Some (ef_started_at failure), ex_completed_at = Some completed_at,
               ex_output_digest = None, ex_failure_reason = Some (ef_failure_reason failure),
               ex_artifact_verification = at_artifact_verification attempt,
               ex_identity = rx_identity (rq_context (at_request attempt))\<rparr>,
            fc_error = error, fc_emitted_events = emitted, fc_workflow_evidence = evidence\<rparr>)"

text \<open>The transitions a successful execution closes with.\<close>

definition close_succeeded :: "ResolvedCapability \<Rightarrow> StateEmitter \<Rightarrow> StateEmitter" where
  "close_succeeded selected emitter =
     (let ids = [(''capability_id'', JString (rec_id (rc_record selected))),
                 (''capability_version'', JString (rec_version (rc_record selected)))];
          emits = cc_emits (rc_contract selected);
          emitter = (if rec_implementation_kind (rc_record selected) = WorkflowKind \<or> emits \<noteq> []
                     then push (push emitter EmittingEvents ExecutionSucceededWithEvents
                                 (json_obj (ids @ [(''declared_event_count'', JNumber (PosInt (length emits)))])))
                            Completed EventsEmitted (json_obj ids)
                     else push emitter Completed ExecutionSucceeded (json_obj ids))
      in push emitter Ready ExecutionClosed (json_obj [(''terminal_state'', JString (runtime_state_name Completed))]))"

definition successful_execution_outcome ::
  "(json \<Rightarrow> string) \<Rightarrow> ExecutionContext \<Rightarrow> ResolvedCapability \<Rightarrow> StartedExecution \<Rightarrow> json \<Rightarrow> EventReference list \<Rightarrow>
     WorkflowTraversalEvidence option \<Rightarrow> RuntimeExecutionOutcome" where
  "successful_execution_outcome json_text context selected started output emitted evidence =
     (let attempt = ec_attempt context;
          (completed_at, emitter) = next_timestamp (ec_emitter context);
          finished = finish (close_succeeded selected emitter);
          selection = ec_selection context; collection = ec_candidate_collection context;
          execution =
              \<lparr>ex_placement = se_placement started, ex_placement_target = effective_target (se_placement started),
               ex_status = Succeeded, ex_artifact_ref = Some (rec_artifact_ref (rc_record selected)),
               ex_started_at = Some (se_started_at started), ex_completed_at = Some completed_at,
               ex_output_digest = Some (content_digest json_text output), ex_failure_reason = None,
               ex_artifact_verification = at_artifact_verification attempt,
               ex_identity = rx_identity (rq_context (at_request attempt))\<rparr>;
          result_record = \<lparr>trr_status = ResultCompleted, trr_output = Some output, trr_error = None,
                           trr_warnings = at_warnings attempt\<rparr>;
          otel = otel_trace_record attempt (fin_transitions finished) selection execution result_record;
          trace = \<lparr>rt_kind = RUNTIME_TRACE_KIND, rt_schema_version = RUNTIME_SCHEMA_VERSION,
            rt_trace_id = at_trace_id attempt, rt_execution_id = at_execution_id attempt,
            rt_request_id = rq_request_id (at_request attempt), rt_governing_spec = GOVERNING_SPEC,
            rt_request = at_request attempt,
            decision_evidence = \<lparr>tde_candidate_collection = collection, tde_selection = selection, tde_model_resolution = []\<rparr>,
            state_progression = \<lparr>tsp_state_events = fin_events finished,
              tsp_transitions = fin_transitions finished, tsp_validation = fin_validation finished\<rparr>,
            terminal_outcome = \<lparr>tto_runtime_status = ResultCompleted, tto_execution_status = ex_status execution,
              tto_failure_reason = None, tto_error = None\<rparr>,
            rt_emitted_events = emitted, workflow_evidence = evidence,
            rt_model_resolution = [], state_transitions = fin_transitions finished,
            state_machine_validation = fin_validation finished,
            rt_candidate_collection = collection, rt_selection = selection,
            rt_execution = execution, rt_result = result_record, otel_trace = otel\<rparr>;
          result = \<lparr>rr_kind = RUNTIME_RESULT_KIND, rr_schema_version = RUNTIME_SCHEMA_VERSION,
            rr_execution_id = at_execution_id attempt, rr_request_id = rq_request_id (at_request attempt),
            rr_status = ResultCompleted, rr_trace_ref = at_trace_id attempt, rr_output = Some output,
            rr_error = None, rr_warnings = at_warnings attempt\<rparr>
      in \<lparr>ro_result = result, ro_trace = trace, ro_state_events = fin_events finished\<rparr>)"

definition start_selected_execution ::
  "StateEmitter \<Rightarrow> ResolvedCapability \<Rightarrow> PlacementDecisionRecord \<Rightarrow> RuntimeIdentity option \<Rightarrow> StartedExecution \<times> StateEmitter" where
  "start_selected_execution emitter selected placement identity =
     (let (started_at, emitter) = next_timestamp emitter;
          emitter = push emitter Executing CandidateSelected
            (json_obj [(''capability_id'', JString (rec_id (rc_record selected))),
                       (''capability_version'', JString (rec_version (rc_record selected))),
                       (''artifact_ref'', JString (rec_artifact_ref (rc_record selected))),
                       (''requested_target'', target_json (pdr_requested_target placement)),
                       (''selected_target'', opt_json target_json (pdr_selected_target placement)),
                       (''placement_status'', placement_status_json (pdr_status placement)),
                       (''placement_reason'', placement_reason_json (pdr_reason placement)),
                       (''identity'', opt_json identity_json identity)])
      in (\<lparr>se_started_at = started_at, se_placement = placement\<rparr>, emitter))"

end
