(* ===== verification/Runtime_Host.thy ===== *)
theory Runtime_Host
  imports Runtime_Outcome
begin

text \<open>
  What surrounds an execution: the interface of a local executor, the process-local trace store
  (\<^verbatim>\<open>crates/traverse-runtime/src/trace\<close>), and the two records every operation of the runtime takes.

  A \<open>RuntimeHost\<close> holds what does not change during a call: the configuration of the runtime and, as
  functions, the code outside the repository (registry, semantic versions, hashes, deserializers) and
  the traits a host implements (executor, event broker, event sink). A \<open>RuntimeWorld\<close> holds what
  does change: \<open>rw_host\<close> is everything outside the runtime, the file system included, so that an
  executor may change a file between two reads; the broker, the trace store and the contract cache
  are the shared state of the runtime; \<open>rw_tick\<close> numbers the readings of clocks and generators.
\<close>

section \<open>Definitions\<close>

subsection \<open>Executors\<close>

record LocalExecutionOutput =
  lo_value :: json
  lo_emitted_events :: "TraverseEvent list"

datatype LocalExecutionFailureCode =
  LocalExecutionFailed | LocalTimeout | LocalInvalidInput | LocalResourceExhausted | LocalConstraintViolated

record LocalExecutionFailure =
  lf_code :: LocalExecutionFailureCode
  lf_message :: string

text \<open>\<^verbatim>\<open>format!("{:?}", failure.code)\<close>\<close>

fun failure_code_name :: "LocalExecutionFailureCode \<Rightarrow> string" where
  "failure_code_name LocalExecutionFailed = ''ExecutionFailed''"
| "failure_code_name LocalTimeout = ''Timeout''"
| "failure_code_name LocalInvalidInput = ''InvalidInput''"
| "failure_code_name LocalResourceExhausted = ''ResourceExhausted''"
| "failure_code_name LocalConstraintViolated = ''ConstraintViolated''"

type_synonym 'h local_executor =
  "'h \<Rightarrow> ResolvedCapability \<Rightarrow> json \<Rightarrow> (LocalExecutionOutput, LocalExecutionFailure) result \<times> 'h"

definition event_declared :: "CapabilityContract \<Rightarrow> TraverseEvent \<Rightarrow> bool" where
  "event_declared cc event \<longleftrightarrow>
     (\<exists>decl \<in> set (cc_emits cc). er_event_id decl = te_event_type event \<and> er_version decl = te_version event)"

definition validate_natively_emitted_events :: "CapabilityContract \<Rightarrow> TraverseEvent list \<Rightarrow> (unit, string) result" where
  "validate_natively_emitted_events cc emitted =
     (if emitted = [] then Ok ()
      else if cc_service_type cc \<noteq> Subscribable
      then Err (''capability '' @ [CHR 0x27] @ cc_id cc @ [CHR 0x27]
                @ '' emitted events but its service_type is not Subscribable'')
      else (case find (\<lambda>event. \<not> event_declared cc event) emitted of
              Some event \<Rightarrow> Err (''capability '' @ [CHR 0x27] @ cc_id cc @ [CHR 0x27]
                @ '' emitted an undeclared event '' @ te_event_type event @ ''@'' @ te_version event)
            | None \<Rightarrow> Ok ()))"

subsection \<open>The trace store\<close>

datatype TraceOutcome = TraceSuccess | TraceFailure

record PublicTraceEntry =
  pt_id :: string
  pt_source :: string
  pt_event_type :: string
  pt_datacontenttype :: string
  pt_time :: string
  pt_capability_id :: string
  pt_placement_target :: string
  pt_outcome :: TraceOutcome
  pt_duration_ms :: nat
  pt_violations :: "json list"
  pt_model_resolution :: "json list"

record PrivateTraceEntry =
  pv_trace_id :: string
  pv_inputs_hash :: string
  pv_outputs_hash :: string
  pv_resource_usage_ms :: nat

type_synonym TraceStore = "string \<rightharpoonup> PublicTraceEntry \<times> PrivateTraceEntry option"

definition new_public_entry :: "string \<Rightarrow> string \<Rightarrow> string \<Rightarrow> TraceOutcome \<Rightarrow> nat \<Rightarrow> string \<Rightarrow> PublicTraceEntry" where
  "new_public_entry i capability placement outcome duration time =
     \<lparr>pt_id = i, pt_source = ''traverse-runtime/'' @ capability,
      pt_event_type = ''dev.traverse.execution.completed'', pt_datacontenttype = ''application/json'', pt_time = time,
      pt_capability_id = capability, pt_placement_target = placement, pt_outcome = outcome, pt_duration_ms = duration,
      pt_violations = [], pt_model_resolution = []\<rparr>"

definition new_private_entry :: "SecurityPlatform \<Rightarrow> string \<Rightarrow> string \<Rightarrow> string \<Rightarrow> nat \<Rightarrow> PrivateTraceEntry" where
  "new_private_entry sp i inputs outputs usage =
     \<lparr>pv_trace_id = i, pv_inputs_hash = sha256_hex sp inputs, pv_outputs_hash = sha256_hex sp outputs,
      pv_resource_usage_ms = usage\<rparr>"

definition trace_insert :: "PublicTraceEntry \<Rightarrow> PrivateTraceEntry option \<Rightarrow> TraceStore \<Rightarrow> TraceStore" where
  "trace_insert public private store = store(pt_id public \<mapsto> (public, private))"

subsection \<open>Host and world\<close>

text \<open>The registry errors of a dependency that cannot be resolved.\<close>

datatype ResolutionError =
  MissingDependency string string
| CircularDependency "string list"
| MaxTransitiveDepthExceeded nat "string list"

record ('h, 'b) RuntimeHost =
  rh_execute :: "'h local_executor"
  rh_broker :: "'b EventBroker"
  rh_emit :: "'h \<Rightarrow> TraverseEvent \<Rightarrow> (unit, EventError) result \<times> 'h"
  rh_read :: "'h \<Rightarrow> string \<Rightarrow> (string, string) result"
  rh_security :: SecurityPlatform
  rh_mode :: RuntimeSecurityMode
  rh_observability :: RuntimeObservabilityConfig
  rh_utf8 :: "string \<Rightarrow> bool"
  rh_parse_contract :: "string \<Rightarrow> CapabilityContract option"
  rh_json_text :: "json \<Rightarrow> string"
  rh_now :: "nat \<Rightarrow> string"
  rh_elapsed_ms :: "nat \<Rightarrow> nat"
  rh_uuid :: "nat \<Rightarrow> string"
  rh_index :: CapabilityMetadataIndex
  rh_registry :: registry
  rh_discover :: "LookupScope \<Rightarrow> (RegistryScope \<times> string \<times> string) list"
  rh_resolve_range :: "string \<Rightarrow> string \<Rightarrow> LookupScope \<Rightarrow> (RegistryScope \<times> string \<times> string) option"
  rh_resolve_dependencies :: "string \<Rightarrow> DependencyReference list \<Rightarrow> LookupScope \<Rightarrow> (unit, ResolutionError) result"
  rh_semver_ok :: "string \<Rightarrow> bool"
  rh_version_req :: "string \<Rightarrow> (string \<Rightarrow> bool) option"
  rh_version_le :: "string \<Rightarrow> string \<Rightarrow> bool"
  rh_workflow_registry :: workflow_registry
  rh_indexed_workflows :: "string \<times> string \<rightharpoonup> WorkflowDefinition"

record ('h, 'b) RuntimeWorld =
  rw_host :: 'h
  rw_broker :: 'b
  rw_traces :: TraceStore
  rw_cache :: ContractHydrationCache
  rw_tick :: nat

definition hydration_platform :: "('h, 'b) RuntimeHost \<Rightarrow> ('h, 'b) RuntimeWorld \<Rightarrow> HydrationPlatform" where
  "hydration_platform host w =
     \<lparr>hp_read = (\<lambda>path. case rh_read host (rw_host w) path of Inl _ \<Rightarrow> None | Inr bytes \<Rightarrow> Some bytes),
      hp_sha256 = sp_sha256 (rh_security host), hp_utf8 = rh_utf8 host,
      hp_parse_contract = rh_parse_contract host, hp_parse_registration = (\<lambda>_. None)\<rparr>"

definition runtime_hydrate ::
  "('h, 'b) RuntimeHost \<Rightarrow> string \<Rightarrow> string \<Rightarrow> ('h, 'b) RuntimeWorld \<Rightarrow>
     (ResolvedCapability, HydrationError) result \<times> ('h, 'b) RuntimeWorld" where
  "runtime_hydrate host cap_id cap_version w =
     (let (r, cache) = hydrate_resolved_capability (hydration_platform host w) (rh_index host) cap_id cap_version (rw_cache w)
      in (r, w\<lparr>rw_cache := cache\<rparr>))"

definition lookup_indexed_workflow ::
  "(string \<times> string \<rightharpoonup> WorkflowDefinition) \<Rightarrow> LookupScope \<Rightarrow> string \<Rightarrow> string \<Rightarrow> WorkflowDefinition option" where
  "lookup_indexed_workflow workflows scope wf_id wf_version =
     (if scope = PublicOnly then None else workflows (wf_id, wf_version))"

text \<open>Best-effort publication of the events of a \<^verbatim>\<open>Subscribable\<close> capability: errors are dropped.\<close>

definition publish_all :: "'b EventBroker \<Rightarrow> TraverseEvent list \<Rightarrow> 'b \<Rightarrow> 'b" where
  "publish_all eb events b = fold (\<lambda>event b. snd (eb_publish eb b event)) events b"

section \<open>Lemmas\<close>

lemma validate_natively_Ok_iff:
  "validate_natively_emitted_events cc emitted = Ok () \<longleftrightarrow>
     emitted = [] \<or> cc_service_type cc = Subscribable \<and> (\<forall>event \<in> set emitted. event_declared cc event)"
  by (auto simp: validate_natively_emitted_events_def find_None_iff find_Some_iff split: option.splits)

end
