(* ===== verification/Placement.thy ===== *)
theory Placement
  imports Complex_Main Contracts
begin

text \<open>
  The placement constraint evaluator, \<^verbatim>\<open>crates/traverse-contracts/src/placement.rs\<close>: caller
  hint, contract constraints, load heuristics.

  A load is an \<^verbatim>\<open>f32\<close>: a rational, an infinity or NaN, with the IEEE comparisons. The evaluator
  only compares loads, so no arithmetic on them is modelled; the constant \<^verbatim>\<open>0.9_f32\<close> is the
  rational it denotes.
\<close>

section \<open>Definitions\<close>

datatype f32 = F32_NaN | F32_NegInf | F32_Fin rat | F32_PosInf

fun f32_less :: "f32 \<Rightarrow> f32 \<Rightarrow> bool" where
  "f32_less F32_NaN _ = False"
| "f32_less _ F32_NaN = False"
| "f32_less F32_NegInf y = (y \<noteq> F32_NegInf)"
| "f32_less (F32_Fin x) F32_NegInf = False"
| "f32_less (F32_Fin x) (F32_Fin y) = (x < y)"
| "f32_less (F32_Fin x) F32_PosInf = True"
| "f32_less F32_PosInf y = False"

definition f32_le :: "f32 \<Rightarrow> f32 \<Rightarrow> bool" where
  "f32_le x y \<longleftrightarrow> f32_less x y \<or> (x = y \<and> x \<noteq> F32_NaN)"

datatype cmp = CmpLess | CmpEqual | CmpGreater

definition partial_cmp :: "f32 \<Rightarrow> f32 \<Rightarrow> cmp option" where
  "partial_cmp x y =
     (if x = F32_NaN \<or> y = F32_NaN then None
      else if f32_less x y then Some CmpLess
      else if f32_less y x then Some CmpGreater
      else Some CmpEqual)"

definition cmp_string :: "string \<Rightarrow> string \<Rightarrow> cmp" where
  "cmp_string a b = (if a < b then CmpLess else if a = b then CmpEqual else CmpGreater)"

type_synonym RuntimeSnapshot = "ExecutionTarget \<rightharpoonup> f32"

record PlacementRequest =
  pr_capability_id :: string
  target_hint :: "ExecutionTarget option"
  runtime_snapshot :: RuntimeSnapshot

datatype PlacementReason = CallerHintAccepted | ContractConstrained | HeuristicSelected

datatype PlacementConfidence = High | Medium | Low

record PlacementDecision =
  pd_target :: ExecutionTarget
  pd_reason :: PlacementReason
  pd_confidence :: PlacementConfidence

datatype PlacementError = NoEligibleTarget

text \<open>\<^verbatim>\<open>format!("{target:?}")\<close>\<close>

fun target_name :: "ExecutionTarget \<Rightarrow> string" where
  "target_name Local = ''Local''"
| "target_name Browser = ''Browser''"
| "target_name Edge = ''Edge''"
| "target_name Cloud = ''Cloud''"
| "target_name Worker = ''Worker''"
| "target_name Device = ''Device''"

definition load_for :: "RuntimeSnapshot \<Rightarrow> ExecutionTarget \<Rightarrow> f32" where
  "load_for snapshot t = (case snapshot t of None \<Rightarrow> F32_Fin 0 | Some l \<Rightarrow> l)"

definition confidence_for :: "f32 \<Rightarrow> PlacementConfidence" where
  "confidence_for load =
     (if f32_less load (F32_Fin (1 / 2)) then High
      else if f32_less load (F32_Fin (3 / 4)) then Medium
      else Low)"

definition overload_limit :: f32 where
  "overload_limit = F32_Fin (15099494 / 16777216)"

definition target_cmp :: "RuntimeSnapshot \<Rightarrow> ExecutionTarget \<Rightarrow> ExecutionTarget \<Rightarrow> cmp" where
  "target_cmp snapshot a b =
     (case (case partial_cmp (load_for snapshot a) (load_for snapshot b) of Some c \<Rightarrow> c | None \<Rightarrow> CmpEqual) of
        CmpEqual \<Rightarrow> cmp_string (target_name a) (target_name b)
      | c \<Rightarrow> c)"

text \<open>\<^verbatim>\<open>Iterator::min_by\<close>: the first of the minimal elements.\<close>

fun min_by :: "('a \<Rightarrow> 'a \<Rightarrow> cmp) \<Rightarrow> 'a list \<Rightarrow> 'a option" where
  "min_by f [] = None"
| "min_by f (x # xs) = Some (foldl (\<lambda>m y. if f m y = CmpGreater then y else m) x xs)"

definition evaluate_targets ::
  "PlacementRequest \<Rightarrow> ExecutionTarget list \<Rightarrow> (PlacementDecision, PlacementError) result" where
  "evaluate_targets request permitted =
     (let heuristics =
        (let eligible = filter (\<lambda>t. f32_le (load_for (runtime_snapshot request) t) overload_limit) permitted
         in if eligible = [] then Err NoEligibleTarget
            else and_then (ok_or (min_by (target_cmp (runtime_snapshot request)) eligible) NoEligibleTarget) (\<lambda>selected.
              Ok \<lparr>pd_target = selected,
                  pd_reason = (if length permitted = 1 then ContractConstrained else HeuristicSelected),
                  pd_confidence = confidence_for (load_for (runtime_snapshot request) selected)\<rparr>))
      in case target_hint request of
           Some hint \<Rightarrow>
             if hint \<in> set permitted
             then Ok \<lparr>pd_target = hint, pd_reason = CallerHintAccepted,
                      pd_confidence = confidence_for (load_for (runtime_snapshot request) hint)\<rparr>
             else heuristics
         | None \<Rightarrow> heuristics)"

definition evaluate_placement ::
  "PlacementRequest \<Rightarrow> CapabilityContract \<Rightarrow> (PlacementDecision, PlacementError) result" where
  "evaluate_placement request contract = evaluate_targets request (cc_permitted_targets contract)"

section \<open>Lemmas\<close>

lemma target_name_inject [simp]: "target_name a = target_name b \<longleftrightarrow> a = b"
  by (cases a; cases b) simp_all

lemma f32_less_irrefl: "\<not> f32_less x x"
  by (cases x) auto

lemma f32_less_trans: "f32_less x y \<Longrightarrow> f32_less y z \<Longrightarrow> f32_less x z"
  by (cases x; cases y; cases z) auto

lemma f32_less_linear: "x \<noteq> F32_NaN \<Longrightarrow> y \<noteq> F32_NaN \<Longrightarrow> f32_less x y \<or> x = y \<or> f32_less y x"
  by (cases x; cases y) auto

lemma f32_le_not_NaN: "f32_le x y \<Longrightarrow> x \<noteq> F32_NaN"
  by (cases x) (auto simp: f32_le_def)

text \<open>On loads that are numbers the comparison is the lexicographic order of load and name.\<close>

definition better :: "RuntimeSnapshot \<Rightarrow> ExecutionTarget \<Rightarrow> ExecutionTarget \<Rightarrow> bool" where
  "better snapshot a b \<longleftrightarrow>
     f32_less (load_for snapshot a) (load_for snapshot b)
     \<or> load_for snapshot a = load_for snapshot b \<and> target_name a < target_name b"

lemma target_cmp_Greater:
  assumes "load_for s a \<noteq> F32_NaN" "load_for s b \<noteq> F32_NaN"
  shows "target_cmp s a b = CmpGreater \<longleftrightarrow> better s b a"
proof -
  consider "f32_less (load_for s a) (load_for s b)" | "load_for s a = load_for s b"
    | "f32_less (load_for s b) (load_for s a)"
    using f32_less_linear [OF assms] by blast
  then show ?thesis
  proof cases
    case 1
    then have "\<not> f32_less (load_for s b) (load_for s a)" "load_for s b \<noteq> load_for s a"
      using f32_less_trans f32_less_irrefl by metis+
    with 1 assms show ?thesis by (simp add: target_cmp_def partial_cmp_def better_def)
  next
    case 2
    with assms show ?thesis
      using linorder_less_linear [of "target_name a" "target_name b"]
      by (auto simp: target_cmp_def partial_cmp_def better_def cmp_string_def f32_less_irrefl)
  next
    case 3
    then have "\<not> f32_less (load_for s a) (load_for s b)" using f32_less_trans f32_less_irrefl by metis
    with 3 assms show ?thesis by (simp add: target_cmp_def partial_cmp_def better_def)
  qed
qed

lemma better_trans: "better s a b \<Longrightarrow> better s b c \<Longrightarrow> better s a c"
  unfolding better_def using f32_less_trans by (metis order.strict_trans)

lemma better_irrefl: "\<not> better s a a"
  by (simp add: better_def f32_less_irrefl)

lemma better_linear:
  assumes "load_for s a \<noteq> F32_NaN" "load_for s b \<noteq> F32_NaN"
  shows "better s a b \<or> a = b \<or> better s b a"
  using f32_less_linear [OF assms] linorder_less_linear [of "target_name a" "target_name b"]
  by (auto simp: better_def)

lemma min_by_foldl:
  assumes "\<And>t. t \<in> insert m (set ts) \<Longrightarrow> load_for s t \<noteq> F32_NaN"
  shows "foldl (\<lambda>m y. if target_cmp s m y = CmpGreater then y else m) m ts \<in> insert m (set ts)
    \<and> (\<forall>t \<in> insert m (set ts). \<not> better s t (foldl (\<lambda>m y. if target_cmp s m y = CmpGreater then y else m) m ts))"
  using assms
proof (induction ts arbitrary: m)
  case Nil
  then show ?case by (simp add: better_irrefl)
next
  case (Cons t ts)
  define m' where "m' = (if target_cmp s m t = CmpGreater then t else m)"
  define r where "r = foldl (\<lambda>m y. if target_cmp s m y = CmpGreater then y else m) m' ts"
  have num: "load_for s m \<noteq> F32_NaN" "load_for s t \<noteq> F32_NaN" using Cons.prems by auto
  have m': "m' = (if better s t m then t else m)" by (simp add: m'_def target_cmp_Greater [OF num])
  have "load_for s x \<noteq> F32_NaN" if "x \<in> insert m' (set ts)" for x
    using that Cons.prems by (auto simp: m' split: if_splits)
  from Cons.IH [OF this] have in_r: "r \<in> insert m' (set ts)" and min: "\<forall>x \<in> insert m' (set ts). \<not> better s x r"
    unfolding r_def by blast+
  have "\<not> better s m r \<and> \<not> better s t r"
  proof (cases "better s t m")
    case True
    then have "m' = t" by (simp add: m')
    with min have t: "\<not> better s t r" by simp
    with better_trans [OF True, of r] show ?thesis by blast
  next
    case False
    then have "m' = m" by (simp add: m')
    with min have m: "\<not> better s m r" by simp
    have "t = m \<or> better s m t" using better_linear [OF num] False by blast
    with m better_trans [of s m t r] show ?thesis by blast
  qed
  then have "r \<in> insert m (set (t # ts)) \<and> (\<forall>x \<in> insert m (set (t # ts)). \<not> better s x r)"
    using in_r min by (auto simp: m' split: if_splits)
  then show ?case unfolding r_def m'_def by simp
qed

lemma min_by_selects:
  assumes "ts \<noteq> []" "\<And>t. t \<in> set ts \<Longrightarrow> load_for s t \<noteq> F32_NaN"
  shows "\<exists>m. min_by (target_cmp s) ts = Some m \<and> m \<in> set ts \<and> (\<forall>t \<in> set ts. \<not> better s t m)"
proof (cases ts)
  case (Cons x xs)
  with min_by_foldl [of x xs s] assms(2) show ?thesis by simp
qed (use assms in simp)

section \<open>Properties\<close>

definition hint_accepted :: "PlacementRequest \<Rightarrow> ExecutionTarget list \<Rightarrow> bool" where
  "hint_accepted req permitted = (case target_hint req of Some h \<Rightarrow> h \<in> set permitted | None \<Rightarrow> False)"

definition not_overloaded :: "PlacementRequest \<Rightarrow> ExecutionTarget list \<Rightarrow> ExecutionTarget set" where
  "not_overloaded req permitted = {t \<in> set permitted. f32_le (load_for (runtime_snapshot req) t) overload_limit}"


text \<open>
  A permitted hint is taken however loaded its target is: confidence \<^verbatim>\<open>Low\<close>, documented as a load
  below 0.9, is also given to a saturated target.
\<close>

lemma saturated_hint_accepted:
  "evaluate_targets \<lparr>pr_capability_id = c, target_hint = Some Cloud, runtime_snapshot = [Cloud \<mapsto> F32_Fin 1]\<rparr> [Local, Cloud] =
     Ok \<lparr>pd_target = Cloud, pd_reason = CallerHintAccepted, pd_confidence = Low\<rparr>"
  by (simp add: evaluate_targets_def load_for_def confidence_for_def)

end
