(* ===== verification/Router.thy ===== *)
theory Router
  imports Runtime_Host Placement
begin

text \<open>
  The placement router of \<^verbatim>\<open>crates/traverse-runtime/src/router/mod.rs\<close>: placement, execution, trace
  recording and event publication of one call, and the bridge from a local executor
  (\<^verbatim>\<open>BoundLocalExecutor\<close> of \<^verbatim>\<open>lib.rs\<close>).

  The registry of executors is a function from artifact types; an executor is a function on the outside
  world that reports its error as the text the router passes on. A poisoned lock is left out.
\<close>

section \<open>Definitions\<close>

datatype ArtifactType = NativeArtifact | WasmArtifact

fun artifact_type_name :: "ArtifactType \<Rightarrow> string" where
  "artifact_type_name NativeArtifact = ''Native''"
| "artifact_type_name WasmArtifact = ''Wasm''"

record ExecutorCapability =
  xc_capability_id :: string
  xc_artifact_type :: ArtifactType
  xc_wasm_binary_path :: "string option"
  xc_wasm_checksum :: "string option"
  xc_host_abi_version :: "string option"
  xc_emits :: "EventReference list"
  xc_service_type :: ServiceType
  xc_state_schema :: "json option"

record ExecutorOutput =
  xo_value :: json
  xo_emitted_events :: "TraverseEvent list"

type_synonym 'h capability_executor = "ExecutorCapability \<Rightarrow> json \<Rightarrow> 'h \<Rightarrow> (ExecutorOutput, string) result \<times> 'h"

record RouterRequest =
  qr_capability_id :: string
  qr_artifact_type :: ArtifactType
  qr_contract :: CapabilityContract
  qr_target_hint :: "ExecutionTarget option"
  qr_runtime_snapshot :: RuntimeSnapshot
  qr_input :: json
  qr_executor_capability :: ExecutorCapability
  qr_trace_id_override :: "string option"

datatype RouterError =
  PlacementFailed PlacementError
| ExecutorNotFound string
| RouterExecutionFailed string
| RouterContractViolation "json list"
| TraceLockPoisoned
| DurableTraceWriteFailed string

record RouterResponse =
  rp_output :: json
  rp_emitted_events :: "TraverseEvent list"
  rp_trace_id :: string
  rp_placement_decision :: PlacementDecision

text \<open>The durable trace of a router: the sink, which may fail with a message, and whether a failure
  is fatal.\<close>

record 'h DurableTraceConfig =
  dt_record :: "PublicTraceEntry \<Rightarrow> PrivateTraceEntry option \<Rightarrow> 'h \<Rightarrow> (unit, string) result \<times> 'h"
  dt_fail_closed :: bool

definition record_durable ::
  "'h DurableTraceConfig option \<Rightarrow> PublicTraceEntry \<Rightarrow> PrivateTraceEntry option \<Rightarrow> 'h \<Rightarrow> (unit, RouterError) result \<times> 'h" where
  "record_durable durable public private h =
     (case durable of
        None \<Rightarrow> (Ok (), h)
      | Some d \<Rightarrow>
          (case dt_record d public private h of
             (Inl message, h) \<Rightarrow> (if dt_fail_closed d then Err (DurableTraceWriteFailed message) else Ok (), h)
           | (Inr _, h) \<Rightarrow> (Ok (), h)))"

definition execute_with_executor ::
  "('h, 'b) RuntimeHost \<Rightarrow> 'h DurableTraceConfig option \<Rightarrow> RouterRequest \<Rightarrow> 'h capability_executor \<Rightarrow>
     ('h, 'b) RuntimeWorld \<Rightarrow> (RouterResponse, RouterError) result \<times> ('h, 'b) RuntimeWorld" where
  "execute_with_executor host durable request executor w =
     (case evaluate_placement \<lparr>pr_capability_id = qr_capability_id request, target_hint = qr_target_hint request,
              runtime_snapshot = qr_runtime_snapshot request\<rparr> (qr_contract request) of
        Inl e \<Rightarrow> (Err (PlacementFailed e), w)
      | Inr decision \<Rightarrow>
          (case executor (qr_executor_capability request) (qr_input request) (rw_host w) of
             (Inl message, h) \<Rightarrow> (Err (RouterExecutionFailed message), w\<lparr>rw_host := h, rw_tick := Suc (rw_tick w)\<rparr>)
           | (Inr exec_output, h) \<Rightarrow>
               (let duration = rh_elapsed_ms host (rw_tick w);
                    w = w\<lparr>rw_host := h, rw_tick := Suc (rw_tick w)\<rparr>;
                    trace_id = (case qr_trace_id_override request of Some i \<Rightarrow> i | None \<Rightarrow> rh_uuid host (rw_tick w));
                    time = rh_now host (rw_tick w);
                    w = w\<lparr>rw_tick := Suc (rw_tick w)\<rparr>;
                    output = xo_value exec_output; emitted = xo_emitted_events exec_output;
                    public = new_public_entry trace_id (qr_capability_id request) (target_name (pd_target decision))
                               TraceSuccess duration time;
                    private = new_private_entry (rh_security host) trace_id (rh_json_text host (qr_input request))
                                (rh_json_text host output) duration
                in case record_durable durable public (Some private) (rw_host w) of
                     (Inl e, h) \<Rightarrow> (Err e, w\<lparr>rw_host := h\<rparr>)
                   | (Inr _, h) \<Rightarrow>
                       (let w = w\<lparr>rw_host := h, rw_traces := trace_insert public (Some private) (rw_traces w)\<rparr>;
                            subscribable = cc_service_type (qr_contract request) = Subscribable;
                            w = (if subscribable then w\<lparr>rw_broker := publish_all (rh_broker host) emitted (rw_broker w)\<rparr> else w)
                        in (Ok \<lparr>rp_output = output, rp_emitted_events = (if subscribable then emitted else []),
                                rp_trace_id = trace_id, rp_placement_decision = decision\<rparr>, w)))))"

definition router_execute ::
  "('h, 'b) RuntimeHost \<Rightarrow> 'h DurableTraceConfig option \<Rightarrow> (ArtifactType \<rightharpoonup> 'h capability_executor) \<Rightarrow>
     RouterRequest \<Rightarrow> ('h, 'b) RuntimeWorld \<Rightarrow> (RouterResponse, RouterError) result \<times> ('h, 'b) RuntimeWorld" where
  "router_execute host durable executors request w =
     (case executors (qr_artifact_type request) of
        None \<Rightarrow> (Err (ExecutorNotFound (artifact_type_name (qr_artifact_type request))), w)
      | Some executor \<Rightarrow> execute_with_executor host durable request executor w)"

subsection \<open>The bridge to a local executor\<close>

definition artifact_type_for :: "ResolvedCapability \<Rightarrow> ArtifactType" where
  "artifact_type_for selected = (if artifact_binary (rc_artifact selected) \<noteq> None then WasmArtifact else NativeArtifact)"

definition executor_capability_for :: "ResolvedCapability \<Rightarrow> ArtifactType \<Rightarrow> ExecutorCapability" where
  "executor_capability_for selected type_of_artifact =
     \<lparr>xc_capability_id = cc_id (rc_contract selected), xc_artifact_type = type_of_artifact,
      xc_wasm_binary_path = map_option binary_location (artifact_binary (rc_artifact selected)),
      xc_wasm_checksum = Option.bind (binary_digest (rc_artifact selected)) (strip_prefix ''sha256:''),
      xc_host_abi_version = None, xc_emits = cc_emits (rc_contract selected),
      xc_service_type = cc_service_type (rc_contract selected), xc_state_schema = cc_state_schema (rc_contract selected)\<rparr>"

text \<open>The text of \<^verbatim>\<open>ExecutorError::ExecutionFailed\<close>.\<close>

definition execution_failed_text :: "string \<Rightarrow> string" where
  "execution_failed_text message = ''execution failed: '' @ message"

definition bound_local_executor :: "'h local_executor \<Rightarrow> ResolvedCapability \<Rightarrow> 'h capability_executor" where
  "bound_local_executor execute selected capability input h =
     (case execute h selected input of
        (Inl failure, h) \<Rightarrow> (Err (execution_failed_text (lf_message failure)), h)
      | (Inr output, h) \<Rightarrow>
          (case validate_natively_emitted_events (rc_contract selected) (lo_emitted_events output) of
             Inl message \<Rightarrow> (Err (execution_failed_text message), h)
           | Inr _ \<Rightarrow> (Ok \<lparr>xo_value = lo_value output, xo_emitted_events = lo_emitted_events output\<rparr>, h)))"

definition idle_runtime_snapshot :: RuntimeSnapshot where
  "idle_runtime_snapshot = [Local \<mapsto> F32_Fin 0, Browser \<mapsto> F32_Fin 0, Edge \<mapsto> F32_Fin 0, Cloud \<mapsto> F32_Fin 0,
     Worker \<mapsto> F32_Fin 0, Device \<mapsto> F32_Fin 0]"

fun execution_target_from_placement :: "PlacementTarget \<Rightarrow> ExecutionTarget" where
  "execution_target_from_placement TargetLocal = Local"
| "execution_target_from_placement TargetBrowser = Browser"
| "execution_target_from_placement TargetEdge = Edge"
| "execution_target_from_placement TargetCloud = Cloud"
| "execution_target_from_placement TargetWorker = Worker"
| "execution_target_from_placement TargetDevice = Device"

text \<open>\<^verbatim>\<open>format!("{placement_error:?}")\<close>\<close>

fun placement_error_debug :: "PlacementError \<Rightarrow> string" where
  "placement_error_debug NoEligibleTarget = ''NoEligibleTarget''"

fun map_router_error :: "RouterError \<Rightarrow> RuntimeError \<times> ExecutionFailureReason \<times> EventReference list" where
  "map_router_error (PlacementFailed e) =
     (runtime_error PlacementUnsupportedError ''placement constraints rejected the capability execution request''
        (json_obj [(''placement_error'', JString (placement_error_debug e))]), PlacementUnsupported, [])"
| "map_router_error (ExecutorNotFound t) =
     (runtime_error CapabilityNotRunnable ''no executor is registered for the capability artifact type''
        (json_obj [(''artifact_type'', JString t)]), ArtifactNotRunnable, [])"
| "map_router_error (RouterExecutionFailed message) =
     (runtime_error ExecutionFailedError message (json_obj [(''code'', JString ''execution_failed'')]), FailedExecution, [])"
| "map_router_error (RouterContractViolation vs) =
     (runtime_error ContractViolationError ''capability execution violated its governed contract''
        (json_obj [(''violations'', JArray vs)]), FailedExecution, [])"
| "map_router_error TraceLockPoisoned =
     (runtime_error ExecutionFailedError ''trace store lock is poisoned''
        (json_obj [(''code'', JString ''trace_lock_poisoned'')]), FailedExecution, [])"
| "map_router_error (DurableTraceWriteFailed message) =
     (runtime_error ExecutionFailedError ''the execution trace could not be durably written''
        (json_obj [(''code'', JString ''durable_trace_write_failed''), (''detail'', JString message)]), FailedExecution, [])"

section \<open>Properties\<close>


end
