(* ===== verification/Workflows.thy ===== *)
theory Workflows
  imports Runtime_Host
begin

text \<open>
  Workflow traversal, second half: the loops of \<^verbatim>\<open>crates/traverse-runtime/src/workflows.rs\<close>. One turn of
  the traversal loop is \<open>workflow_step\<close>; \<open>traverse_workflow\<close> iterates it. Neither the traversal of a
  cyclic workflow nor the draining of a subscription ends in general, so both loops are partial
  functions: \<open>None\<close> stands for a loop that does not end.
\<close>

section \<open>Definitions\<close>

subsection \<open>Loops\<close>

text \<open>A loop whose body, on a state and a world, either continues with a new state or ends with a
  result.\<close>

partial_function (option) iterate_steps ::
  "('s \<Rightarrow> 'w \<Rightarrow> (('s + 'r) \<times> 'w) option) \<Rightarrow> 's \<Rightarrow> 'w \<Rightarrow> ('r \<times> 'w) option" where
  "iterate_steps step s w =
     Option.bind (step s w) (\<lambda>(next, w'). case next of Inl s' \<Rightarrow> iterate_steps step s' w' | Inr r \<Rightarrow> Some (r, w'))"

subsection \<open>Events of the broker\<close>

datatype BrokerQueryFailure =
  UnregisteredEventTypeFailure string
| BrokerUnavailable string

definition subscribe_failure :: "EventError \<Rightarrow> BrokerQueryFailure" where
  "subscribe_failure error =
     (case error of UnregisteredEventType t \<Rightarrow> UnregisteredEventTypeFailure t
                  | other \<Rightarrow> BrokerUnavailable (event_error_display other))"

text \<open>One poll of the draining loop: the events delivered so far, and the failure that ended it.\<close>

definition drain_step ::
  "'b EventBroker \<Rightarrow> string \<Rightarrow> BrokerEvent list \<Rightarrow> 'b \<Rightarrow>
     ((BrokerEvent list + BrokerEvent list \<times> BrokerQueryFailure option) \<times> 'b) option" where
  "drain_step eb sid delivered b =
     (case eb_poll eb b sid EVENT_BROKER_POLL_BATCH of
        (Inr batch, b) \<Rightarrow>
          (let delivered = delivered @ poll_events batch
           in Some (if length (poll_events batch) < EVENT_BROKER_POLL_BATCH then Inr (delivered, None) else Inl delivered, b))
      | (Inl error, b) \<Rightarrow> Some (Inr (delivered, Some (BrokerUnavailable (event_error_display error))), b))"

definition drain_subscription ::
  "'b EventBroker \<Rightarrow> string \<Rightarrow> 'b \<Rightarrow> ((BrokerEvent list \<times> BrokerQueryFailure option) \<times> 'b) option" where
  "drain_subscription eb sid b = iterate_steps (drain_step eb sid) [] b"

definition broker_record :: "string \<Rightarrow> string \<Rightarrow> BrokerEvent \<Rightarrow> EmittedEventRecord" where
  "broker_record event_type sid event =
     \<lparr>ee_record_id = ''broker:'' @ event_type @ '':'' @ bev_cursor event,
      ee_event = \<lparr>er_event_id = event_type, er_version = te_version (bev_event event)\<rparr>,
      ee_payload = Some (te_data (bev_event event)),
      ee_source = Some \<lparr>bs_subscription_id = sid, bs_cursor = bev_cursor event\<rparr>\<rparr>"

definition cleanup_warning :: "string \<Rightarrow> EventError \<Rightarrow> RuntimeWarning" where
  "cleanup_warning sid error = \<lparr>warning_code = ''event_broker_subscription_cleanup_failed'',
     warning_message = ''failed to cancel workflow event-driven edge subscription '' @ sid @ '': '' @ event_error_display error\<rparr>"

text \<open>The loop over the event types; it returns at the first failure.\<close>

fun poll_event_types ::
  "'b EventBroker \<Rightarrow> string list \<Rightarrow> EmittedEventRecord list \<Rightarrow> RuntimeWarning list \<Rightarrow> 'b \<Rightarrow>
     ((EmittedEventRecord list \<times> RuntimeWarning list, BrokerQueryFailure) result \<times> 'b) option" where
  "poll_event_types eb [] records warnings b = Some (Ok (records, warnings), b)"
| "poll_event_types eb (event_type # event_types) records warnings b =
     (case eb_subscribe eb b event_type ''0'' of
        (Inl error, b) \<Rightarrow> Some (Err (subscribe_failure error), b)
      | (Inr subscription, b) \<Rightarrow>
          (let sid = sub_subscription_id subscription
           in Option.bind (drain_subscription eb sid b) (\<lambda>((delivered, poll_failure), b).
              (let (cancelled, b) = eb_cancel eb b sid;
                   warnings = warnings @ (case cancelled of Inl error \<Rightarrow> [cleanup_warning sid error] | Inr _ \<Rightarrow> [])
               in case poll_failure of
                    Some failure \<Rightarrow> Some (Err failure, b)
                  | None \<Rightarrow> poll_event_types eb event_types (records @ map (broker_record event_type sid) delivered) warnings b))))"

definition poll_broker_events_for_waiting_edges ::
  "'b EventBroker \<Rightarrow> WaitingWorkflowEdgeContext list \<Rightarrow> 'b \<Rightarrow>
     ((EmittedEventRecord list \<times> RuntimeWarning list, BrokerQueryFailure) result \<times> 'b) option" where
  "poll_broker_events_for_waiting_edges eb waiting b =
     poll_event_types eb (remdups_adj (sort (map (\<lambda>w. er_event_id (ww_event_ref w)) waiting))) [] [] b"

subsection \<open>One turn of the traversal\<close>

text \<open>The variables of the traversal loop.\<close>

record Traversal =
  tv_state :: json_object
  tv_current :: string
  tv_step_index :: nat
  tv_visited :: "WorkflowTraversalStepRecord list"
  tv_traversed :: "WorkflowTraversalEdgeRecord list"
  tv_emitted :: "EventReference list"
  tv_event_evidence :: WorkflowEventEvidenceBundle
  tv_consumed :: "string set"
  tv_warnings :: "RuntimeWarning list"

definition initial_traversal :: "WorkflowExecutionRequest \<Rightarrow> WorkflowDefinition \<Rightarrow> Traversal" where
  "initial_traversal request workflow =
     \<lparr>tv_state = workflow_state (wq_input request), tv_current = wd_start_node workflow, tv_step_index = 0,
      tv_visited = [], tv_traversed = [], tv_emitted = [], tv_event_evidence = empty_bundle, tv_consumed = {},
      tv_warnings = []\<rparr>"

text \<open>\<^verbatim>\<open>visited.last_mut()\<close> with a new status\<close>

definition mark_last :: "WorkflowTraversalStepStatus \<Rightarrow> WorkflowTraversalStepRecord list \<Rightarrow> WorkflowTraversalStepRecord list" where
  "mark_last status visited =
     (if visited = [] then [] else butlast visited @ [(last visited)\<lparr>step_status := status\<rparr>])"

definition traversal_failure ::
  "WorkflowExecutionRequest \<Rightarrow> WorkflowTraversalFailureReason \<Rightarrow> RuntimeError \<Rightarrow> Traversal \<Rightarrow> WorkflowExecutionOutcome" where
  "traversal_failure request reason error tv =
     workflow_failure request reason error (tv_visited tv) (tv_traversed tv) (tv_emitted tv) (tv_event_evidence tv) (tv_warnings tv)"

definition failed_step :: "Traversal \<Rightarrow> Traversal" where
  "failed_step tv = tv\<lparr>tv_visited := mark_last StepFailed (tv_visited tv)\<rparr>"

text \<open>The capability of a node: the registry first, then the persisted index.\<close>

definition resolve_node ::
  "('h, 'b) RuntimeHost \<Rightarrow> WorkflowExecutionRequest \<Rightarrow> WorkflowNode \<Rightarrow> Traversal \<Rightarrow> ('h, 'b) RuntimeWorld \<Rightarrow>
     (ResolvedCapability, WorkflowExecutionOutcome) result \<times> ('h, 'b) RuntimeWorld" where
  "resolve_node host request node tv w =
     (case rh_registry host (map_workflow_lookup_scope (wq_scope request)) (wn_capability_id node) (wn_capability_version node) of
        Some capability \<Rightarrow> (Ok capability, w)
      | None \<Rightarrow>
          if index_get (rh_index host) (wn_capability_id node) (wn_capability_version node) = None
          then (Err (traversal_failure request WorkflowInvalid
                  (runtime_error RtCapabilityNotFound ''workflow node capability was not found in the capability registry''
                     (json_obj [(''capability_id'', JString (wn_capability_id node)),
                                (''capability_version'', JString (wn_capability_version node))])) tv), w)
          else (case runtime_hydrate host (wn_capability_id node) (wn_capability_version node) w of
                  (Inr capability, w) \<Rightarrow> (Ok capability, w)
                | (Inl error, w) \<Rightarrow>
                    (Err (traversal_failure request StepExecutionFailed (hydration_runtime_error error) (failed_step tv)), w)))"

definition unsigned_warning :: "string \<Rightarrow> RuntimeWarning" where
  "unsigned_warning code = \<lparr>warning_code = code,
     warning_message = ''unsigned local/dev artifact allowed by development security mode''\<rparr>"

text \<open>The gates before a node is executed: artifact bytes, artifact verification, input contract.\<close>

definition admit_node ::
  "('h, 'b) RuntimeHost \<Rightarrow> WorkflowExecutionRequest \<Rightarrow> WorkflowNode \<Rightarrow> ResolvedCapability \<Rightarrow> 'h \<Rightarrow> Traversal \<Rightarrow>
     (Traversal, WorkflowExecutionOutcome) result" where
  "admit_node host request node capability h tv =
     (case load_artifact_bytes_for_verification (rh_read host h) capability of
        Inl error \<Rightarrow> Err (traversal_failure request StepExecutionFailed error (failed_step tv))
      | Inr bytes \<Rightarrow>
          (case verify_artifact (rh_security host) capability bytes (rh_mode host) of
             Inl failure \<Rightarrow>
               Err (traversal_failure request StepExecutionFailed
                 (runtime_error ContractViolationError
                    ''artifact signature verification failed before workflow step execution''
                    (json_obj [(''code'', JString (failure_code failure)),
                               (''artifact_verification'', verification_json (failure_record failure)),
                               (''node_id'', JString (wn_node_id node))])) (failed_step tv))
           | Inr verification \<Rightarrow>
               (let tv = (case av_warning_code verification of
                            None \<Rightarrow> tv
                          | Some code \<Rightarrow> tv\<lparr>tv_warnings := tv_warnings tv @ [unsigned_warning code]\<rparr>)
                in case validate_payload_against_contract (node_input (tv_state tv) node)
                          (sc_schema (cc_inputs (rc_contract capability))) RequestInvalid
                          ''workflow node input does not satisfy the capability input contract'' of
                     Inl error \<Rightarrow> Err (traversal_failure request StepExecutionFailed error (failed_step tv))
                   | Inr _ \<Rightarrow> Ok tv)))"

text \<open>The execution of an admitted node and the checks of what it returned; its effect on the
  state and the broker.\<close>

definition run_node ::
  "('h, 'b) RuntimeHost \<Rightarrow> WorkflowExecutionRequest \<Rightarrow> WorkflowNode \<Rightarrow> ResolvedCapability \<Rightarrow> Traversal \<Rightarrow>
     ('h, 'b) RuntimeWorld \<Rightarrow> (Traversal \<times> EmittedEventRecord list, WorkflowExecutionOutcome) result \<times> ('h, 'b) RuntimeWorld" where
  "run_node host request node capability tv w =
     (case rh_execute host (rw_host w) capability (node_input (tv_state tv) node) of
        (Inl failure, h) \<Rightarrow>
          (Err (traversal_failure request StepExecutionFailed
             (runtime_error ExecutionFailedError (lf_message failure)
                (json_obj [(''code'', JString (failure_code_name (lf_code failure)))])) (failed_step tv)),
           w\<lparr>rw_host := h\<rparr>)
      | (Inr output, h) \<Rightarrow>
          (let w = w\<lparr>rw_host := h\<rparr>; cc = rc_contract capability
           in case validate_payload_against_contract (lo_value output) (sc_schema (cc_outputs cc)) OutputValidationFailed
                     ''workflow node output does not satisfy the capability output contract'' of
                Inl error \<Rightarrow> (Err (traversal_failure request StepExecutionFailed error (failed_step tv)), w)
              | Inr _ \<Rightarrow>
                  (case validate_natively_emitted_events cc (lo_emitted_events output) of
                     Inl message \<Rightarrow>
                       (Err (traversal_failure request StepExecutionFailed
                          (runtime_error ContractViolationError message
                             (json_obj [(''node_id'', JString (wn_node_id node))])) (failed_step tv)), w)
                   | Inr _ \<Rightarrow>
                       (let w = (if cc_service_type cc = Subscribable
                                 then w\<lparr>rw_broker := publish_all (rh_broker host) (lo_emitted_events output) (rw_broker w)\<rparr>
                                 else w);
                            node_emitted = map (\<lambda>(index, event).
                              \<lparr>ee_record_id = ''event_record_'' @ show_nat index,
                               ee_event = \<lparr>er_event_id = te_event_type event, er_version = te_version event\<rparr>,
                               ee_payload = Some (te_data event), ee_source = None\<rparr>) (enumerate 0 (lo_emitted_events output));
                            tv = tv\<lparr>tv_state := update_state (tv_state tv) node (lo_value output),
                                    tv_emitted := tv_emitted tv @ map ee_event node_emitted,
                                    tv_visited := mark_last StepCompleted (tv_visited tv)\<rparr>
                        in (Ok (tv, node_emitted), w)))))"

definition take_edge :: "WorkflowEdge \<Rightarrow> Traversal \<Rightarrow> Traversal" where
  "take_edge edge tv = tv\<lparr>tv_traversed := tv_traversed tv @ [edge_record edge], tv_current := we_to edge,
     tv_step_index := Suc (tv_step_index tv)\<rparr>"

definition ambiguous_edges :: "WorkflowExecutionRequest \<Rightarrow> WorkflowNode \<Rightarrow> string \<Rightarrow> Traversal \<Rightarrow> WorkflowExecutionOutcome" where
  "ambiguous_edges request node message tv = traversal_failure request AmbiguousNextEdge
     (runtime_error ExecutionFailedError message (json_obj [(''node_id'', JString (wn_node_id node))])) tv"

text \<open>The evidence of an evaluation, without the waiting edges.\<close>

definition add_evaluation :: "EventDrivenEvaluationOutcome \<times> string set \<Rightarrow> Traversal \<Rightarrow> Traversal" where
  "add_evaluation evaluation tv =
     (let bundle = tv_event_evidence tv; evidence = ed_evidence (fst evaluation)
      in tv\<lparr>tv_event_evidence := bundle
              \<lparr>wb_match_records := wb_match_records bundle @ wb_match_records evidence,
               wb_wake_decisions := wb_wake_decisions bundle @ wb_wake_decisions evidence,
               wb_consumptions := wb_consumptions bundle @ wb_consumptions evidence\<rparr>,
            tv_consumed := snd evaluation\<rparr>)"

text \<open>The two passes over the waiting edges: the events of the node itself, then those of the
  broker. The taken edges, or the failure that ends the traversal.\<close>

definition evaluate_waiting_edges ::
  "('h, 'b) RuntimeHost \<Rightarrow> WorkflowExecutionRequest \<Rightarrow> WorkflowNode \<Rightarrow> WorkflowEdge list \<Rightarrow> EmittedEventRecord list \<Rightarrow>
     Traversal \<Rightarrow> ('h, 'b) RuntimeWorld \<Rightarrow>
     ((string list \<times> Traversal, WorkflowExecutionOutcome) result \<times> ('h, 'b) RuntimeWorld) option" where
  "evaluate_waiting_edges host request node outgoing node_emitted tv w =
     (let waiting = waiting_edge_contexts (''workflow_exec_'' @ wq_request_id request)
                      (filter (\<lambda>edge. we_trigger edge = EventTrigger) outgoing);
          bundle = tv_event_evidence tv;
          tv = tv\<lparr>tv_event_evidence := bundle\<lparr>wb_waiting_edges := wb_waiting_edges bundle @ waiting\<rparr>\<rparr>;
          stamp = wq_request_id request @ '':step:'' @ show_nat (tv_step_index tv);
          local = evaluate_event_driven_edges waiting node_emitted (tv_consumed tv) (stamp @ '':local'');
          tv = add_evaluation local tv;
          taken = ed_taken_edge_ids (fst local);
          unresolved = filter (\<lambda>edge. ww_edge_id edge \<notin> set taken) waiting
      in if unresolved = [] then Some (Ok (taken, tv), w)
         else Option.bind (poll_broker_events_for_waiting_edges (rh_broker host) unresolved (rw_broker w))
           (\<lambda>(polled, b).
              (let w = w\<lparr>rw_broker := b\<rparr>
               in case polled of
                    Inr (broker_events, broker_warnings) \<Rightarrow>
                      (let tv = tv\<lparr>tv_warnings := tv_warnings tv @ broker_warnings\<rparr>;
                           evaluation = evaluate_event_driven_edges unresolved broker_events (tv_consumed tv) (stamp @ '':broker'')
                       in Some (Ok (taken @ ed_taken_edge_ids (fst evaluation), add_evaluation evaluation tv), w))
                  | Inl (UnregisteredEventTypeFailure event_type) \<Rightarrow>
                      Some (Err (traversal_failure request EventSubscriptionFailed
                        (runtime_error RequestInvalid
                           (''waiting edge references an event type not registered in EventBroker'' @ [CHR 0x27] @ ''s catalog'')
                           (json_obj [(''node_id'', JString (wn_node_id node)), (''event_type'', JString event_type)]))
                        (failed_step tv)), w)
                  | Inl (BrokerUnavailable detail) \<Rightarrow>
                      Some (Err (traversal_failure request EventBrokerUnavailable
                        (runtime_error ExecutionFailedError
                           ''EventBroker was unreachable or internally failing while evaluating a waiting event-driven edge''
                           (json_obj [(''node_id'', JString (wn_node_id node)), (''detail'', JString detail)]))
                        (failed_step tv)), w))))"

definition completed_workflow ::
  "WorkflowExecutionRequest \<Rightarrow> WorkflowDefinition \<Rightarrow> json \<Rightarrow> Traversal \<Rightarrow> WorkflowExecutionOutcome" where
  "completed_workflow request workflow output tv =
     \<lparr>wo_result =
        \<lparr>wr_kind = WORKFLOW_REQUEST_KIND, wr_schema_version = WORKFLOW_SCHEMA_VERSION,
         wr_request_id = wq_request_id request, wr_workflow_id = wd_id workflow,
         wr_workflow_version = wd_version workflow, wr_status = WfCompleted, wr_output = Some output,
         wr_error = None, wr_warnings = tv_warnings tv\<rparr>,
      wo_evidence =
        \<lparr>wv_kind = WORKFLOW_EVIDENCE_KIND, wv_schema_version = WORKFLOW_SCHEMA_VERSION,
         wv_trace_id = ''workflow_trace_'' @ wq_request_id request, wv_request_id = wq_request_id request,
         wv_workflow_id = wd_id workflow, wv_workflow_version = wd_version workflow,
         wv_governing_spec = WORKFLOW_GOVERNING_SPEC, visited_nodes = tv_visited tv, traversed_edges = tv_traversed tv,
         wv_emitted_events = tv_emitted tv, wv_waiting_edges = wb_waiting_edges (tv_event_evidence tv),
         event_match_records = wb_match_records (tv_event_evidence tv),
         event_wake_decisions = wb_wake_decisions (tv_event_evidence tv),
         event_consumptions = wb_consumptions (tv_event_evidence tv),
         wv_result = \<lparr>wt_status = WfCompleted, wt_failure_reason = None\<rparr>\<rparr>\<rparr>"

text \<open>No edge was taken: the node is terminal, or the traversal fails.\<close>

definition finish_traversal ::
  "WorkflowExecutionRequest \<Rightarrow> WorkflowDefinition \<Rightarrow> WorkflowNode \<Rightarrow> WorkflowEdge list \<Rightarrow> Traversal \<Rightarrow>
     (WorkflowExecutionOutcome, WorkflowExecutionOutcome) result" where
  "finish_traversal request workflow node outgoing tv =
     (if wn_node_id node \<in> set (wd_terminal_nodes workflow)
      then (let final_output = final_workflow_output (tv_state tv) (wd_output_projection workflow)
            in case validate_payload_against_contract final_output (sc_schema (wd_outputs workflow)) OutputValidationFailed
                      ''workflow output does not satisfy the workflow output contract'' of
                 Inl error \<Rightarrow> Err (traversal_failure request WorkflowInvalid error tv)
               | Inr _ \<Rightarrow> Ok (completed_workflow request workflow final_output tv))
      else Err (traversal_failure request
             (if \<exists>edge \<in> set outgoing. we_trigger edge = EventTrigger then MissingRequiredEvent else TerminalNodeNotReached)
             (runtime_error ExecutionFailedError ''workflow traversal could not reach a valid next node''
                (json_obj [(''node_id'', JString (wn_node_id node))])) tv))"

text \<open>After a node: follow the one direct edge, else the one edge an event wakes, else finish.\<close>

definition next_edge ::
  "('h, 'b) RuntimeHost \<Rightarrow> WorkflowExecutionRequest \<Rightarrow> WorkflowDefinition \<Rightarrow> WorkflowNode \<Rightarrow> EmittedEventRecord list \<Rightarrow>
     Traversal \<Rightarrow> ('h, 'b) RuntimeWorld \<Rightarrow>
     ((Traversal + (WorkflowExecutionOutcome, WorkflowExecutionOutcome) result) \<times> ('h, 'b) RuntimeWorld) option" where
  "next_edge host request workflow node node_emitted tv w =
     (let outgoing = filter (\<lambda>edge. we_from edge = wn_node_id node) (wd_edges workflow);
          direct = filter (\<lambda>edge. we_trigger edge = DirectTrigger) outgoing
      in if length direct > 1
         then Some (Inr (Err (ambiguous_edges request node ''workflow traversal found more than one direct next edge'' tv)), w)
         else (case direct of
                 edge # _ \<Rightarrow> Some (Inl (take_edge edge tv), w)
               | [] \<Rightarrow>
                   Option.bind (evaluate_waiting_edges host request node outgoing node_emitted tv w) (\<lambda>(evaluated, w).
                     case evaluated of
                       Inl failure \<Rightarrow> Some (Inr (Err failure), w)
                     | Inr (taken, tv) \<Rightarrow>
                         (let matched = filter (\<lambda>edge. we_edge_id edge \<in> set taken) outgoing
                          in if length matched > 1
                             then Some (Inr (Err (ambiguous_edges request node
                                    ''workflow traversal found more than one event next edge'' tv)), w)
                             else (case matched of
                                     edge # _ \<Rightarrow> Some (Inl (take_edge edge tv), w)
                                   | [] \<Rightarrow> Some (Inr (finish_traversal request workflow node outgoing tv), w))))))"

definition workflow_step ::
  "('h, 'b) RuntimeHost \<Rightarrow> WorkflowExecutionRequest \<Rightarrow> WorkflowDefinition \<Rightarrow> Traversal \<Rightarrow> ('h, 'b) RuntimeWorld \<Rightarrow>
     ((Traversal + (WorkflowExecutionOutcome, WorkflowExecutionOutcome) result) \<times> ('h, 'b) RuntimeWorld) option" where
  "workflow_step host request workflow tv w =
     (case find (\<lambda>node. wn_node_id node = tv_current tv) (wd_nodes workflow) of
        None \<Rightarrow>
          Some (Inr (Err (traversal_failure request WorkflowInvalid
            (runtime_error ExecutionFailedError ''workflow node could not be resolved during traversal''
               (json_obj [(''node_id'', JString (tv_current tv))])) tv)), w)
      | Some node \<Rightarrow>
          (let tv = tv\<lparr>tv_visited := tv_visited tv @
                 [\<lparr>step_index = tv_step_index tv, step_node_id = wn_node_id node, step_capability_id = wn_capability_id node,
                   step_capability_version = wn_capability_version node, step_status = Entered\<rparr>]\<rparr>
           in case resolve_node host request node tv w of
                (Inl failure, w) \<Rightarrow> Some (Inr (Err failure), w)
              | (Inr capability, w) \<Rightarrow>
                  (case admit_node host request node capability (rw_host w) tv of
                     Inl failure \<Rightarrow> Some (Inr (Err failure), w)
                   | Inr tv \<Rightarrow>
                       (case run_node host request node capability tv w of
                          (Inl failure, w) \<Rightarrow> Some (Inr (Err failure), w)
                        | (Inr (tv, node_emitted), w) \<Rightarrow> next_edge host request workflow node node_emitted tv w))))"

subsection \<open>The traversal\<close>

definition traverse_workflow ::
  "('h, 'b) RuntimeHost \<Rightarrow> WorkflowExecutionRequest \<Rightarrow> WorkflowDefinition \<Rightarrow> ('h, 'b) RuntimeWorld \<Rightarrow>
     ((WorkflowExecutionOutcome, WorkflowExecutionOutcome) result \<times> ('h, 'b) RuntimeWorld) option" where
  "traverse_workflow host request workflow w =
     iterate_steps (workflow_step host request workflow) (initial_traversal request workflow) w"

definition execute_workflow ::
  "('h, 'b) RuntimeHost \<Rightarrow> WorkflowExecutionRequest \<Rightarrow> ('h, 'b) RuntimeWorld \<Rightarrow>
     (WorkflowExecutionOutcome \<times> ('h, 'b) RuntimeWorld) option" where
  "execute_workflow host request w =
     (case validate_workflow_request request of
        Some error \<Rightarrow> Some (workflow_failure request WorkflowInvalid error [] [] [] empty_bundle [], w)
      | None \<Rightarrow>
          (let scope = map_workflow_lookup_scope (wq_scope request);
               found = (case rh_workflow_registry host scope (wq_workflow_id request) (wq_workflow_version request) of
                          Some workflow \<Rightarrow> Some workflow
                        | None \<Rightarrow> lookup_indexed_workflow (rh_indexed_workflows host) scope (wq_workflow_id request)
                                    (wq_workflow_version request))
           in case found of
                None \<Rightarrow>
                  Some (workflow_failure request WorkflowNotFound
                    (runtime_error RtCapabilityNotFound ''workflow definition was not found in the workflow registry''
                       (json_obj [(''workflow_id'', JString (wq_workflow_id request)),
                                  (''workflow_version'', JString (wq_workflow_version request))]))
                    [] [] [] empty_bundle [], w)
              | Some workflow \<Rightarrow>
                  (case validate_payload_against_contract (wq_input request) (sc_schema (wd_inputs workflow)) RequestInvalid
                          ''workflow request input does not satisfy the workflow input contract'' of
                     Inl error \<Rightarrow> Some (workflow_failure request WorkflowInvalid error [] [] [] empty_bundle [], w)
                   | Inr _ \<Rightarrow>
                       map_option (\<lambda>(r, w). (case r of Inl failure \<Rightarrow> failure | Inr success \<Rightarrow> success, w))
                         (traverse_workflow host request workflow w))))"

definition workflow_request_of :: "ExecutionContext \<Rightarrow> ResolvedCapability \<Rightarrow> WorkflowReference \<Rightarrow> WorkflowExecutionRequest" where
  "workflow_request_of context selected workflow_ref =
     \<lparr>wq_kind = WORKFLOW_REQUEST_KIND, wq_schema_version = WORKFLOW_SCHEMA_VERSION,
      wq_request_id = rq_request_id (at_request (ec_attempt context)),
      wq_workflow_id = wref_workflow_id workflow_ref, wq_workflow_version = wref_workflow_version workflow_ref,
      wq_scope = (case rec_scope (rc_record selected) of PublicScope \<Rightarrow> WfPublicOnly | PrivateScope \<Rightarrow> WfPreferPrivate),
      wq_input = rq_input (at_request (ec_attempt context)), wq_governing_spec = WORKFLOW_GOVERNING_SPEC\<rparr>"

definition execute_workflow_capability ::
  "('h, 'b) RuntimeHost \<Rightarrow> ExecutionContext \<Rightarrow> ResolvedCapability \<Rightarrow> StartedExecution \<Rightarrow> ('h, 'b) RuntimeWorld \<Rightarrow>
     (RuntimeExecutionOutcome \<times> ('h, 'b) RuntimeWorld) option" where
  "execute_workflow_capability host context selected started w =
     (let failure_state = (\<lambda>reason. \<lparr>ef_artifact_ref = rec_artifact_ref (rc_record selected),
            ef_started_at = se_started_at started, ef_placement = se_placement started, ef_failure_reason = reason\<rparr>)
      in case artifact_workflow_ref (rc_artifact selected) of
           None \<Rightarrow>
             Some (execution_failure_outcome context (failure_state ArtifactMissing)
               (runtime_error ArtifactMissingError ''workflow-backed capability is missing its workflow reference''
                  (json_obj [(''artifact_ref'', JString (rec_artifact_ref (rc_record selected)))])) [] None, w)
         | Some workflow_ref \<Rightarrow>
             Option.bind (execute_workflow host (workflow_request_of context selected workflow_ref) w) (\<lambda>(outcome, w).
               (let result = wo_result outcome; evidence = wo_evidence outcome;
                    attempt = ec_attempt context;
                    context = context\<lparr>ec_attempt := attempt\<lparr>at_warnings := at_warnings attempt @ wr_warnings result\<rparr>\<rparr>
                in case wr_status result of
                     WfCompleted \<Rightarrow>
                       Some (successful_execution_outcome (rh_json_text host) context selected started
                         (case wr_output result of None \<Rightarrow> JObject [] | Some output \<Rightarrow> output)
                         (wv_emitted_events evidence) (Some evidence), w)
                   | WfError \<Rightarrow>
                       Some (execution_failure_outcome context (failure_state FailedExecution)
                         (case wr_error result of
                            None \<Rightarrow> runtime_error ExecutionFailedError ''workflow-backed capability execution failed'' (json_obj [])
                          | Some error \<Rightarrow> error)
                         (wv_emitted_events evidence) (Some evidence), w))))"

section \<open>Termination\<close>

lemma iterate_steps_Some:
  "step s w = Some (Inl s', w') \<Longrightarrow> iterate_steps step s w = iterate_steps step s' w'"
  "step s w = Some (Inr r, w') \<Longrightarrow> iterate_steps step s w = Some (r, w')"
  by (simp_all add: iterate_steps.simps)

text \<open>Partial correctness of a loop: an invariant of the continuing turns holds when the last one
  starts.\<close>

lemma iterate_steps_result:
  fixes step :: "'s \<Rightarrow> 'w \<Rightarrow> (('s + 'r) \<times> 'w) option"
  assumes "iterate_steps step s w = Some y" "P s w"
    and inv: "\<And>s w s' w'. P s w \<Longrightarrow> step s w = Some (Inl s', w') \<Longrightarrow> P s' w'"
  shows "\<exists>s0 w0. P s0 w0 \<and> step s0 w0 = Some (Inr (fst y), snd y)"
proof -
  define I where "I = (\<lambda>stp :: 's \<Rightarrow> 'w \<Rightarrow> (('s + 'r) \<times> 'w) option. \<forall>s w s' w'. P s w \<longrightarrow> stp s w = Some (Inl s', w') \<longrightarrow> P s' w')"
  have "I step \<longrightarrow> P s w \<longrightarrow> (\<exists>s0 w0. P s0 w0 \<and> step s0 w0 = Some (Inr (fst y), snd y))"
  proof (rule iterate_steps.raw_induct [OF _ assms(1)])
    fix iter stp s w y
    assume IH: "\<And>stp s w y. iter stp s w = Some y \<Longrightarrow> I stp \<longrightarrow> P s w \<longrightarrow> (\<exists>s0 w0. P s0 w0 \<and> stp s0 w0 = Some (Inr (fst y), snd y))"
      and body: "Option.bind (stp s w) (\<lambda>(nxt, w'). case nxt of Inl s' \<Rightarrow> iter stp s' w' | Inr r \<Rightarrow> Some (r, w')) = Some y"
    then obtain nxt w' where st: "stp s w = Some (nxt, w')" by (cases "stp s w") auto
    show "I stp \<longrightarrow> P s w \<longrightarrow> (\<exists>s0 w0. P s0 w0 \<and> stp s0 w0 = Some (Inr (fst y), snd y))"
    proof (intro impI)
      assume I: "I stp" and p: "P s w"
      show "\<exists>s0 w0. P s0 w0 \<and> stp s0 w0 = Some (Inr (fst y), snd y)"
      proof (cases nxt)
        case (Inl s')
        then have "P s' w'" using I p st unfolding I_def by blast
        moreover have "iter stp s' w' = Some y" using body st Inl by simp
        ultimately show ?thesis using IH [of stp s' w' y] I by blast
      next
        case (Inr r)
        with st body have "stp s w = Some (Inr (fst y), snd y)" by auto
        with p show ?thesis by blast
      qed
    qed
  qed
  moreover have "I step" unfolding I_def using inv by blast
  ultimately show ?thesis using assms(2) by blast
qed

text \<open>Total correctness: the invariant and a well-founded measure of the state.\<close>

lemma iterate_steps_total:
  assumes "wf R" "P s w"
    and "\<And>s w. P s w \<Longrightarrow> \<exists>next w'. step s w = Some (next, w') \<and> (case next of Inl s' \<Rightarrow> P s' w' \<and> ((s', w'), (s, w)) \<in> R | Inr r \<Rightarrow> Q r w')"
  shows "\<exists>r w'. iterate_steps step s w = Some (r, w') \<and> Q r w'"
  using assms(2)
proof (induction "(s, w)" arbitrary: s w rule: wf_induct_rule [OF assms(1)])
  case 1
  obtain nxt w' where step: "step s w = Some (nxt, w')"
    and nxt: "case nxt of Inl s' \<Rightarrow> P s' w' \<and> ((s', w'), (s, w)) \<in> R | Inr r \<Rightarrow> Q r w'"
    using assms(3) [OF 1(2)] by blast
  show ?case
  proof (cases nxt)
    case (Inl s')
    with nxt have "\<exists>r w''. iterate_steps step s' w' = Some (r, w'') \<and> Q r w''"
      by (intro 1(1)) simp_all
    with step Inl show ?thesis by (simp add: iterate_steps_Some(1))
  next
    case (Inr r)
    with step nxt show ?thesis by (simp add: iterate_steps_Some(2))
  qed
qed

context event_broker
begin

lemma drain_total:
  assumes "inv b"
  shows "\<exists>r b'. drain_subscription eb sid b = Some (r, b') \<and> inv b'"
  unfolding drain_subscription_def
proof (rule iterate_steps_total [where P = "\<lambda>_. inv" and R = "measure (\<lambda>(_, b). pending b sid)"])
  fix s :: "BrokerEvent list" and b
  assume inv: "inv b"
  obtain r b' where p: "eb_poll eb b sid EVENT_BROKER_POLL_BATCH = (r, b')" by (cases "eb_poll eb b sid EVENT_BROKER_POLL_BATCH")
  then have inv': "inv b'" using poll_keeps [OF inv] by (metis snd_conv)
  show "\<exists>next b'. drain_step eb sid s b = Some (next, b') \<and>
    (case next of Inl s' \<Rightarrow> inv b' \<and> ((s', b'), (s, b)) \<in> measure (\<lambda>(_, b). pending b sid) | Inr r \<Rightarrow> inv b')"
  proof (cases r)
    case (Inr batch)
    with p have "EVENT_BROKER_POLL_BATCH \<le> length (poll_events batch) \<Longrightarrow> pending b' sid < pending b sid"
      by (intro full_batch_progress [OF inv]) (simp_all add: EVENT_BROKER_POLL_BATCH_def)
    with p inv' Inr show ?thesis by (auto simp: drain_step_def Let_def)
  qed (use p inv' in \<open>simp add: drain_step_def\<close>)
qed (use assms in auto)

lemma poll_event_types_total:
  "inv b \<Longrightarrow> \<exists>r b'. poll_event_types eb event_types records warnings b = Some (r, b') \<and> inv b'"
proof (induction event_types arbitrary: records warnings b)
  case Nil then show ?case by simp
next
  case (Cons event_type event_types)
  obtain s b1 where s: "eb_subscribe eb b event_type ''0'' = (s, b1)" by (cases "eb_subscribe eb b event_type ''0''")
  then have b1: "inv b1" using subscribe_keeps [OF Cons.prems] by (metis snd_conv)
  show ?case
  proof (cases s)
    case (Inl e) with s b1 show ?thesis by simp
  next
    case (Inr sub)
    obtain d f b2 where d: "drain_subscription eb (sub_subscription_id sub) b1 = Some ((d, f), b2)" "inv b2"
      using drain_total [OF b1] by (metis surj_pair)
    obtain c b3 where c: "eb_cancel eb b2 (sub_subscription_id sub) = (c, b3)" by (cases "eb_cancel eb b2 (sub_subscription_id sub)")
    then have "inv b3" using cancel_keeps [OF d(2)] by (metis snd_conv)
    with s d c Inr Cons.IH show ?thesis
      by (cases f) (simp_all add: Let_def)
  qed
qed

lemma poll_waiting_total:
  "inv b \<Longrightarrow> \<exists>r b'. poll_broker_events_for_waiting_edges eb waiting b = Some (r, b') \<and> inv b'"
  unfolding poll_broker_events_for_waiting_edges_def by (rule poll_event_types_total)

lemma publish_keeps_all: "inv b \<Longrightarrow> inv (publish_all eb events b)"
  unfolding publish_all_def by (rule publish_all_keeps)

end

section \<open>What a turn does\<close>

lemma mark_last_snoc [simp]: "mark_last status (visited @ [r]) = visited @ [r\<lparr>step_status := status\<rparr>]"
  by (simp add: mark_last_def)

lemma add_evaluation_fields [simp]:
  "tv_current (add_evaluation ev tv) = tv_current tv" "tv_visited (add_evaluation ev tv) = tv_visited tv"
  "tv_traversed (add_evaluation ev tv) = tv_traversed tv" "tv_step_index (add_evaluation ev tv) = tv_step_index tv"
  "tv_state (add_evaluation ev tv) = tv_state tv" "tv_warnings (add_evaluation ev tv) = tv_warnings tv"
  "tv_emitted (add_evaluation ev tv) = tv_emitted tv"
  by (simp_all add: add_evaluation_def Let_def)

lemma evaluate_waiting_edges_keeps:
  assumes "evaluate_waiting_edges host request node outgoing node_emitted tv w = Some (Inr (taken, tv'), w')"
  shows "tv_current tv' = tv_current tv \<and> tv_visited tv' = tv_visited tv \<and> tv_traversed tv' = tv_traversed tv
    \<and> tv_step_index tv' = tv_step_index tv \<and> tv_state tv' = tv_state tv"
  using assms unfolding evaluate_waiting_edges_def Let_def
  by (auto split: if_splits Option.bind_splits sum.splits BrokerQueryFailure.splits)

lemma take_edge_fields [simp]:
  "tv_current (take_edge e tv) = we_to e" "tv_visited (take_edge e tv) = tv_visited tv"
  "tv_traversed (take_edge e tv) = tv_traversed tv @ [edge_record e]" "tv_step_index (take_edge e tv) = Suc (tv_step_index tv)"
  by (simp_all add: take_edge_def)

lemma next_edge_continues:
  assumes "next_edge host request workflow node node_emitted tv w = Some (Inl tv', w')"
  shows "\<exists>edge \<in> set (wd_edges workflow). we_from edge = wn_node_id node \<and> tv_current tv' = we_to edge
    \<and> tv_visited tv' = tv_visited tv \<and> tv_traversed tv' = tv_traversed tv @ [edge_record edge]
    \<and> tv_step_index tv' = Suc (tv_step_index tv)"
proof -
  let ?out = "filter (\<lambda>edge. we_from edge = wn_node_id node) (wd_edges workflow)"
  consider (direct) edge where "edge \<in> set ?out" "tv' = take_edge edge tv"
    | (event) edge taken tv1 w1 where "edge \<in> set ?out" "tv' = take_edge edge tv1"
      "evaluate_waiting_edges host request node ?out node_emitted tv w = Some (Inr (taken, tv1), w1)"
  proof -
    show thesis
    proof (cases "filter (\<lambda>edge. we_trigger edge = DirectTrigger) ?out")
      case (Cons edge rest)
      then have "edge \<in> set (filter (\<lambda>edge. we_trigger edge = DirectTrigger) ?out)" by (simp only: list.set_intros)
      then have "edge \<in> set ?out" by simp
      moreover have "tv' = take_edge edge tv"
        using assms Cons unfolding next_edge_def Let_def by (auto split: if_splits)
      ultimately show thesis by (rule direct)
    next
      case Nil
      then obtain taken tv1 w1 where e: "evaluate_waiting_edges host request node ?out node_emitted tv w = Some (Inr (taken, tv1), w1)"
        and m: "(let matched = filter (\<lambda>edge. we_edge_id edge \<in> set taken) ?out
           in if length matched > 1 then Some (Inr (Err (ambiguous_edges request node
                                    ''workflow traversal found more than one event next edge'' tv1)), w1)
              else (case matched of edge # _ \<Rightarrow> Some (Inl (take_edge edge tv1), w1)
                    | [] \<Rightarrow> Some (Inr (finish_traversal request workflow node ?out tv1), w1))) = Some (Inl tv', w')"
        using assms unfolding next_edge_def Let_def by (auto split: if_splits Option.bind_splits sum.splits)
      then obtain edge rest where "filter (\<lambda>edge. we_edge_id edge \<in> set taken) ?out = edge # rest" "tv' = take_edge edge tv1"
        by (auto simp: Let_def split: if_splits list.splits)
      moreover from this have "edge \<in> set (filter (\<lambda>edge. we_edge_id edge \<in> set taken) ?out)"
        by (simp only: list.set_intros)
      then have "edge \<in> set ?out" by simp
      ultimately show thesis using e by (intro event)
    qed
  qed
  then show ?thesis
  proof cases
    case direct
    then show ?thesis by auto
  next
    case event
    with evaluate_waiting_edges_keeps [OF event(3)] show ?thesis by auto
  qed
qed

lemma next_edge_completes:
  assumes "next_edge host request workflow node node_emitted tv w = Some (Inr (Ok outcome), w')"
  shows "\<exists>tv1. outcome = completed_workflow request workflow (final_workflow_output (tv_state tv1) (wd_output_projection workflow)) tv1
    \<and> conforms (final_workflow_output (tv_state tv1) (wd_output_projection workflow)) (sc_schema (wd_outputs workflow))
    \<and> wn_node_id node \<in> set (wd_terminal_nodes workflow)
    \<and> tv_visited tv1 = tv_visited tv \<and> tv_traversed tv1 = tv_traversed tv \<and> tv_state tv1 = tv_state tv"
proof -
  let ?out = "filter (\<lambda>edge. we_from edge = wn_node_id node) (wd_edges workflow)"
  obtain taken tv1 w1 where e: "evaluate_waiting_edges host request node ?out node_emitted tv w = Some (Inr (taken, tv1), w1)"
    and f: "finish_traversal request workflow node ?out tv1 = Ok outcome"
    using assms unfolding next_edge_def Let_def
    by (auto split: if_splits Option.bind_splits sum.splits list.splits)
  from f have "outcome = completed_workflow request workflow (final_workflow_output (tv_state tv1) (wd_output_projection workflow)) tv1
    \<and> conforms (final_workflow_output (tv_state tv1) (wd_output_projection workflow)) (sc_schema (wd_outputs workflow))
    \<and> wn_node_id node \<in> set (wd_terminal_nodes workflow)"
    unfolding finish_traversal_def Let_def
    by (auto split: if_splits sum.splits simp: validate_payload_Ok_iff)
  with evaluate_waiting_edges_keeps [OF e] show ?thesis by blast
qed

definition artifact_admitted :: "('h, 'b) RuntimeHost \<Rightarrow> 'h \<Rightarrow> ResolvedCapability \<Rightarrow> bool" where
  "artifact_admitted host h capability \<longleftrightarrow>
     (\<exists>bytes verification. load_artifact_bytes_for_verification (rh_read host h) capability = Ok bytes
        \<and> verify_artifact (rh_security host) capability bytes (rh_mode host) = Ok verification)"

definition admitted_call :: "('h, 'b) RuntimeHost \<Rightarrow> 'h \<Rightarrow> ResolvedCapability \<Rightarrow> json \<Rightarrow> bool" where
  "admitted_call host h capability input \<longleftrightarrow>
     artifact_admitted host h capability \<and> conforms input (sc_schema (cc_inputs (rc_contract capability)))"

lemma admit_node_Ok:
  assumes "admit_node host request node capability h tv = Ok tv'"
  shows "admitted_call host h capability (node_input (tv_state tv') node)"
    "tv_current tv' = tv_current tv \<and> tv_visited tv' = tv_visited tv \<and> tv_traversed tv' = tv_traversed tv
      \<and> tv_step_index tv' = tv_step_index tv \<and> tv_state tv' = tv_state tv"
  using assms unfolding admit_node_def admitted_call_def artifact_admitted_def Let_def
  by (auto split: sum.splits option.splits simp: validate_payload_Ok_iff)

lemma run_node_Ok:
  assumes "run_node host request node capability tv w = (Inr (tv', node_emitted), w')"
  shows "tv_current tv' = tv_current tv \<and> tv_visited tv' = mark_last StepCompleted (tv_visited tv)
    \<and> tv_traversed tv' = tv_traversed tv \<and> tv_step_index tv' = tv_step_index tv"
  using assms unfolding run_node_def Let_def by (auto split: prod.splits sum.splits)

definition completed_record :: "nat \<Rightarrow> WorkflowNode \<Rightarrow> WorkflowTraversalStepRecord" where
  "completed_record i node = \<lparr>step_index = i, step_node_id = wn_node_id node, step_capability_id = wn_capability_id node,
     step_capability_version = wn_capability_version node, step_status = StepCompleted\<rparr>"

lemma workflow_step_node:
  assumes "workflow_step host request workflow tv w = Some (r, w')" "\<And>failure. r \<noteq> Inr (Err failure)"
  obtains node tv1 node_emitted w1 where "find (\<lambda>node. wn_node_id node = tv_current tv) (wd_nodes workflow) = Some node"
    "tv_visited tv1 = tv_visited tv @ [completed_record (tv_step_index tv) node]" "tv_traversed tv1 = tv_traversed tv"
    "tv_step_index tv1 = tv_step_index tv"
    "next_edge host request workflow node node_emitted tv1 w1 = Some (r, w')"
proof -
  obtain node where node: "find (\<lambda>node. wn_node_id node = tv_current tv) (wd_nodes workflow) = Some node"
    using assms unfolding workflow_step_def by (auto split: option.splits)
  let ?tv = "tv\<lparr>tv_visited := tv_visited tv @ [\<lparr>step_index = tv_step_index tv, step_node_id = wn_node_id node,
    step_capability_id = wn_capability_id node, step_capability_version = wn_capability_version node, step_status = Entered\<rparr>]\<rparr>"
  obtain capability w0 where r: "resolve_node host request node ?tv w = (Inr capability, w0)"
    using assms node unfolding workflow_step_def Let_def by (cases "resolve_node host request node ?tv w") (auto split: sum.splits)
  obtain tv0 where a: "admit_node host request node capability (rw_host w0) ?tv = Inr tv0"
    using assms node r unfolding workflow_step_def Let_def
    by (cases "admit_node host request node capability (rw_host w0) ?tv") auto
  obtain tv1 node_emitted w1 where x: "run_node host request node capability tv0 w0 = (Inr (tv1, node_emitted), w1)"
    using assms node r a unfolding workflow_step_def Let_def
    by (cases "run_node host request node capability tv0 w0") (auto split: sum.splits)
  have "next_edge host request workflow node node_emitted tv1 w1 = Some (r, w')"
    using assms(1) node r a x unfolding workflow_step_def Let_def by simp
  moreover have "tv_visited tv1 = tv_visited tv @ [completed_record (tv_step_index tv) node]"
    "tv_traversed tv1 = tv_traversed tv" "tv_step_index tv1 = tv_step_index tv"
    using run_node_Ok [OF x] admit_node_Ok(2) [OF a] by (simp_all add: completed_record_def)
  ultimately show thesis using node that by blast
qed

subsection \<open>Termination of an acyclic workflow\<close>

definition edge_relation :: "WorkflowDefinition \<Rightarrow> (string \<times> string) set" where
  "edge_relation workflow = (\<lambda>edge. (we_from edge, we_to edge)) ` set (wd_edges workflow)"

lemma workflow_step_edge:
  assumes "workflow_step host request workflow tv w = Some (Inl tv', w')"
  shows "(tv_current tv, tv_current tv') \<in> edge_relation workflow"
proof -
  obtain node tv1 node_emitted w1 where node: "find (\<lambda>node. wn_node_id node = tv_current tv) (wd_nodes workflow) = Some node"
    and n: "next_edge host request workflow node node_emitted tv1 w1 = Some (Inl tv', w')"
    by (rule workflow_step_node [OF assms]) auto
  from node have "wn_node_id node = tv_current tv" by (auto simp: find_Some_iff)
  with next_edge_continues [OF n] show ?thesis by (force simp: edge_relation_def)
qed

lemma resolve_node_broker [simp]: "rw_broker (snd (resolve_node host request node tv w)) = rw_broker w"
  by (simp add: resolve_node_def runtime_hydrate_def case_prod_beta split: option.split sum.split)

context event_broker
begin

lemma run_node_keeps:
  "rh_broker host = eb \<Longrightarrow> inv (rw_broker w) \<Longrightarrow> inv (rw_broker (snd (run_node host request node capability tv w)))"
  unfolding run_node_def Let_def by (simp add: publish_keeps_all case_prod_beta split: prod.split sum.split)

lemma evaluate_waiting_edges_total:
  assumes "rh_broker host = eb" "inv (rw_broker w)"
  shows "\<exists>r w'. evaluate_waiting_edges host request node outgoing node_emitted tv w = Some (r, w') \<and> inv (rw_broker w')"
proof -
  have "\<exists>r b. poll_broker_events_for_waiting_edges eb ws (rw_broker w) = Some (r, b) \<and> inv b" for ws
    by (rule poll_waiting_total [OF assms(2)])
  then obtain r b where "\<And>ws. poll_broker_events_for_waiting_edges eb ws (rw_broker w) = Some (r ws, b ws) \<and> inv (b ws)"
    by metis
  then show ?thesis
    using assms unfolding evaluate_waiting_edges_def Let_def
    by (simp split: sum.split BrokerQueryFailure.split)
qed

lemma next_edge_total:
  assumes "rh_broker host = eb" "inv (rw_broker w)"
  shows "\<exists>r w'. next_edge host request workflow node node_emitted tv w = Some (r, w') \<and> inv (rw_broker w')"
proof -
  obtain r w' where "evaluate_waiting_edges host request node
      (filter (\<lambda>edge. we_from edge = wn_node_id node) (wd_edges workflow)) node_emitted tv w = Some (r, w')" "inv (rw_broker w')"
    using evaluate_waiting_edges_total [OF assms] by blast
  then show ?thesis
    using assms(2) unfolding next_edge_def Let_def by (auto split: list.split sum.split)
qed

lemma workflow_step_total:
  assumes "rh_broker host = eb" "inv (rw_broker w)"
  shows "\<exists>r w'. workflow_step host request workflow tv w = Some (r, w') \<and> inv (rw_broker w')"
proof (cases "find (\<lambda>node. wn_node_id node = tv_current tv) (wd_nodes workflow)")
  case None
  with assms show ?thesis by (simp add: workflow_step_def)
next
  case (Some node)
  let ?tv = "tv\<lparr>tv_visited := tv_visited tv @ [\<lparr>step_index = tv_step_index tv, step_node_id = wn_node_id node,
    step_capability_id = wn_capability_id node, step_capability_version = wn_capability_version node, step_status = Entered\<rparr>]\<rparr>"
  obtain c w0 where r: "resolve_node host request node ?tv w = (c, w0)" by (cases "resolve_node host request node ?tv w")
  then have w0: "inv (rw_broker w0)" using assms(2) resolve_node_broker [of host request node ?tv w] by simp
  show ?thesis
  proof (cases c)
    case (Inl f)
    with Some r w0 show ?thesis by (simp add: workflow_step_def)
  next
    case (Inr capability)
    show ?thesis
    proof (cases "admit_node host request node capability (rw_host w0) ?tv")
      case (Inl f)
      with Some r Inr w0 show ?thesis by (simp add: workflow_step_def)
    next
      case a: (Inr tv0)
      obtain x w1 where x: "run_node host request node capability tv0 w0 = (x, w1)" by (cases "run_node host request node capability tv0 w0")
      then have w1: "inv (rw_broker w1)" using run_node_keeps [OF assms(1) w0, of request node capability tv0] by simp
      show ?thesis
      proof (cases x)
        case (Inl f)
        with Some r Inr a x w1 show ?thesis by (simp add: workflow_step_def)
      next
        case out: (Inr out)
        obtain tv1 emitted where o: "out = (tv1, emitted)" by (cases out)
        have "workflow_step host request workflow tv w = next_edge host request workflow node emitted tv1 w1"
          using Some r Inr a x out o by (simp add: workflow_step_def)
        then show ?thesis using next_edge_total [OF assms(1) w1] by simp
      qed
    qed
  qed
qed

lemma traverse_total:
  fixes host :: "('h, 'b) RuntimeHost"
  assumes "acyclic (edge_relation workflow)" "rh_broker host = eb" "inv (rw_broker w)"
  shows "\<exists>r w'. traverse_workflow host request workflow w = Some (r, w') \<and> inv (rw_broker w')"
  unfolding traverse_workflow_def
proof (rule iterate_steps_total [where P = "\<lambda>_ w. inv (rw_broker w)"
      and R = "inv_image ((edge_relation workflow)\<inverse>) (\<lambda>(tv, _). tv_current tv)"])
  have "finite (edge_relation workflow)" by (simp add: edge_relation_def)
  then show "wf (inv_image ((edge_relation workflow)\<inverse>) (\<lambda>(tv, _). tv_current tv))"
    using assms(1) by (intro wf_inv_image finite_acyclic_wf_converse)
  show "inv (rw_broker w)" by (rule assms(3))
next
  fix tv and w :: "('h, 'b) RuntimeWorld"
  assume "inv (rw_broker w)"
  from workflow_step_total [OF assms(2) this]
  obtain nxt w' where s: "workflow_step host request workflow tv w = Some (nxt, w')" "inv (rw_broker w')" by blast
  then have "case nxt of Inl tv' \<Rightarrow> inv (rw_broker w') \<and> ((tv', w'), tv, w) \<in> inv_image ((edge_relation workflow)\<inverse>) (\<lambda>(tv, _). tv_current tv)
      | Inr r \<Rightarrow> inv (rw_broker w')"
    by (auto simp: workflow_step_edge split: sum.split)
  with s show "\<exists>nxt w'. workflow_step host request workflow tv w = Some (nxt, w') \<and>
      (case nxt of Inl tv' \<Rightarrow> inv (rw_broker w') \<and> ((tv', w'), tv, w) \<in> inv_image ((edge_relation workflow)\<inverse>) (\<lambda>(tv, _). tv_current tv)
       | Inr r \<Rightarrow> inv (rw_broker w'))" by blast
qed

end

subsection \<open>The path of a completed workflow\<close>

text \<open>The nodes entered so far and the edges taken form a path from the start node to the current
  node.\<close>

definition on_path :: "WorkflowDefinition \<Rightarrow> WorkflowNode list \<Rightarrow> Traversal \<Rightarrow> bool" where
  "on_path workflow path tv \<longleftrightarrow>
     set path \<subseteq> set (wd_nodes workflow) \<and> set (tv_traversed tv) \<subseteq> edge_record ` set (wd_edges workflow)
     \<and> tv_visited tv = map (\<lambda>(i, node). completed_record i node) (enumerate 0 path) \<and> tv_step_index tv = length path
     \<and> map te_from (tv_traversed tv) = map wn_node_id path
     \<and> map wn_node_id path @ [tv_current tv] = wd_start_node workflow # map te_to (tv_traversed tv)"

definition completed_path :: "WorkflowDefinition \<Rightarrow> WorkflowNode list \<Rightarrow> WorkflowTraversalEdgeRecord list \<Rightarrow> bool" where
  "completed_path workflow path traversed \<longleftrightarrow>
     path \<noteq> [] \<and> set path \<subseteq> set (wd_nodes workflow) \<and> set traversed \<subseteq> edge_record ` set (wd_edges workflow)
     \<and> map te_from traversed = map wn_node_id (butlast path)
     \<and> map wn_node_id path = wd_start_node workflow # map te_to traversed
     \<and> wn_node_id (last path) \<in> set (wd_terminal_nodes workflow)"

lemma edge_record_ends [simp]: "te_from (edge_record edge) = we_from edge" "te_to (edge_record edge) = we_to edge"
  by (simp_all add: edge_record_def)

lemma enumerate_0_snoc: "enumerate 0 (xs @ [x]) = enumerate 0 xs @ [(length xs, x)]"
  by (simp add: enumerate_append_eq)

lemma workflow_step_on_path:
  assumes "on_path workflow path tv" "workflow_step host request workflow tv w = Some (Inl tv', w')"
  shows "\<exists>path. on_path workflow path tv'"
proof -
  obtain node tv1 node_emitted w1 where node: "find (\<lambda>node. wn_node_id node = tv_current tv) (wd_nodes workflow) = Some node"
    and v: "tv_visited tv1 = tv_visited tv @ [completed_record (tv_step_index tv) node]" "tv_traversed tv1 = tv_traversed tv"
      "tv_step_index tv1 = tv_step_index tv"
    and n: "next_edge host request workflow node node_emitted tv1 w1 = Some (Inl tv', w')"
    by (rule workflow_step_node [OF assms(2)]) auto
  from node have id: "wn_node_id node = tv_current tv" "node \<in> set (wd_nodes workflow)" by (auto simp: find_Some_iff)
  from next_edge_continues [OF n] obtain edge where "edge \<in> set (wd_edges workflow)" "we_from edge = wn_node_id node"
    "tv_current tv' = we_to edge" "tv_visited tv' = tv_visited tv1" "tv_traversed tv' = tv_traversed tv1 @ [edge_record edge]"
    "tv_step_index tv' = Suc (tv_step_index tv1)" by auto
  with assms(1) v id have "on_path workflow (path @ [node]) tv'"
    by (simp add: on_path_def enumerate_0_snoc)
  then show ?thesis by blast
qed

lemma workflow_step_completes:
  assumes "on_path workflow path tv" "workflow_step host request workflow tv w = Some (Inr (Ok outcome), w')"
  shows "\<exists>path output. completed_path workflow path (traversed_edges (wo_evidence outcome))
    \<and> visited_nodes (wo_evidence outcome) = map (\<lambda>(i, node). completed_record i node) (enumerate 0 path)
    \<and> wr_status (wo_result outcome) = WfCompleted \<and> wr_output (wo_result outcome) = Some output
    \<and> conforms output (sc_schema (wd_outputs workflow))"
proof -
  obtain node tv1 node_emitted w1 where node: "find (\<lambda>node. wn_node_id node = tv_current tv) (wd_nodes workflow) = Some node"
    and v: "tv_visited tv1 = tv_visited tv @ [completed_record (tv_step_index tv) node]" "tv_traversed tv1 = tv_traversed tv"
    and n: "next_edge host request workflow node node_emitted tv1 w1 = Some (Inr (Ok outcome), w')"
    by (rule workflow_step_node [OF assms(2)]) auto
  from node have id: "wn_node_id node = tv_current tv" "node \<in> set (wd_nodes workflow)" by (auto simp: find_Some_iff)
  from next_edge_completes [OF n] obtain tv2 where
    "outcome = completed_workflow request workflow (final_workflow_output (tv_state tv2) (wd_output_projection workflow)) tv2"
    "conforms (final_workflow_output (tv_state tv2) (wd_output_projection workflow)) (sc_schema (wd_outputs workflow))"
    "wn_node_id node \<in> set (wd_terminal_nodes workflow)" "tv_visited tv2 = tv_visited tv1" "tv_traversed tv2 = tv_traversed tv1"
    by blast
  with assms(1) v id have "completed_path workflow (path @ [node]) (traversed_edges (wo_evidence outcome))
      \<and> visited_nodes (wo_evidence outcome) = map (\<lambda>(i, node). completed_record i node) (enumerate 0 (path @ [node]))
      \<and> wr_status (wo_result outcome) = WfCompleted
      \<and> wr_output (wo_result outcome) = Some (final_workflow_output (tv_state tv2) (wd_output_projection workflow))
      \<and> conforms (final_workflow_output (tv_state tv2) (wd_output_projection workflow)) (sc_schema (wd_outputs workflow))"
    by (simp add: on_path_def completed_path_def completed_workflow_def enumerate_0_snoc)
  then show ?thesis by blast
qed

lemma traverse_completes:
  assumes "traverse_workflow host request workflow w = Some (Ok outcome, w')"
  shows "\<exists>path output. completed_path workflow path (traversed_edges (wo_evidence outcome))
    \<and> visited_nodes (wo_evidence outcome) = map (\<lambda>(i, node). completed_record i node) (enumerate 0 path)
    \<and> wr_status (wo_result outcome) = WfCompleted \<and> wr_output (wo_result outcome) = Some output
    \<and> conforms output (sc_schema (wd_outputs workflow))"
proof -
  have "on_path workflow [] (initial_traversal request workflow)" by (simp add: on_path_def initial_traversal_def)
  then have "\<exists>path. on_path workflow path (initial_traversal request workflow)" by blast
  from iterate_steps_result [OF assms [unfolded traverse_workflow_def], where P = "\<lambda>tv _. \<exists>path. on_path workflow path tv", OF this]
    workflow_step_on_path
  obtain tv0 w0 path where "on_path workflow path tv0" "workflow_step host request workflow tv0 w0 = Some (Inr (Ok outcome), w')"
    by (metis fst_conv snd_conv)
  then show ?thesis by (rule workflow_step_completes)
qed

subsection \<open>The executor is only consulted for admitted calls\<close>

lemma hydrate_ignores_executor [simp]: "runtime_hydrate (host\<lparr>rh_execute := exec\<rparr>) = runtime_hydrate host"
  by (simp add: fun_eq_iff runtime_hydrate_def hydration_platform_def)

lemma executor_update_fields:
  "rh_broker (host\<lparr>rh_execute := exec\<rparr>) = rh_broker host" "rh_read (host\<lparr>rh_execute := exec\<rparr>) = rh_read host"
  "rh_security (host\<lparr>rh_execute := exec\<rparr>) = rh_security host" "rh_mode (host\<lparr>rh_execute := exec\<rparr>) = rh_mode host"
  "rh_registry (host\<lparr>rh_execute := exec\<rparr>) = rh_registry host" "rh_index (host\<lparr>rh_execute := exec\<rparr>) = rh_index host"
  "rh_workflow_registry (host\<lparr>rh_execute := exec\<rparr>) = rh_workflow_registry host"
  "rh_indexed_workflows (host\<lparr>rh_execute := exec\<rparr>) = rh_indexed_workflows host"
  by simp_all

lemma gates_ignore_executor:
  "resolve_node (host\<lparr>rh_execute := exec\<rparr>) = resolve_node host"
  "admit_node (host\<lparr>rh_execute := exec\<rparr>) = admit_node host"
  "evaluate_waiting_edges (host\<lparr>rh_execute := exec\<rparr>) = evaluate_waiting_edges host"
  unfolding resolve_node_def admit_node_def evaluate_waiting_edges_def fun_eq_iff executor_update_fields hydrate_ignores_executor
  by (intro allI, rule refl)+

lemma next_edge_ignores_executor: "next_edge (host\<lparr>rh_execute := exec\<rparr>) = next_edge host"
  unfolding next_edge_def fun_eq_iff gates_ignore_executor by (intro allI, rule refl)

lemma run_node_agree:
  "exec (rw_host w) capability (node_input (tv_state tv) node) = rh_execute host (rw_host w) capability (node_input (tv_state tv) node) \<Longrightarrow>
     run_node (host\<lparr>rh_execute := exec\<rparr>) request node capability tv w = run_node host request node capability tv w"
  by (simp add: run_node_def Let_def split: prod.split sum.split)

lemma workflow_step_agree:
  assumes "\<And>h capability input. admitted_call host h capability input \<Longrightarrow> exec h capability input = rh_execute host h capability input"
  shows "workflow_step (host\<lparr>rh_execute := exec\<rparr>) request workflow = workflow_step host request workflow"
proof (intro ext)
  fix tv w
  have run: "run_node (host\<lparr>rh_execute := exec\<rparr>) request node capability tv' w' = run_node host request node capability tv' w'"
    if "admit_node host request node capability (rw_host w') tv0 = Inr tv'" for node capability tv0 tv' w'
    by (rule run_node_agree, rule assms, rule admit_node_Ok(1) [OF that])
  show "workflow_step (host\<lparr>rh_execute := exec\<rparr>) request workflow tv w = workflow_step host request workflow tv w"
    unfolding workflow_step_def gates_ignore_executor next_edge_ignores_executor Let_def
    by (auto split: option.split sum.split prod.split simp: run)
qed

lemma execute_workflow_agree:
  assumes "\<And>h capability input. admitted_call host h capability input \<Longrightarrow> exec h capability input = rh_execute host h capability input"
  shows "execute_workflow (host\<lparr>rh_execute := exec\<rparr>) request w = execute_workflow host request w"
proof -
  have traverse: "traverse_workflow (host\<lparr>rh_execute := exec\<rparr>) = traverse_workflow host"
    by (simp add: fun_eq_iff traverse_workflow_def workflow_step_agree [OF assms])
  show ?thesis unfolding execute_workflow_def traverse executor_update_fields by (rule refl)
qed

end
