(* ===== verification/Runtime.thy ===== *)
theory Runtime
  imports Router Workflows
begin

text \<open>
  \<^verbatim>\<open>Runtime::execute\<close> of \<^verbatim>\<open>crates/traverse-runtime/src/lib.rs\<close>: candidate resolution, the gates before
  an execution, the execution of a capability through the placement router or of a workflow
  through the traversal, the lifecycle event, and the messages a browser subscription derives from
  an outcome.

  Resolution of version ranges and dependencies and discovery belong to the registry package and
  are fields of \<open>RuntimeHost\<close>; the usage telemetry that the registry reports is left out. An execution
  is an option because a workflow may not terminate.
\<close>

section \<open>Definitions\<close>

definition RUNTIME_EXECUTION_EVENT_TYPE :: string where
  "RUNTIME_EXECUTION_EVENT_TYPE = ''dev.traverse.runtime.execution.completed''"

subsection \<open>The fallback broker\<close>

text \<open>\<^verbatim>\<open>DiscardEventBroker\<close>, which has no state and accepts only publications.\<close>

definition discard_event_broker :: "unit EventBroker" where
  "discard_event_broker =
     \<lparr>eb_publish = (\<lambda>b event. (Ok (), b)),
      eb_subscribe = (\<lambda>b event_type cursor. (Err (UnregisteredEventType event_type), b)),
      eb_poll = (\<lambda>b subscription n. (Err (SubscriptionNotFound subscription), b)),
      eb_cancel = (\<lambda>b subscription. (Err (SubscriptionNotFound subscription), b))\<rparr>"

interpretation discard: event_broker discard_event_broker "\<lambda>_. True" "\<lambda>_ _. 0"
  by unfold_locales (simp_all add: discard_event_broker_def)

subsection \<open>Candidates\<close>

fun entry_lookup :: "RegistryScope \<Rightarrow> LookupScope" where
  "entry_lookup PublicScope = PublicOnly"
| "entry_lookup PrivateScope = PreferPrivate"

text \<open>\<^verbatim>\<open>capability_id.or(intent_key).unwrap_or_default()\<close>\<close>

definition intent_target :: "RuntimeIntent \<Rightarrow> string" where
  "intent_target intent =
     (case ri_capability_id intent of
        Some capability \<Rightarrow> capability
      | None \<Rightarrow> (case ri_intent_key intent of Some k \<Rightarrow> k | None \<Rightarrow> ''''))"

definition ranged_target :: "RuntimeIntent \<Rightarrow> (string \<times> string) option" where
  "ranged_target intent =
     (case (ri_capability_id intent, ri_version_range intent) of
        (Some capability, Some version_range) \<Rightarrow> if non_empty capability \<and> non_empty version_range then Some (capability, version_range) else None
      | _ \<Rightarrow> None)"

definition collect_candidates :: "('h, 'b) RuntimeHost \<Rightarrow> RuntimeRequest \<Rightarrow> ResolvedCapability list" where
  "collect_candidates host request =
     (let scope = map_lookup_scope (rl_scope (rq_lookup request)); intent = rq_intent request
      in if is_exact_target intent
         then (case (ri_capability_id intent, ri_capability_version intent) of
                 (Some capability, Some version) \<Rightarrow>
                   (case rh_registry host scope capability version of Some found \<Rightarrow> [found] | None \<Rightarrow> [])
               | _ \<Rightarrow> [])
         else (case ranged_target intent of
                 Some (capability, version_range) \<Rightarrow>
                   (case rh_resolve_range host capability version_range scope of
                      Some (entry_scope, found_id, found_version) \<Rightarrow>
                        (case rh_registry host (entry_lookup entry_scope) found_id found_version of
                           Some found \<Rightarrow> [found] | None \<Rightarrow> [])
                    | None \<Rightarrow> [])
               | None \<Rightarrow>
                   List.map_filter (\<lambda>(entry_scope, entry_id, entry_version).
                       rh_registry host (entry_lookup entry_scope) entry_id entry_version)
                     (filter (\<lambda>(_, entry_id, _). entry_id = intent_target intent) (rh_discover host scope))))"

text \<open>\<^verbatim>\<open>sort_by\<close> on versions, which keeps the order of equal versions.\<close>

fun insert_version :: "(string \<Rightarrow> string \<Rightarrow> bool) \<Rightarrow> IndexedCapability \<Rightarrow> IndexedCapability list \<Rightarrow> IndexedCapability list" where
  "insert_version le entry [] = [entry]"
| "insert_version le entry (other # rest) =
     (if le (ic_capability_version entry) (ic_capability_version other) then entry # other # rest
      else other # insert_version le entry rest)"

definition sort_versions :: "(string \<Rightarrow> string \<Rightarrow> bool) \<Rightarrow> IndexedCapability list \<Rightarrow> IndexedCapability list" where
  "sort_versions le entries = foldr (insert_version le) entries []"

text \<open>The loop over all matching entries, which stops at the first that cannot be hydrated.\<close>

fun hydrate_entries ::
  "('h, 'b) RuntimeHost \<Rightarrow> IndexedCapability list \<Rightarrow> ResolvedCapability list \<Rightarrow> ('h, 'b) RuntimeWorld \<Rightarrow>
     (ResolvedCapability list, HydrationError) result \<times> ('h, 'b) RuntimeWorld" where
  "hydrate_entries host [] resolved w = (Ok resolved, w)"
| "hydrate_entries host (entry # rest) resolved w =
     (case runtime_hydrate host (ic_capability_id entry) (ic_capability_version entry) w of
        (Inl error, w) \<Rightarrow> (Err error, w)
      | (Inr capability, w) \<Rightarrow> hydrate_entries host rest (resolved @ [capability]) w)"

definition collect_indexed_candidates ::
  "('h, 'b) RuntimeHost \<Rightarrow> RuntimeRequest \<Rightarrow> ('h, 'b) RuntimeWorld \<Rightarrow>
     (ResolvedCapability list, HydrationError) result \<times> ('h, 'b) RuntimeWorld" where
  "collect_indexed_candidates host request w =
     (let intent = rq_intent request; index = rh_index host
      in if is_exact_target intent
         then (let capability = the (ri_capability_id intent); version = the (ri_capability_version intent)
               in if index_get index capability version = None then (Ok [], w)
                  else (case runtime_hydrate host capability version w of
                          (Inl error, w) \<Rightarrow> (Err error, w) | (Inr found, w) \<Rightarrow> (Ok [found], w)))
         else (case ranged_target intent of
                 Some (capability, version_range) \<Rightarrow>
                   (case rh_version_req host version_range of
                      None \<Rightarrow> (Ok [], w)
                    | Some requirement \<Rightarrow>
                        (let matched = sort_versions (rh_version_le host)
                               (filter (\<lambda>entry. ic_capability_id entry = capability
                                   \<and> rh_semver_ok host (ic_capability_version entry) \<and> requirement (ic_capability_version entry))
                                  (index_entries index))
                         in if matched = [] then (Ok [], w)
                            else (case runtime_hydrate host (ic_capability_id (last matched)) (ic_capability_version (last matched)) w of
                                    (Inl error, w) \<Rightarrow> (Err error, w) | (Inr found, w) \<Rightarrow> (Ok [found], w))))
               | None \<Rightarrow>
                   hydrate_entries host (filter (\<lambda>entry. ic_capability_id entry = intent_target intent) (index_entries index)) [] w))"

definition eligible_candidates :: "ResolvedCapability list \<Rightarrow> ResolvedCapability list" where
  "eligible_candidates discovered =
     List.map_filter (\<lambda>candidate. case evaluate_candidate candidate of
        Eligible capability \<Rightarrow> Some capability | RejectedCandidate _ _ \<Rightarrow> None) discovered"

definition rejected_candidates :: "ResolvedCapability list \<Rightarrow> RejectedRuntimeCandidate list" where
  "rejected_candidates discovered =
     List.map_filter (\<lambda>candidate. case evaluate_candidate candidate of
        Eligible _ \<Rightarrow> None
      | RejectedCandidate rejected reason \<Rightarrow>
          Some \<lparr>rj_capability_id = rec_id (rc_record rejected), rj_capability_version = rec_version (rc_record rejected),
                rj_scope = map_registry_scope (rec_scope (rc_record rejected)), rj_reason = reason\<rparr>) discovered"

text \<open>The registry first; the persisted index only when the registry has nothing.\<close>

definition discover_candidates ::
  "('h, 'b) RuntimeHost \<Rightarrow> RuntimeRequest \<Rightarrow> ('h, 'b) RuntimeWorld \<Rightarrow>
     ResolvedCapability list \<times> HydrationError option \<times> ('h, 'b) RuntimeWorld" where
  "discover_candidates host request w =
     (let registered = collect_candidates host request
      in if registered = [] \<and> index_entries (rh_index host) \<noteq> []
         then (case collect_indexed_candidates host request w of
                 (Inl error, w) \<Rightarrow> ([], Some error, w)
               | (Inr indexed_candidates, w) \<Rightarrow> (indexed_candidates, None, w))
         else (registered, None, w))"

definition resolve_candidates ::
  "('h, 'b) RuntimeHost \<Rightarrow> RuntimeRequest \<Rightarrow> StateEmitter \<Rightarrow> ('h, 'b) RuntimeWorld \<Rightarrow>
     CandidateResolution \<times> StateEmitter \<times> ('h, 'b) RuntimeWorld" where
  "resolve_candidates host request emitter w =
     (let reason = (if is_exact_target (rq_intent request) then ExactMatch else IntentMatch);
          (discovered, hydration_failure, w) = discover_candidates host request w;
          emitter = (if discovered = [] then emitter
                     else push emitter EvaluatingConstraints CandidatesCollected
                            (json_obj [(''candidate_count'', JNumber (PosInt (length discovered)))]));
          eligible = eligible_candidates discovered;
          rejected = rejected_candidates discovered;
          emitter = (if eligible = [] then emitter
                     else push emitter Selecting ConstraintsEvaluated
                            (json_obj [(''eligible_candidates'', JNumber (PosInt (length eligible))),
                                       (''rejected_candidates'', JNumber (PosInt (length rejected)))]))
      in (\<lparr>cr_eligible = eligible,
           cr_collection = \<lparr>lookup_scope = rl_scope (rq_lookup request),
             col_candidates = map (\<lambda>c. runtime_candidate c reason) eligible, col_rejected_candidates = rejected\<rparr>,
           cr_candidate_reason = reason, cr_hydration_failure = hydration_failure\<rparr>, emitter, w))"

subsection \<open>Execution\<close>

definition router_request_of :: "ExecutionContext \<Rightarrow> ResolvedCapability \<Rightarrow> StartedExecution \<Rightarrow> RouterRequest" where
  "router_request_of context selected started =
     \<lparr>qr_capability_id = rec_id (rc_record selected), qr_artifact_type = artifact_type_for selected,
      qr_contract = rc_contract selected,
      qr_target_hint = Some (execution_target_from_placement (effective_target (se_placement started))),
      qr_runtime_snapshot = idle_runtime_snapshot, qr_input = rq_input (at_request (ec_attempt context)),
      qr_executor_capability = executor_capability_for selected (artifact_type_for selected),
      qr_trace_id_override = Some (at_trace_id (ec_attempt context))\<rparr>"

definition execute_started_selection ::
  "('h, 'b) RuntimeHost \<Rightarrow> ExecutionContext \<Rightarrow> ResolvedCapability \<Rightarrow> PlacementDecisionRecord \<Rightarrow> ('h, 'b) RuntimeWorld \<Rightarrow>
     (RuntimeExecutionOutcome \<times> ('h, 'b) RuntimeWorld) option" where
  "execute_started_selection host context selected placement w =
     (let (started, emitter) = start_selected_execution (ec_emitter context) selected placement
            (rx_identity (rq_context (at_request (ec_attempt context))));
          context = context\<lparr>ec_emitter := emitter\<rparr>;
          failure_state = (\<lambda>reason. \<lparr>ef_artifact_ref = rec_artifact_ref (rc_record selected),
            ef_started_at = se_started_at started, ef_placement = se_placement started, ef_failure_reason = reason\<rparr>)
      in if rec_implementation_kind (rc_record selected) = WorkflowKind
         then execute_workflow_capability host context selected started w
         else (case execute_with_executor host None (router_request_of context selected started)
                      (bound_local_executor (rh_execute host) selected) w of
                 (Inr response, w) \<Rightarrow>
                   (case validate_payload_against_contract (rp_output response) (sc_schema (cc_outputs (rc_contract selected)))
                           OutputValidationFailed ''executor output does not satisfy the selected capability output contract'' of
                      Inl error \<Rightarrow> Some (execution_failure_outcome context (failure_state ContractOutputInvalid) error [] None, w)
                    | Inr _ \<Rightarrow>
                        Some (successful_execution_outcome (rh_json_text host) context selected started (rp_output response)
                          (map (\<lambda>event. \<lparr>er_event_id = te_event_type event, er_version = te_version event\<rparr>)
                             (rp_emitted_events response)) None, w))
               | (Inl error, w) \<Rightarrow>
                   (let (rt_error, reason, emitted) = map_router_error error
                    in Some (execution_failure_outcome context (failure_state reason) rt_error emitted None, w))))"

definition draft_error :: "ResolvedCapability \<Rightarrow> RuntimeError" where
  "draft_error selected =
     runtime_error ContractViolationError ''draft artifacts are not executable''
       (json_obj [(''violations'', JArray [json_obj
          [(''violation_code'', JString ''draft_artifact_not_executable''),
           (''path'', JString (rec_contract_path (rc_record selected))),
           (''message'', JString ''draft artifacts are quarantined under drafts/ and must not be executable'')]])])"

text \<open>\<^verbatim>\<open>cycle.join(" -> ")\<close>\<close>

fun join_arrow :: "string list \<Rightarrow> string" where
  "join_arrow [] = []"
| "join_arrow [part] = part"
| "join_arrow (part # next_part # rest) = part @ '' -> '' @ join_arrow (next_part # rest)"

definition dependency_error :: "ResolutionError \<Rightarrow> RuntimeError" where
  "dependency_error dep_error =
     (let (detail_id, detail_version) =
            (case dep_error of
               MissingDependency capability required_version \<Rightarrow> (capability, required_version)
             | CircularDependency cycle \<Rightarrow> (join_arrow cycle, '''')
             | MaxTransitiveDepthExceeded depth chain \<Rightarrow> (''depth='' @ show_nat depth, join_arrow chain))
      in runtime_error RtCapabilityNotFound ''dependency resolution failed before execution''
           (json_obj [(''dependency_id'', JString detail_id), (''required_version'', JString detail_version)]))"

text \<open>The gates of \<^verbatim>\<open>execute_selected\<close>, in their order: drafts, placement, artifact bytes, artifact
  verification, dependencies, input. The context that goes on carries the verification and its
  warning.\<close>

definition verified_context :: "ExecutionContext \<Rightarrow> ArtifactVerificationRecord \<Rightarrow> ExecutionContext" where
  "verified_context context verification =
     (let attempt = ec_attempt context
      in context\<lparr>ec_attempt := attempt
           \<lparr>at_warnings := at_warnings attempt @
              (case av_warning_code verification of None \<Rightarrow> [] | Some code \<Rightarrow> [unsigned_warning code]),
            at_artifact_verification := Some verification\<rparr>\<rparr>)"

definition admit_selected ::
  "('h, 'b) RuntimeHost \<Rightarrow> ExecutionContext \<Rightarrow> ResolvedCapability \<Rightarrow> 'h \<Rightarrow>
     (ExecutionContext \<times> PlacementDecisionRecord, ExecutionContext \<times> PreExecutionFailure) result" where
  "admit_selected host context selected h =
     (let request = at_request (ec_attempt context);
          requested_target = rx_requested_target (rq_context request);
          failed = (\<lambda>context reason placement error verification. Err (context,
            \<lparr>pf_artifact_ref = Some (rec_artifact_ref (rc_record selected)), pf_failure_reason = reason,
             pf_placement = placement, pf_error = error, pf_artifact_verification = verification\<rparr>))
      in if contains_drafts_segment (rec_contract_path (rc_record selected))
         then failed context ArtifactNotRunnable (placement_not_attempted requested_target SelectionNotReached)
                (draft_error selected) None
         else (case resolve_placement requested_target of
                 Inl error \<Rightarrow> failed context PlacementUnsupported
                   (placement_not_attempted requested_target RequestedTargetUnsupported) error None
               | Inr placement \<Rightarrow>
         (case load_artifact_bytes_for_verification (rh_read host h) selected of
            Inl error \<Rightarrow> failed context ArtifactMissing placement error None
          | Inr bytes \<Rightarrow>
         (case verify_artifact (rh_security host) selected bytes (rh_mode host) of
            Inl failure \<Rightarrow> failed context ArtifactNotRunnable placement (artifact_verification_runtime_error failure)
              (Some (failure_record failure))
          | Inr verification \<Rightarrow>
         (let context = verified_context context verification
          in case rh_resolve_dependencies host (rec_id (rc_record selected)) (cc_dependencies (rc_contract selected))
                    (map_lookup_scope (rl_scope (rq_lookup request))) of
               Inl error \<Rightarrow> failed context ArtifactMissing placement (dependency_error error) (Some verification)
             | Inr _ \<Rightarrow>
         (case and_then (validate_payload_against_contract (rq_input request) (sc_schema (cc_inputs (rc_contract selected)))
                           RequestInvalid ''runtime request input does not satisfy the selected capability input contract'')
                 (\<lambda>_. canonical_input_check (rq_input request)) of
            Inl error \<Rightarrow> failed context ContractInputInvalid placement error (Some verification)
          | Inr _ \<Rightarrow> Ok (context, placement)))))))"

definition execute_selected ::
  "('h, 'b) RuntimeHost \<Rightarrow> ExecutionContext \<Rightarrow> ResolvedCapability \<Rightarrow> ('h, 'b) RuntimeWorld \<Rightarrow>
     (RuntimeExecutionOutcome \<times> ('h, 'b) RuntimeWorld) option" where
  "execute_selected host context selected w =
     (case admit_selected host context selected (rw_host w) of
        Inl (context, failure) \<Rightarrow> Some (pre_execution_failure_outcome context failure, w)
      | Inr (context, placement) \<Rightarrow> execute_started_selection host context selected placement w)"

subsection \<open>The lifecycle event\<close>

fun result_status_json :: "RuntimeResultStatus \<Rightarrow> json" where
  "result_status_json ResultCompleted = JString ''completed''"
| "result_status_json ResultError = JString ''error''"

definition lifecycle_event :: "('h, 'b) RuntimeHost \<Rightarrow> nat \<Rightarrow> RuntimeResult \<Rightarrow> RuntimeIdentity option \<Rightarrow> TraverseEvent" where
  "lifecycle_event host tick result identity =
     \<lparr>te_id = rh_uuid host tick, te_source = ''traverse-runtime'', te_event_type = RUNTIME_EXECUTION_EVENT_TYPE,
      te_datacontenttype = ''application/json'', te_time = rh_now host tick,
      te_data = json_obj [(''execution_id'', JString (rr_execution_id result)), (''request_id'', JString (rr_request_id result)),
        (''status'', result_status_json (rr_status result)), (''trace_ref'', JString (rr_trace_ref result))],
      te_owner = ''traverse-runtime'', te_version = RUNTIME_SCHEMA_VERSION, te_lifecycle_status = EventActive,
      te_deduplication_id = Some (rr_execution_id result), te_ordering_scope = Some (rr_request_id result),
      te_correlation_id = Some (rr_request_id result), te_causation_id = Some (rr_request_id result),
      te_subject_id = map_option subject_id identity, te_actor_id = Option.bind identity actor_id\<rparr>"

definition add_warning :: "RuntimeWarning \<Rightarrow> RuntimeExecutionOutcome \<Rightarrow> RuntimeExecutionOutcome" where
  "add_warning warning outcome =
     (let result = ro_result outcome; trace = ro_trace outcome
      in outcome\<lparr>ro_result := result\<lparr>rr_warnings := rr_warnings result @ [warning]\<rparr>,
                 ro_trace := trace\<lparr>rt_result := (rt_result trace)\<lparr>trr_warnings := trr_warnings (rt_result trace) @ [warning]\<rparr>\<rparr>\<rparr>)"

definition emit_execution_lifecycle_event ::
  "('h, 'b) RuntimeHost \<Rightarrow> RuntimeExecutionOutcome \<Rightarrow> RuntimeIdentity option \<Rightarrow> ('h, 'b) RuntimeWorld \<Rightarrow>
     RuntimeExecutionOutcome \<times> ('h, 'b) RuntimeWorld" where
  "emit_execution_lifecycle_event host outcome identity w =
     (case rh_emit host (rw_host w) (lifecycle_event host (rw_tick w) (ro_result outcome) identity) of
        (r, h) \<Rightarrow>
          (case r of
             Inr _ \<Rightarrow> outcome
           | Inl error \<Rightarrow> add_warning \<lparr>warning_code = ''runtime_event_sink_delivery_failed'',
                            warning_message = event_error_display error\<rparr> outcome,
           w\<lparr>rw_host := h, rw_tick := Suc (rw_tick w)\<rparr>))"

subsection \<open>The whole execution\<close>

definition selected_record :: "ResolvedCapability \<Rightarrow> SelectionRecord" where
  "selected_record selected =
     \<lparr>sel_status = SelSelected, selected_capability_id = Some (rec_id (rc_record selected)),
      selected_capability_version = Some (rec_version (rc_record selected)), sel_failure_reason = None,
      remaining_candidates = []\<rparr>"

definition run_attempt ::
  "('h, 'b) RuntimeHost \<Rightarrow> AttemptContext \<Rightarrow> StateEmitter \<Rightarrow> ('h, 'b) RuntimeWorld \<Rightarrow>
     (RuntimeExecutionOutcome \<times> ('h, 'b) RuntimeWorld) option" where
  "run_attempt host attempt emitter w =
     (case validate_request (rh_semver_ok host) (at_request attempt) of
        Some error \<Rightarrow> Some (invalid_request_outcome attempt emitter error, w)
      | None \<Rightarrow>
          (let (resolution, emitter, w) = resolve_candidates host (at_request attempt) emitter w
           in case cr_hydration_failure resolution of
                Some error \<Rightarrow> Some (hydration_failure_outcome attempt emitter (cr_collection resolution) error, w)
              | None \<Rightarrow>
                  (case cr_eligible resolution of
                     [] \<Rightarrow> Some (no_eligible_outcome attempt emitter (cr_collection resolution), w)
                   | [selected] \<Rightarrow>
                       execute_selected host
                         \<lparr>ec_attempt = attempt, ec_emitter = emitter, ec_candidate_collection = cr_collection resolution,
                          ec_selection = selected_record selected\<rparr> selected w
                   | _ # _ # _ \<Rightarrow> Some (ambiguous_outcome attempt emitter resolution, w))))"

definition start_attempt :: "('h, 'b) RuntimeHost \<Rightarrow> RuntimeRequest \<Rightarrow> AttemptContext \<times> StateEmitter" where
  "start_attempt host request =
     (let (attempt, emitter) = begin_attempt (rh_security host) request (rh_observability host)
      in (attempt, push emitter Discovering RequestStarted
            (json_obj [(''lookup_scope'', scope_json (rl_scope (rq_lookup (at_request attempt)))),
                       (''identity'', opt_json identity_json (rx_identity (rq_context (at_request attempt))))])))"

definition runtime_execute ::
  "('h, 'b) RuntimeHost \<Rightarrow> RuntimeRequest \<Rightarrow> ('h, 'b) RuntimeWorld \<Rightarrow>
     (RuntimeExecutionOutcome \<times> ('h, 'b) RuntimeWorld) option" where
  "runtime_execute host request w =
     (let identity = rx_identity (rq_context request);
          (attempt, emitter) = start_attempt host request
      in map_option (\<lambda>(outcome, w). emit_execution_lifecycle_event host outcome identity w)
           (run_attempt host attempt emitter w))"

section \<open>Well-formed outcomes\<close>

text \<open>The states an emitter has entered, for an emitter that has refused no transition.\<close>

definition emitter_at :: "AttemptContext \<Rightarrow> RuntimeState list \<Rightarrow> StateEmitter \<Rightarrow> bool" where
  "emitter_at attempt entered e \<longleftrightarrow>
     emitter_ok e \<and> map to_state (em_transitions e) = entered \<and> entered \<noteq> [] \<and> current_state e = last entered
     \<and> em_execution_id e = at_execution_id attempt \<and> em_request_id e = rq_request_id (at_request attempt)"

definition attempt_ok :: "AttemptContext \<Rightarrow> bool" where
  "attempt_ok attempt \<longleftrightarrow>
     at_execution_id attempt = EXECUTION_PREFIX @ rq_request_id (at_request attempt)
     \<and> at_trace_id attempt = TRACE_PREFIX @ at_execution_id attempt"

text \<open>The states of an execution, by how far it got.\<close>

definition started_states :: "RuntimeState list" where
  "started_states = [LoadingRegistry, Ready, Discovering]"

fun run_states :: "ExecutionStatus \<Rightarrow> RuntimeState list set" where
  "run_states NotStarted = {started_states @ reached @ [ErrorState, Ready] | reached.
     reached \<in> {[], [EvaluatingConstraints], [EvaluatingConstraints, Selecting]}}"
| "run_states ExecFailed = {started_states @ [EvaluatingConstraints, Selecting, Executing, ErrorState, Ready]}"
| "run_states Succeeded = {started_states @ [EvaluatingConstraints, Selecting, Executing] @ emitting @ [Completed, Ready] | emitting.
     emitting \<in> {[], [EmittingEvents]}}"

text \<open>The copies of the trace agree with the result.\<close>

definition copies_agree :: "RuntimeExecutionOutcome \<Rightarrow> bool" where
  "copies_agree outcome \<longleftrightarrow>
     (let result = ro_result outcome; trace = ro_trace outcome
      in rr_request_id result = rt_request_id trace \<and> rq_request_id (rt_request trace) = rt_request_id trace
       \<and> rr_execution_id result = EXECUTION_PREFIX @ rr_request_id result \<and> rt_execution_id trace = rr_execution_id result
       \<and> rr_trace_ref result = TRACE_PREFIX @ rr_execution_id result \<and> rt_trace_id trace = rr_trace_ref result
       \<and> trr_status (rt_result trace) = rr_status result \<and> tto_runtime_status (terminal_outcome trace) = rr_status result
       \<and> trr_output (rt_result trace) = rr_output result \<and> trr_warnings (rt_result trace) = rr_warnings result
       \<and> trr_error (rt_result trace) = rr_error result \<and> tto_error (terminal_outcome trace) = rr_error result
       \<and> tto_execution_status (terminal_outcome trace) = ex_status (rt_execution trace)
       \<and> tto_failure_reason (terminal_outcome trace) = ex_failure_reason (rt_execution trace)
       \<and> tsp_state_events (state_progression trace) = ro_state_events outcome
       \<and> tsp_transitions (state_progression trace) = state_transitions trace
       \<and> tsp_validation (state_progression trace) = state_machine_validation trace
       \<and> tde_selection (decision_evidence trace) = rt_selection trace
       \<and> tde_candidate_collection (decision_evidence trace) = rt_candidate_collection trace)"

text \<open>Success and failure exclude each other.\<close>

definition status_ok :: "RuntimeExecutionOutcome \<Rightarrow> bool" where
  "status_ok outcome \<longleftrightarrow>
     (let result = ro_result outcome; execution = rt_execution (ro_trace outcome)
      in if rr_status result = ResultCompleted
         then rr_output result \<noteq> None \<and> rr_error result = None \<and> ex_status execution = Succeeded
              \<and> ex_failure_reason execution = None \<and> ex_output_digest execution \<noteq> None
         else rr_output result = None \<and> rr_error result \<noteq> None \<and> ex_status execution \<noteq> Succeeded
              \<and> ex_failure_reason execution \<noteq> None \<and> ex_output_digest execution = None)"

text \<open>The progression is an accepted path of the state machine with the states of the execution's
  status, and the state events are its image.\<close>

definition progression_ok :: "RuntimeExecutionOutcome \<Rightarrow> bool" where
  "progression_ok outcome \<longleftrightarrow>
     (let trace = ro_trace outcome; transitions = state_transitions trace; events = ro_state_events outcome
      in sm_path RuntimeState.Idle transitions Ready \<and> smv_status (state_machine_validation trace) = Passed
       \<and> map to_state transitions \<in> run_states (ex_status (rt_execution trace))
       \<and> map rse_state events = map to_state transitions \<and> map rse_entered_at events = map occurred_at transitions
       \<and> distinct (map rse_event_id events)
       \<and> (\<forall>event \<in> set events. rse_execution_id event = rt_execution_id trace \<and> rse_request_id event = rt_request_id trace))"

definition outcome_ok :: "RuntimeExecutionOutcome \<Rightarrow> bool" where
  "outcome_ok outcome \<longleftrightarrow> copies_agree outcome \<and> status_ok outcome \<and> progression_ok outcome"

subsection \<open>Emitters\<close>

lemma push_to_states:
  "is_allowed_transition (current_state e) s r \<Longrightarrow>
     map to_state (em_transitions (push e s r d)) = map to_state (em_transitions e) @ [s]"
  by (simp add: push_def try_push_def next_timestamp_def Let_def)

lemma emitter_at_push:
  "emitter_at attempt entered e \<Longrightarrow> is_allowed_transition (last entered) s r \<Longrightarrow> emitter_at attempt (entered @ [s]) (push e s r d)"
  unfolding emitter_at_def by (simp add: push_ok push_to_states)

lemma emitter_at_timestamp: "emitter_at attempt entered e \<Longrightarrow> emitter_at attempt entered (snd (next_timestamp e))"
  unfolding emitter_at_def by (simp add: next_timestamp_ok)

lemma emitter_at_cong:
  "at_execution_id attempt' = at_execution_id attempt \<Longrightarrow> at_request attempt' = at_request attempt \<Longrightarrow>
     emitter_at attempt' = emitter_at attempt"
  by (simp add: emitter_at_def fun_eq_iff)

lemma emitter_at_close_failed:
  "emitter_at attempt entered e \<Longrightarrow> last entered = ErrorState \<Longrightarrow> emitter_at attempt (entered @ [Ready]) (close_failed e)"
  unfolding close_failed_def by (rule emitter_at_push) (simp_all add: allowed_simps)

lemma emitter_at_close_succeeded:
  assumes "emitter_at attempt entered e" "last entered = Executing"
  shows "\<exists>emitting \<in> {[], [EmittingEvents]}. emitter_at attempt (entered @ emitting @ [Completed, Ready]) (close_succeeded selected e)"
proof (cases "rec_implementation_kind (rc_record selected) = WorkflowKind \<or> cc_emits (rc_contract selected) \<noteq> []")
  case True
  have "emitter_at attempt (((entered @ [EmittingEvents]) @ [Completed]) @ [Ready]) (close_succeeded selected e)"
    using True unfolding close_succeeded_def Let_def
    by (simp only: if_True) (intro emitter_at_push assms(1); simp add: assms(2) allowed_simps)
  then show ?thesis by simp
next
  case False
  have "emitter_at attempt ((entered @ [Completed]) @ [Ready]) (close_succeeded selected e)"
    using False unfolding close_succeeded_def Let_def
    by (simp only: if_False) (intro emitter_at_push assms(1); simp add: assms(2) allowed_simps)
  then show ?thesis by simp
qed

lemma finished_progression:
  assumes "emitter_at attempt entered e" "last entered = Ready" "entered \<in> run_states (ex_status (rt_execution (ro_trace outcome)))"
    "state_transitions (ro_trace outcome) = fin_transitions (finish e)" "ro_state_events outcome = fin_events (finish e)"
    "state_machine_validation (ro_trace outcome) = fin_validation (finish e)"
    "rt_execution_id (ro_trace outcome) = at_execution_id attempt"
    "rt_request_id (ro_trace outcome) = rq_request_id (at_request attempt)"
  shows "progression_ok outcome"
proof -
  let ?ts = "em_transitions e"
  have e: "emitter_ok e" "map to_state ?ts = entered" "current_state e = Ready" "em_execution_id e = at_execution_id attempt"
    "em_request_id e = rq_request_id (at_request attempt)"
    using assms(1,2) by (simp_all add: emitter_at_def)
  then have path: "sm_path RuntimeState.Idle ?ts Ready" and none: "em_violations e = []"
    and events: "em_events e = map (\<lambda>(i, t). event_of e i t) (zip [0..<length ?ts] ?ts)"
    by (simp_all add: emitter_ok_def)
  have ids: "map rse_event_id (em_events e) = map (\<lambda>i. ''rse_'' @ em_execution_id e @ ''_'' @ zero_padded 4 i) [0..<length ?ts]"
    unfolding events by (rule nth_equalityI) (simp_all add: event_of_def)
  have "distinct (map rse_event_id (em_events e))"
    unfolding ids by (simp add: distinct_map inj_on_def) (blast dest: zero_padded_inject)
  moreover have "map rse_state (em_events e) = map to_state ?ts"
    unfolding events by (rule nth_equalityI) (simp_all add: event_of_def)
  moreover have "map rse_entered_at (em_events e) = map occurred_at ?ts"
    unfolding events by (rule nth_equalityI) (simp_all add: event_of_def)
  moreover have "\<forall>event \<in> set (em_events e). rse_execution_id event = em_execution_id e \<and> rse_request_id event = em_request_id e"
    unfolding events by (auto simp: event_of_def)
  ultimately show ?thesis
    using assms(3-) path none e by (simp add: progression_ok_def finish_def Let_def)
qed

subsection \<open>Outcomes\<close>

lemma terminal_failure_ok:
  assumes "attempt_ok (fc_attempt c)" "emitter_at (fc_attempt c) entered e" "last entered = Ready"
    "entered \<in> run_states (ex_status (fc_execution c))" "ex_status (fc_execution c) \<noteq> Succeeded"
    "ex_failure_reason (fc_execution c) \<noteq> None" "ex_output_digest (fc_execution c) = None"
    "fc_state_events c = fin_events (finish e)" "fc_state_transitions c = fin_transitions (finish e)"
    "fc_state_machine_validation c = fin_validation (finish e)"
  shows "outcome_ok (terminal_failure c)"
proof -
  have "copies_agree (terminal_failure c)" "status_ok (terminal_failure c)"
    using assms by (simp_all add: copies_agree_def status_ok_def terminal_failure_def Let_def attempt_ok_def)
  moreover have "progression_ok (terminal_failure c)"
    by (rule finished_progression [OF assms(2,3)]) (simp_all add: terminal_failure_def Let_def assms)
  ultimately show ?thesis by (simp add: outcome_ok_def)
qed

lemma emitter_at_failed:
  assumes "emitter_at attempt entered e" "is_allowed_transition (last entered) ErrorState r"
  shows "emitter_at attempt (entered @ [ErrorState, Ready]) (close_failed (push e ErrorState r d))"
  using emitter_at_close_failed [OF emitter_at_push [OF assms]] by simp

lemma not_started_simps [simp]:
  "ex_status (not_started p t a r v i) = NotStarted" "ex_failure_reason (not_started p t a r v i) = Some r"
  "ex_output_digest (not_started p t a r v i) = None"
  by (simp_all add: not_started_def)

lemma invalid_request_outcome_ok:
  assumes "attempt_ok attempt" "emitter_at attempt started_states e"
  shows "outcome_ok (invalid_request_outcome attempt e error)"
proof -
  have "emitter_at attempt (started_states @ [EvaluatingConstraints]) (push e EvaluatingConstraints CandidatesCollected d)" for d
    by (rule emitter_at_push [OF assms(2)]) (simp add: started_states_def allowed_simps)
  then have "emitter_at attempt ((started_states @ [EvaluatingConstraints]) @ [ErrorState, Ready])
      (close_failed (push (push e EvaluatingConstraints CandidatesCollected d) ErrorState ConstraintValidationFailed d'))" for d d'
    by (rule emitter_at_failed) (simp add: allowed_simps)
  then show ?thesis
    unfolding invalid_request_outcome_def Let_def
    by (intro terminal_failure_ok) (auto simp: assms(1))
qed

lemma hydration_failure_outcome_ok:
  assumes "attempt_ok attempt" "emitter_at attempt started_states e"
  shows "outcome_ok (hydration_failure_outcome attempt e collection error)"
proof -
  have "emitter_at attempt (started_states @ [ErrorState, Ready]) (close_failed (push e ErrorState NoMatch d))" for d
    by (rule emitter_at_failed [OF assms(2)]) (simp add: started_states_def allowed_simps)
  then show ?thesis
    unfolding hydration_failure_outcome_def Let_def
    by (intro terminal_failure_ok) (auto simp: assms(1))
qed

lemma no_eligible_outcome_ok:
  assumes "attempt_ok attempt"
    "emitter_at attempt (started_states @ (if col_rejected_candidates collection = [] then [] else [EvaluatingConstraints])) e"
  shows "outcome_ok (no_eligible_outcome attempt e collection)"
proof (cases "col_rejected_candidates collection = []")
  case True
  with assms(2) have at: "emitter_at attempt started_states e" by simp
  have "emitter_at attempt (started_states @ [ErrorState, Ready]) (close_failed (push e ErrorState NoMatch d))" for d
    by (rule emitter_at_failed [OF at]) (simp add: started_states_def allowed_simps)
  then show ?thesis
    unfolding no_eligible_outcome_def Let_def if_P [OF True]
    by (intro terminal_failure_ok [where entered = "started_states @ [ErrorState, Ready]"]) (auto simp: assms(1))
next
  case False
  with assms(2) have at: "emitter_at attempt (started_states @ [EvaluatingConstraints]) e" by simp
  have "emitter_at attempt ((started_states @ [EvaluatingConstraints]) @ [ErrorState, Ready])
      (close_failed (push e ErrorState ConstraintValidationFailed d))" for d
    by (rule emitter_at_failed [OF at]) (simp add: allowed_simps)
  then show ?thesis
    unfolding no_eligible_outcome_def Let_def if_not_P [OF False]
    by (intro terminal_failure_ok [where entered = "(started_states @ [EvaluatingConstraints]) @ [ErrorState, Ready]"])
      (auto simp: assms(1))
qed

lemma ambiguous_outcome_ok:
  assumes "attempt_ok attempt" "emitter_at attempt (started_states @ [EvaluatingConstraints, Selecting]) e"
  shows "outcome_ok (ambiguous_outcome attempt e resolution)"
proof -
  have "emitter_at attempt ((started_states @ [EvaluatingConstraints, Selecting]) @ [ErrorState, Ready])
      (close_failed (push e ErrorState SelectionFailed d))" for d
    by (rule emitter_at_failed [OF assms(2)]) (simp add: allowed_simps)
  then show ?thesis
    unfolding ambiguous_outcome_def Let_def
    by (intro terminal_failure_ok) (auto simp: assms(1))
qed

definition context_at :: "RuntimeState list \<Rightarrow> ExecutionContext \<Rightarrow> bool" where
  "context_at entered context \<longleftrightarrow> attempt_ok (ec_attempt context)
     \<and> emitter_at (ec_attempt context) (started_states @ [EvaluatingConstraints, Selecting] @ entered) (ec_emitter context)"

lemma pre_execution_failure_outcome_ok:
  assumes "context_at [] context"
  shows "outcome_ok (pre_execution_failure_outcome context failure)"
proof -
  have at: "emitter_at (ec_attempt context) (started_states @ [EvaluatingConstraints, Selecting]) (ec_emitter context)"
    and ok: "attempt_ok (ec_attempt context)" using assms by (simp_all add: context_at_def)
  then have "current_state (ec_emitter context) = Selecting" by (simp add: emitter_at_def)
  moreover have "emitter_at (ec_attempt context) ((started_states @ [EvaluatingConstraints, Selecting]) @ [ErrorState, Ready])
      (close_failed (push (ec_emitter context) ErrorState SelectionFailed d))" for d
    by (rule emitter_at_failed [OF at]) (simp add: allowed_simps)
  ultimately show ?thesis
    unfolding pre_execution_failure_outcome_def Let_def
    by (intro terminal_failure_ok) (auto simp: ok)
qed

lemma execution_failure_outcome_ok:
  assumes "context_at [Executing] context"
  shows "outcome_ok (execution_failure_outcome context failure error emitted evidence)"
proof -
  let ?entered = "started_states @ [EvaluatingConstraints, Selecting] @ [Executing]"
  have ok: "attempt_ok (ec_attempt context)" and at: "emitter_at (ec_attempt context) ?entered (ec_emitter context)"
    using assms by (simp_all add: context_at_def)
  have "emitter_at (ec_attempt context) (?entered @ [ErrorState]) (push (ec_emitter context) ErrorState ExecutionFailed d)" for d
    by (rule emitter_at_push [OF at]) (simp add: allowed_simps)
  then have "emitter_at (ec_attempt context) ((?entered @ [ErrorState]) @ [Ready])
      (close_failed (snd (next_timestamp (push (ec_emitter context) ErrorState ExecutionFailed d))))" for d
    by (intro emitter_at_close_failed emitter_at_timestamp) simp_all
  then show ?thesis
    unfolding execution_failure_outcome_def Let_def case_prod_beta
    by (intro terminal_failure_ok) (auto simp: ok)
qed

lemma successful_execution_outcome_ok:
  assumes "context_at [Executing] context"
  shows "outcome_ok (successful_execution_outcome json_text context selected started output emitted evidence)"
proof -
  let ?entered = "started_states @ [EvaluatingConstraints, Selecting] @ [Executing]"
  let ?e = "close_succeeded selected (snd (next_timestamp (ec_emitter context)))"
  have ok: "attempt_ok (ec_attempt context)" and at: "emitter_at (ec_attempt context) ?entered (ec_emitter context)"
    using assms by (simp_all add: context_at_def)
  have "last ?entered = Executing" by simp
  from emitter_at_close_succeeded [OF emitter_at_timestamp [OF at] this]
  obtain emitting where emitting: "emitting \<in> {[], [EmittingEvents]}"
    and closed: "emitter_at (ec_attempt context) (?entered @ emitting @ [Completed, Ready]) ?e" by (rule bexE)
  let ?o = "successful_execution_outcome json_text context selected started output emitted evidence"
  have "progression_ok ?o"
    by (rule finished_progression [OF closed])
      (use emitting in \<open>auto simp: successful_execution_outcome_def Let_def case_prod_beta\<close>)
  moreover have "copies_agree ?o" "status_ok ?o"
    using ok by (simp_all add: copies_agree_def status_ok_def successful_execution_outcome_def Let_def case_prod_beta attempt_ok_def)
  ultimately show ?thesis by (simp add: outcome_ok_def)
qed

lemma add_warning_ok: "outcome_ok outcome \<Longrightarrow> outcome_ok (add_warning warning outcome)"
  by (simp add: outcome_ok_def copies_agree_def status_ok_def progression_ok_def add_warning_def Let_def)

lemma emit_lifecycle_ok: "outcome_ok outcome \<Longrightarrow> outcome_ok (fst (emit_execution_lifecycle_event host outcome identity w))"
  by (simp add: emit_execution_lifecycle_event_def add_warning_ok case_prod_beta split: sum.split)

subsection \<open>The execution\<close>

lemma start_selected_at:
  assumes "context_at [] context" "start_selected_execution (ec_emitter context) selected placement identity = (started, emitter)"
  shows "context_at [Executing] (context\<lparr>ec_emitter := emitter\<rparr>)"
proof -
  have "emitter_at (ec_attempt context) ((started_states @ [EvaluatingConstraints, Selecting]) @ [Executing])
      (push (snd (next_timestamp (ec_emitter context))) Executing CandidateSelected d)" for d
    using assms(1) by (intro emitter_at_push emitter_at_timestamp) (simp_all add: context_at_def allowed_simps)
  then show ?thesis
    using assms by (auto simp: context_at_def start_selected_execution_def Let_def case_prod_beta)
qed

lemma context_at_attempt:
  "at_request attempt = at_request (ec_attempt context) \<Longrightarrow> at_execution_id attempt = at_execution_id (ec_attempt context) \<Longrightarrow>
     at_trace_id attempt = at_trace_id (ec_attempt context) \<Longrightarrow>
     context_at entered (context\<lparr>ec_attempt := attempt\<rparr>) = context_at entered context"
  by (simp add: context_at_def attempt_ok_def emitter_at_cong [of attempt "ec_attempt context"])

lemma execute_workflow_capability_ok:
  assumes "context_at [Executing] context" "execute_workflow_capability host context selected started w = Some (outcome, w')"
  shows "outcome_ok outcome"
  using assms unfolding execute_workflow_capability_def Let_def
  by (auto split: option.splits Option.bind_splits prod.splits WorkflowTraversalStatus.splits
      intro!: execution_failure_outcome_ok successful_execution_outcome_ok simp: context_at_attempt)

lemma execute_started_ok:
  assumes "context_at [] context" "execute_started_selection host context selected placement w = Some (outcome, w')"
  shows "outcome_ok outcome"
proof -
  obtain started emitter where s: "start_selected_execution (ec_emitter context) selected placement
      (rx_identity (rq_context (at_request (ec_attempt context)))) = (started, emitter)"
    by (cases "start_selected_execution (ec_emitter context) selected placement
      (rx_identity (rq_context (at_request (ec_attempt context))))")
  note at = start_selected_at [OF assms(1) s]
  show ?thesis
    using assms(2) unfolding execute_started_selection_def Let_def s prod.case
    by (auto split: if_splits prod.splits sum.splits
        intro: execute_workflow_capability_ok [OF at] execution_failure_outcome_ok [OF at] successful_execution_outcome_ok [OF at])
qed

lemma verified_context_at [simp]: "context_at entered (verified_context context verification) = context_at entered context"
  unfolding verified_context_def Let_def by (rule context_at_attempt) simp_all

text \<open>What has passed the gates.\<close>

definition selection_gates :: "('h, 'b) RuntimeHost \<Rightarrow> RuntimeRequest \<Rightarrow> ResolvedCapability \<Rightarrow> 'h \<Rightarrow> bool" where
  "selection_gates host request selected h \<longleftrightarrow>
     \<not> contains_drafts_segment (rec_contract_path (rc_record selected))
     \<and> rx_requested_target (rq_context request) = TargetLocal
     \<and> admitted_call host h selected (rq_input request)
     \<and> rh_resolve_dependencies host (rec_id (rc_record selected)) (cc_dependencies (rc_contract selected))
          (map_lookup_scope (rl_scope (rq_lookup request))) = Ok ()
     \<and> canonical_input_check (rq_input request) = Ok ()"

lemma admit_selected_Ok:
  assumes "admit_selected host context selected h = Ok (context', placement)"
  shows "selection_gates host (at_request (ec_attempt context)) selected h \<and> (\<exists>v. context' = verified_context context v)"
  using assms unfolding admit_selected_def Let_def selection_gates_def admitted_call_def artifact_admitted_def
  by (auto split: if_splits sum.splits simp: resolve_placement_def and_then_def validate_payload_Ok_iff)

lemma admit_selected_Err:
  assumes "admit_selected host context selected h = Err (context', failure)"
  shows "context' = context \<or> (\<exists>v. context' = verified_context context v)"
  using assms unfolding admit_selected_def Let_def by (auto split: if_splits sum.splits)

lemma execute_selected_ok:
  assumes "context_at [] context" "execute_selected host context selected w = Some (outcome, w')"
  shows "outcome_ok outcome"
proof (cases "admit_selected host context selected (rw_host w)")
  case (Inl refused)
  obtain context' failure where "refused = (context', failure)" by (cases refused)
  with Inl assms admit_selected_Err [of host "context" selected "rw_host w" context' failure] show ?thesis
    by (auto simp: execute_selected_def intro: pre_execution_failure_outcome_ok)
next
  case (Inr admitted)
  obtain context' placement where "admitted = (context', placement)" by (cases admitted)
  with Inr assms admit_selected_Ok [of host "context" selected "rw_host w" context' placement] show ?thesis
    by (auto simp: execute_selected_def intro: execute_started_ok [rotated])
qed

lemma candidates_partition: "discovered = [] \<longleftrightarrow> eligible_candidates discovered = [] \<and> rejected_candidates discovered = []"
proof (cases discovered)
  case (Cons candidate rest)
  then show ?thesis
    by (cases "evaluate_candidate candidate")
      (simp_all add: eligible_candidates_def rejected_candidates_def List.map_filter_simps)
qed (simp add: eligible_candidates_def rejected_candidates_def List.map_filter_simps)

text \<open>What was discovered, and the emitter afterwards.\<close>

lemma resolve_candidates_at:
  assumes "emitter_at attempt started_states e" "resolve_candidates host request e w = (resolution, e', w')"
  shows "emitter_at attempt (started_states @
      (if cr_eligible resolution \<noteq> [] then [EvaluatingConstraints, Selecting]
       else if col_rejected_candidates (cr_collection resolution) \<noteq> [] then [EvaluatingConstraints] else [])) e'"
    "cr_hydration_failure resolution \<noteq> None \<Longrightarrow> cr_eligible resolution = [] \<and> col_rejected_candidates (cr_collection resolution) = []"
proof -
  obtain discovered failure w0 where found: "discover_candidates host request w = (discovered, failure, w0)"
    by (rule prod_cases3)
  then have failed: "failure \<noteq> None \<Longrightarrow> discovered = []"
    by (auto simp: discover_candidates_def Let_def split: if_splits sum.splits prod.splits)
  have res: "cr_eligible resolution = eligible_candidates discovered" "cr_hydration_failure resolution = failure"
    "col_rejected_candidates (cr_collection resolution) = rejected_candidates discovered"
    using assms(2) unfolding resolve_candidates_def Let_def found by auto
  show "cr_hydration_failure resolution \<noteq> None \<Longrightarrow> cr_eligible resolution = [] \<and> col_rejected_candidates (cr_collection resolution) = []"
    using failed candidates_partition [THEN iffD1] unfolding res by simp
  let ?d1 = "json_obj [(''candidate_count'', JNumber (PosInt (length discovered)))]"
  let ?d2 = "json_obj [(''eligible_candidates'', JNumber (PosInt (length (eligible_candidates discovered)))),
    (''rejected_candidates'', JNumber (PosInt (length (rejected_candidates discovered))))]"
  let ?e1 = "push e EvaluatingConstraints CandidatesCollected ?d1"
  have e1: "emitter_at attempt (started_states @ [EvaluatingConstraints]) ?e1"
    by (rule emitter_at_push [OF assms(1)]) (simp add: started_states_def allowed_simps)
  have e2: "emitter_at attempt ((started_states @ [EvaluatingConstraints]) @ [Selecting]) (push ?e1 Selecting ConstraintsEvaluated ?d2)"
    by (rule emitter_at_push [OF e1]) (simp add: allowed_simps)
  have e': "e' = (let e1 = if discovered = [] then e else ?e1
      in if eligible_candidates discovered = [] then e1 else push e1 Selecting ConstraintsEvaluated ?d2)"
    using assms(2) unfolding resolve_candidates_def Let_def found by auto
  show "emitter_at attempt (started_states @
      (if cr_eligible resolution \<noteq> [] then [EvaluatingConstraints, Selecting]
       else if col_rejected_candidates (cr_collection resolution) \<noteq> [] then [EvaluatingConstraints] else [])) e'"
  proof (cases "discovered = []")
    case True
    with assms(1) candidates_partition [THEN iffD1, OF True] show ?thesis unfolding res e' Let_def by simp
  next
    case False
    then have "eligible_candidates discovered = [] \<Longrightarrow> rejected_candidates discovered \<noteq> []"
      using candidates_partition by blast
    with False e1 e2 show ?thesis
      unfolding res e' Let_def by (cases "eligible_candidates discovered = []") simp_all
  qed
qed

lemma run_attempt_ok:
  assumes "attempt_ok attempt" "emitter_at attempt started_states e" "run_attempt host attempt e w = Some (outcome, w')"
  shows "outcome_ok outcome"
proof (cases "validate_request (rh_semver_ok host) (at_request attempt)")
  case (Some error)
  with assms show ?thesis by (auto simp: run_attempt_def invalid_request_outcome_ok)
next
  case None
  obtain resolution e' w0 where r: "resolve_candidates host (at_request attempt) e w = (resolution, e', w0)"
    by (rule prod_cases3)
  note at = resolve_candidates_at [OF assms(2) r]
  show ?thesis
  proof (cases "cr_hydration_failure resolution")
    case (Some error)
    with None r assms at show ?thesis by (auto simp: run_attempt_def hydration_failure_outcome_ok)
  next
    case ok: None
    consider "cr_eligible resolution = []" | selected where "cr_eligible resolution = [selected]"
      | c d rest where "cr_eligible resolution = c # d # rest" by (metis list.exhaust)
    then show ?thesis
    proof cases
      case 1
      with None r ok assms(3) have "outcome = no_eligible_outcome attempt e' (cr_collection resolution)" by (auto simp: run_attempt_def)
      moreover have "emitter_at attempt (started_states @ (if col_rejected_candidates (cr_collection resolution) = [] then []
          else [EvaluatingConstraints])) e'" using at(1) 1 by (simp split: if_splits)
      ultimately show ?thesis using no_eligible_outcome_ok [OF assms(1)] by simp
    next
      case 2
      then have "context_at [] \<lparr>ec_attempt = attempt, ec_emitter = e', ec_candidate_collection = cr_collection resolution,
          ec_selection = selected_record selected\<rparr>" using at(1) assms(1) by (simp add: context_at_def)
      moreover from 2 None r ok assms(3) have "execute_selected host \<lparr>ec_attempt = attempt, ec_emitter = e',
          ec_candidate_collection = cr_collection resolution, ec_selection = selected_record selected\<rparr> selected w0 = Some (outcome, w')"
        by (simp add: run_attempt_def)
      ultimately show ?thesis by (rule execute_selected_ok)
    next
      case 3
      with None r ok assms(3) have "outcome = ambiguous_outcome attempt e' resolution" by (auto simp: run_attempt_def)
      with 3 at(1) show ?thesis using ambiguous_outcome_ok [OF assms(1)] by simp
    qed
  qed
qed

lemma start_attempt_ok:
  assumes "start_attempt host request = (attempt, e)"
  shows "attempt_ok attempt" "emitter_at attempt started_states e"
    "at_request attempt = sanitized_request (rh_security host) request"
    "at_warnings attempt = []"
proof -
  show "attempt_ok attempt" "at_request attempt = sanitized_request (rh_security host) request" "at_warnings attempt = []"
    using assms by (auto simp: start_attempt_def begin_attempt_def Let_def attempt_ok_def)
  let ?new = "new_emitter (at_execution_id attempt) (rq_request_id (at_request attempt))"
  have "emitter_at attempt [LoadingRegistry] (push ?new LoadingRegistry RuntimeInitializationStarted d)" for d
    unfolding emitter_at_def by (simp add: push_ok new_emitter_ok push_to_states allowed_simps) (simp add: new_emitter_def)
  then have "emitter_at attempt (([LoadingRegistry] @ [Ready]) @ [Discovering])
      (push (push (push ?new LoadingRegistry RuntimeInitializationStarted d) Ready RegistryLoaded d') Discovering RequestStarted d'')" for d d' d''
    by (intro emitter_at_push) (simp_all add: allowed_simps)
  then show "emitter_at attempt started_states e"
    using assms by (auto simp: start_attempt_def begin_attempt_def Let_def started_states_def)
qed

end
