(* ===== verification/Runtime_Safety.thy ===== *)
theory Runtime_Safety
  imports Runtime Proposal_Authorization
begin

text \<open>
  What \<^verbatim>\<open>Runtime::execute\<close> guarantees: every outcome is well formed, an execution starts only behind
  the gates, the executor is asked only about admitted calls, a completed result conforms to the
  contract it was produced under, and a bearer token that can be decoded is not kept.
\<close>

section \<open>Lemmas\<close>

subsection \<open>Fields of outcomes\<close>

abbreviation execution_status :: "RuntimeExecutionOutcome \<Rightarrow> ExecutionStatus" where
  "execution_status outcome \<equiv> ex_status (rt_execution (ro_trace outcome))"

lemma early_exit_status [simp]:
  "execution_status (invalid_request_outcome attempt e error) = NotStarted"
  "execution_status (hydration_failure_outcome attempt e collection failure) = NotStarted"
  "execution_status (no_eligible_outcome attempt e collection) = NotStarted"
  "execution_status (ambiguous_outcome attempt e resolution) = NotStarted"
  "execution_status (pre_execution_failure_outcome context refusal) = NotStarted"
  by (simp_all add: invalid_request_outcome_def hydration_failure_outcome_def no_eligible_outcome_def ambiguous_outcome_def
      pre_execution_failure_outcome_def terminal_failure_def Let_def)

lemma started_status [simp]:
  "execution_status (execution_failure_outcome context failure error emitted evidence) = ExecFailed"
  "execution_status (successful_execution_outcome json_text context selected started output emitted evidence) = Succeeded"
  by (simp_all add: execution_failure_outcome_def successful_execution_outcome_def terminal_failure_def Let_def case_prod_beta)

lemma outcome_request [simp]:
  "rt_request (ro_trace (invalid_request_outcome attempt e error)) = at_request attempt"
  "rt_request (ro_trace (hydration_failure_outcome attempt e collection failure)) = at_request attempt"
  "rt_request (ro_trace (no_eligible_outcome attempt e collection)) = at_request attempt"
  "rt_request (ro_trace (ambiguous_outcome attempt e resolution)) = at_request attempt"
  "rt_request (ro_trace (pre_execution_failure_outcome context refusal)) = at_request (ec_attempt context)"
  "rt_request (ro_trace (execution_failure_outcome context xfailure error emitted evidence)) = at_request (ec_attempt context)"
  "rt_request (ro_trace (successful_execution_outcome json_text context selected started output emitted evidence)) = at_request (ec_attempt context)"
  by (simp_all add: invalid_request_outcome_def hydration_failure_outcome_def no_eligible_outcome_def ambiguous_outcome_def
      pre_execution_failure_outcome_def execution_failure_outcome_def successful_execution_outcome_def terminal_failure_def
      Let_def case_prod_beta)

lemma outcome_identity [simp]:
  "ex_identity (rt_execution (ro_trace (invalid_request_outcome attempt e error))) = rx_identity (rq_context (at_request attempt))"
  "ex_identity (rt_execution (ro_trace (hydration_failure_outcome attempt e collection failure))) = rx_identity (rq_context (at_request attempt))"
  "ex_identity (rt_execution (ro_trace (no_eligible_outcome attempt e collection))) = rx_identity (rq_context (at_request attempt))"
  "ex_identity (rt_execution (ro_trace (ambiguous_outcome attempt e resolution))) = rx_identity (rq_context (at_request attempt))"
  "ex_identity (rt_execution (ro_trace (pre_execution_failure_outcome context refusal))) = rx_identity (rq_context (at_request (ec_attempt context)))"
  "ex_identity (rt_execution (ro_trace (execution_failure_outcome context xfailure error emitted evidence))) =
     rx_identity (rq_context (at_request (ec_attempt context)))"
  "ex_identity (rt_execution (ro_trace (successful_execution_outcome json_text context selected started output emitted evidence))) =
     rx_identity (rq_context (at_request (ec_attempt context)))"
  by (simp_all add: invalid_request_outcome_def hydration_failure_outcome_def no_eligible_outcome_def ambiguous_outcome_def
      pre_execution_failure_outcome_def execution_failure_outcome_def successful_execution_outcome_def terminal_failure_def
      not_started_def Let_def case_prod_beta)

lemma started_selection [simp]:
  "rt_selection (ro_trace (execution_failure_outcome context failure error emitted evidence)) = ec_selection context"
  "rt_selection (ro_trace (successful_execution_outcome json_text context selected started output emitted evidence)) = ec_selection context"
  by (simp_all add: execution_failure_outcome_def successful_execution_outcome_def terminal_failure_def Let_def case_prod_beta)

lemma started_result [simp]:
  "rr_status (ro_result (execution_failure_outcome context failure error emitted evidence)) = ResultError"
  "rr_status (ro_result (successful_execution_outcome json_text context selected started output emitted evidence)) = ResultCompleted"
  "rr_output (ro_result (successful_execution_outcome json_text context selected started output emitted evidence)) = Some output"
  "workflow_evidence (ro_trace (successful_execution_outcome json_text context selected started output emitted evidence)) = evidence"
  "ex_output_digest (rt_execution (ro_trace (successful_execution_outcome json_text context selected started output emitted evidence))) =
     Some (content_digest json_text output)"
  by (simp_all add: execution_failure_outcome_def successful_execution_outcome_def terminal_failure_def Let_def case_prod_beta)

lemma verified_context_fields [simp]:
  "at_request (ec_attempt (verified_context context verification)) = at_request (ec_attempt context)"
  "ec_selection (verified_context context verification) = ec_selection context"
  by (simp_all add: verified_context_def Let_def)

lemma lifecycle_fields [simp]:
  "rt_execution (ro_trace (fst (emit_execution_lifecycle_event host outcome identity w))) = rt_execution (ro_trace outcome)"
  "rt_selection (ro_trace (fst (emit_execution_lifecycle_event host outcome identity w))) = rt_selection (ro_trace outcome)"
  "rt_request (ro_trace (fst (emit_execution_lifecycle_event host outcome identity w))) = rt_request (ro_trace outcome)"
  "workflow_evidence (ro_trace (fst (emit_execution_lifecycle_event host outcome identity w))) = workflow_evidence (ro_trace outcome)"
  "rr_status (ro_result (fst (emit_execution_lifecycle_event host outcome identity w))) = rr_status (ro_result outcome)"
  "rr_output (ro_result (fst (emit_execution_lifecycle_event host outcome identity w))) = rr_output (ro_result outcome)"
  "rr_request_id (ro_result (fst (emit_execution_lifecycle_event host outcome identity w))) = rr_request_id (ro_result outcome)"
  by (simp_all add: emit_execution_lifecycle_event_def add_warning_def Let_def case_prod_beta split: sum.split)

lemma lifecycle_world [simp]:
  "rw_broker (snd (emit_execution_lifecycle_event host outcome identity w)) = rw_broker w"
  "rw_traces (snd (emit_execution_lifecycle_event host outcome identity w)) = rw_traces w"
  "rw_host (snd (emit_execution_lifecycle_event host outcome identity w)) =
     snd (rh_emit host (rw_host w) (lifecycle_event host (rw_tick w) (ro_result outcome) identity))"
  by (simp_all add: emit_execution_lifecycle_event_def case_prod_beta)

subsection \<open>The parts of an execution\<close>

lemma runtime_hydrate_world [simp]:
  "rw_host (snd (runtime_hydrate host i v w)) = rw_host w" "rw_broker (snd (runtime_hydrate host i v w)) = rw_broker w"
  "rw_traces (snd (runtime_hydrate host i v w)) = rw_traces w" "rw_tick (snd (runtime_hydrate host i v w)) = rw_tick w"
  by (simp_all add: runtime_hydrate_def case_prod_beta)

definition same_world :: "('h, 'b) RuntimeWorld \<Rightarrow> ('h, 'b) RuntimeWorld \<Rightarrow> bool" where
  "same_world w w' \<longleftrightarrow> rw_host w' = rw_host w \<and> rw_broker w' = rw_broker w \<and> rw_traces w' = rw_traces w \<and> rw_tick w' = rw_tick w"

lemma same_world_hydrate: "runtime_hydrate host i v w = (r, w') \<Longrightarrow> same_world w w'"
  using runtime_hydrate_world [of host i v w] by (simp add: same_world_def)

lemma same_world_trans: "same_world w w' \<Longrightarrow> same_world w' w'' \<Longrightarrow> same_world w w''"
  by (simp add: same_world_def)

lemma same_world_refl [simp]: "same_world w w"
  by (simp add: same_world_def)

lemma hydrate_entries_world: "hydrate_entries host entries resolved w = (r, w') \<Longrightarrow> same_world w w'"
  by (induction host entries resolved w arbitrary: r w' rule: hydrate_entries.induct)
    (auto split: prod.splits sum.splits intro: same_world_hydrate same_world_trans)

lemma resolve_candidates_world:
  assumes "resolve_candidates host request e w = (resolution, e', w')"
  shows "same_world w w'"
  using assms unfolding resolve_candidates_def discover_candidates_def collect_indexed_candidates_def Let_def
  by (auto split: if_splits prod.splits sum.splits option.splits intro: same_world_hydrate hydrate_entries_world)

lemma eligible_candidate: "selected \<in> set (eligible_candidates discovered) \<Longrightarrow> evaluate_candidate selected = Eligible selected"
proof -
  have "evaluate_candidate candidate = Eligible capability \<Longrightarrow> capability = candidate" for candidate capability
    by (auto simp: evaluate_candidate_def Let_def split: if_splits option.splits)
  then show "selected \<in> set (eligible_candidates discovered) \<Longrightarrow> evaluate_candidate selected = Eligible selected"
    by (fastforce simp: eligible_candidates_def List.map_filter_def split: CandidateEvaluation.splits)
qed

text \<open>A failed traversal is reported as an error.\<close>

lemma traversal_failure_status [simp]:
  "wr_status (wo_result (traversal_failure request reason error tv)) = WfError"
  "wr_status (wo_result (ambiguous_edges request node message tv)) = WfError"
  "wr_status (wo_result (workflow_failure request reason error visited traversed emitted bundle warnings)) = WfError"
  by (simp_all add: ambiguous_edges_def traversal_failure_def workflow_failure_def Let_def)

lemma resolve_node_status: "resolve_node host request node tv w = (Inl failure, w') \<Longrightarrow> wr_status (wo_result failure) = WfError"
  by (auto simp: resolve_node_def split: option.splits if_splits prod.splits sum.splits)

lemma admit_node_status: "admit_node host request node capability h tv = Inl failure \<Longrightarrow> wr_status (wo_result failure) = WfError"
  by (auto simp: admit_node_def Let_def split: option.splits sum.splits)

lemma run_node_status: "run_node host request node capability tv w = (Inl failure, w') \<Longrightarrow> wr_status (wo_result failure) = WfError"
  by (auto simp: run_node_def Let_def split: if_splits prod.splits sum.splits)

lemma evaluate_waiting_edges_status:
  "evaluate_waiting_edges host request node outgoing node_emitted tv w = Some (Inl failure, w') \<Longrightarrow> wr_status (wo_result failure) = WfError"
  unfolding evaluate_waiting_edges_def Let_def
  by (auto split: if_splits prod.splits sum.splits Option.bind_splits BrokerQueryFailure.splits)

lemma next_edge_status:
  assumes "next_edge host request workflow node node_emitted tv w = Some (Inr (Inl failure), w')"
  shows "wr_status (wo_result failure) = WfError"
  using assms unfolding next_edge_def Let_def
  by (auto simp: finish_traversal_def Let_def split: if_splits list.splits sum.splits Option.bind_splits)
    (erule evaluate_waiting_edges_status)

lemma workflow_step_status:
  assumes "workflow_step host request workflow tv w = Some (Inr (Inl failure), w')"
  shows "wr_status (wo_result failure) = WfError"
  using assms unfolding workflow_step_def Let_def
  by (auto split: option.splits prod.splits sum.splits
      dest: resolve_node_status admit_node_status run_node_status next_edge_status)

lemma traverse_workflow_status:
  assumes "traverse_workflow host request workflow w = Some (Inl failure, w')"
  shows "wr_status (wo_result failure) = WfError"
  using iterate_steps_result [OF assms [unfolded traverse_workflow_def], where P = "\<lambda>_ _. True"] workflow_step_status
  by fastforce

definition found_workflow :: "('h, 'b) RuntimeHost \<Rightarrow> WorkflowExecutionRequest \<Rightarrow> WorkflowDefinition option" where
  "found_workflow host request =
     (let scope = map_workflow_lookup_scope (wq_scope request)
      in case rh_workflow_registry host scope (wq_workflow_id request) (wq_workflow_version request) of
           Some workflow \<Rightarrow> Some workflow
         | None \<Rightarrow> lookup_indexed_workflow (rh_indexed_workflows host) scope (wq_workflow_id request) (wq_workflow_version request))"

lemma execute_workflow_unfold:
  "execute_workflow host request w =
     (case validate_workflow_request request of
        Some error \<Rightarrow> Some (workflow_failure request WorkflowInvalid error [] [] [] empty_bundle [], w)
      | None \<Rightarrow>
          (case found_workflow host request of
             None \<Rightarrow>
               Some (workflow_failure request WorkflowNotFound
                    (runtime_error RtCapabilityNotFound ''workflow definition was not found in the workflow registry''
                       (json_obj [(''workflow_id'', JString (wq_workflow_id request)),
                                  (''workflow_version'', JString (wq_workflow_version request))]))
                    [] [] [] empty_bundle [], w)
           | Some workflow \<Rightarrow>
               (case validate_payload_against_contract (wq_input request) (sc_schema (wd_inputs workflow)) RequestInvalid
                       ''workflow request input does not satisfy the workflow input contract'' of
                  Inl error \<Rightarrow> Some (workflow_failure request WorkflowInvalid error [] [] [] empty_bundle [], w)
                | Inr _ \<Rightarrow>
                    map_option (\<lambda>(r, w). (case r of Inl failure \<Rightarrow> failure | Inr success \<Rightarrow> success, w))
                      (traverse_workflow host request workflow w))))"
  unfolding execute_workflow_def found_workflow_def Let_def by (rule refl)

text \<open>What the evidence of a completed workflow shows.\<close>

definition completed_evidence :: "WorkflowDefinition \<Rightarrow> WorkflowTraversalEvidence \<Rightarrow> bool" where
  "completed_evidence workflow evidence \<longleftrightarrow>
     (\<exists>path. completed_path workflow path (traversed_edges evidence)
        \<and> visited_nodes evidence = map (\<lambda>(i, node). completed_record i node) (enumerate 0 path))"

lemma execute_workflow_completed:
  assumes "execute_workflow host request w = Some (outcome, w')" "wr_status (wo_result outcome) = WfCompleted"
  shows "\<exists>workflow output. found_workflow host request = Some workflow
    \<and> conforms (wq_input request) (sc_schema (wd_inputs workflow))
    \<and> completed_evidence workflow (wo_evidence outcome)
    \<and> wr_output (wo_result outcome) = Some output \<and> conforms output (sc_schema (wd_outputs workflow))"
proof -
  obtain workflow u where found: "found_workflow host request = Some workflow"
    and input: "validate_payload_against_contract (wq_input request) (sc_schema (wd_inputs workflow)) RequestInvalid
       ''workflow request input does not satisfy the workflow input contract'' = Inr u"
    and t: "map_option (\<lambda>(r, w). (case r of Inl failure \<Rightarrow> failure | Inr success \<Rightarrow> success, w))
       (traverse_workflow host request workflow w) = Some (outcome, w')"
    using assms unfolding execute_workflow_unfold by (auto split: option.splits sum.splits)
  have "\<exists>r. traverse_workflow host request workflow w = Some (r, w') \<and> outcome = (case r of Inl failure \<Rightarrow> failure | Inr success \<Rightarrow> success)"
    using t by (cases "traverse_workflow host request workflow w") auto
  then obtain r where r: "traverse_workflow host request workflow w = Some (r, w')"
    "outcome = (case r of Inl failure \<Rightarrow> failure | Inr success \<Rightarrow> success)" by blast
  have "r \<noteq> Inl failure" for failure
    using r assms(2) traverse_workflow_status [of host request workflow w failure w'] by auto
  with r have "traverse_workflow host request workflow w = Some (Ok outcome, w')" by (cases r) auto
  from traverse_completes [OF this] found input show ?thesis
    unfolding completed_evidence_def by (auto simp: validate_payload_Ok_iff)
qed

subsection \<open>Executions that have started\<close>

lemma execute_workflow_capability_fields:
  assumes "execute_workflow_capability host context selected started w = Some (outcome, w')"
  shows "execution_status outcome \<noteq> NotStarted \<and> rt_selection (ro_trace outcome) = ec_selection context
    \<and> rt_request (ro_trace outcome) = at_request (ec_attempt context)
    \<and> ex_identity (rt_execution (ro_trace outcome)) = rx_identity (rq_context (at_request (ec_attempt context)))"
  using assms unfolding execute_workflow_capability_def Let_def
  by (auto split: option.splits Option.bind_splits prod.splits WorkflowTraversalStatus.splits)

lemma execute_started_fields:
  assumes "execute_started_selection host context selected placement w = Some (outcome, w')"
  shows "execution_status outcome \<noteq> NotStarted \<and> rt_selection (ro_trace outcome) = ec_selection context
    \<and> rt_request (ro_trace outcome) = at_request (ec_attempt context)
    \<and> ex_identity (rt_execution (ro_trace outcome)) = rx_identity (rq_context (at_request (ec_attempt context)))"
  using assms unfolding execute_started_selection_def Let_def
  by (auto split: if_splits prod.splits sum.splits dest: execute_workflow_capability_fields)

text \<open>What a completed result conforms to: the output contract of the capability, or of the workflow
  that implements it.\<close>

definition output_governed ::
  "('h, 'b) RuntimeHost \<Rightarrow> ResolvedCapability \<Rightarrow> RuntimeRequest \<Rightarrow> json \<Rightarrow> WorkflowTraversalEvidence option \<Rightarrow> bool" where
  "output_governed host selected request output evidence \<longleftrightarrow>
     (if rec_implementation_kind (rc_record selected) = WorkflowKind
      then \<exists>ref workflow wf_request trace. artifact_workflow_ref (rc_artifact selected) = Some ref
             \<and> wq_workflow_id wf_request = wref_workflow_id ref \<and> wq_workflow_version wf_request = wref_workflow_version ref
             \<and> wq_input wf_request = rq_input request \<and> found_workflow host wf_request = Some workflow
             \<and> conforms output (sc_schema (wd_outputs workflow))
             \<and> evidence = Some trace \<and> completed_evidence workflow trace
      else conforms output (sc_schema (cc_outputs (rc_contract selected))) \<and> evidence = None)"

lemma workflow_request_fields [simp]:
  "wq_workflow_id (workflow_request_of context selected ref) = wref_workflow_id ref"
  "wq_workflow_version (workflow_request_of context selected ref) = wref_workflow_version ref"
  "wq_input (workflow_request_of context selected ref) = rq_input (at_request (ec_attempt context))"
  by (simp_all add: workflow_request_of_def)

lemma execute_workflow_capability_completed:
  assumes "execute_workflow_capability host context selected started w = Some (outcome, w')"
    "rr_status (ro_result outcome) = ResultCompleted" "rec_implementation_kind (rc_record selected) = WorkflowKind"
  shows "\<exists>output. rr_output (ro_result outcome) = Some output
    \<and> output_governed host selected (at_request (ec_attempt context)) output (workflow_evidence (ro_trace outcome))"
proof -
  obtain ref where ref: "artifact_workflow_ref (rc_artifact selected) = Some ref"
    using assms(1,2) unfolding execute_workflow_capability_def Let_def by (auto split: option.splits)
  obtain wf_outcome w0 where run: "execute_workflow host (workflow_request_of context selected ref) w = Some (wf_outcome, w0)"
    using assms(1) ref unfolding execute_workflow_capability_def Let_def
    by (cases "execute_workflow host (workflow_request_of context selected ref) w") auto
  then have finished: "wr_status (wo_result wf_outcome) = WfCompleted"
    and out: "rr_output (ro_result outcome) = Some (case wr_output (wo_result wf_outcome) of None \<Rightarrow> JObject [] | Some output \<Rightarrow> output)"
    and evidence: "workflow_evidence (ro_trace outcome) = Some (wo_evidence wf_outcome)"
    using assms(1,2) ref unfolding execute_workflow_capability_def Let_def
    by (auto split: WorkflowTraversalStatus.splits)
  from execute_workflow_completed [OF run finished] obtain workflow "output" where
    "found_workflow host (workflow_request_of context selected ref) = Some workflow"
    "completed_evidence workflow (wo_evidence wf_outcome)" "wr_output (wo_result wf_outcome) = Some output"
    "conforms output (sc_schema (wd_outputs workflow))" by blast
  with out evidence ref show ?thesis
    unfolding output_governed_def if_P [OF assms(3)]
    by (intro exI [of _ "output"] conjI exI [of _ ref] exI [of _ workflow] exI [of _ "workflow_request_of context selected ref"]
        exI [of _ "wo_evidence wf_outcome"]) simp_all
qed

lemma execute_started_completed:
  assumes "execute_started_selection host context selected placement w = Some (outcome, w')"
    "rr_status (ro_result outcome) = ResultCompleted"
  shows "\<exists>output. rr_output (ro_result outcome) = Some output
    \<and> output_governed host selected (at_request (ec_attempt context)) output (workflow_evidence (ro_trace outcome))"
proof -
  obtain started emitter where s: "start_selected_execution (ec_emitter context) selected placement
      (rx_identity (rq_context (at_request (ec_attempt context)))) = (started, emitter)"
    by (cases "start_selected_execution (ec_emitter context) selected placement
      (rx_identity (rq_context (at_request (ec_attempt context))))")
  show ?thesis
  proof (cases "rec_implementation_kind (rc_record selected) = WorkflowKind")
    case True
    then have "execute_workflow_capability host (context\<lparr>ec_emitter := emitter\<rparr>) selected started w = Some (outcome, w')"
      using assms(1) unfolding execute_started_selection_def Let_def s prod.case by simp
    from execute_workflow_capability_completed [OF this assms(2) True] show ?thesis by simp
  next
    case False
    then show ?thesis
      using assms unfolding execute_started_selection_def Let_def s prod.case
      by (auto simp: output_governed_def validate_payload_Ok_iff split: sum.splits prod.splits)
  qed
qed

text \<open>An attempt stops early, in the same world, or starts the one eligible capability behind its
  gates.\<close>

lemma run_attempt_cases:
  assumes "run_attempt host attempt e w = Some (outcome, w')"
  obtains (stopped) "execution_status outcome = NotStarted" "same_world w w'" "rt_request (ro_trace outcome) = at_request attempt"
      "ex_identity (rt_execution (ro_trace outcome)) = rx_identity (rq_context (at_request attempt))"
  | (started) "context" selected placement w0 where "same_world w w0" "evaluate_candidate selected = Eligible selected"
      "selection_gates host (at_request attempt) selected (rw_host w)"
      "at_request (ec_attempt context) = at_request attempt" "ec_selection context = selected_record selected"
      "execute_started_selection host context selected placement w0 = Some (outcome, w')"
proof (cases "validate_request (rh_semver_ok host) (at_request attempt)")
  case (Some error)
  with assms show ?thesis using stopped by (auto simp: run_attempt_def)
next
  case None
  obtain resolution e' w0 where r: "resolve_candidates host (at_request attempt) e w = (resolution, e', w0)"
    by (rule prod_cases3)
  note world = resolve_candidates_world [OF r]
  show ?thesis
  proof (cases "\<exists>selected. cr_hydration_failure resolution = None \<and> cr_eligible resolution = [selected]")
    case False
    with None r assms world stopped show ?thesis by (auto simp: run_attempt_def split: option.splits list.splits)
  next
    case True
    then obtain selected where sel: "cr_hydration_failure resolution = None" "cr_eligible resolution = [selected]" by blast
    let ?c = "\<lparr>ec_attempt = attempt, ec_emitter = e', ec_candidate_collection = cr_collection resolution,
      ec_selection = selected_record selected\<rparr>"
    have x: "execute_selected host ?c selected w0 = Some (outcome, w')" using assms None r sel by (simp add: run_attempt_def)
    have "selected \<in> set (cr_eligible resolution)" using sel by simp
    then have eligible: "evaluate_candidate selected = Eligible selected"
      using r by (auto simp: resolve_candidates_def Let_def case_prod_beta intro: eligible_candidate)
    show ?thesis
    proof (cases "admit_selected host ?c selected (rw_host w0)")
      case (Inl refused)
      obtain c' failure where "refused = (c', failure)" by (cases refused)
      with Inl x admit_selected_Err [of host ?c selected "rw_host w0" c' failure] show ?thesis
        using world by (intro stopped) (auto simp: execute_selected_def)
    next
      case (Inr admitted)
      obtain c' placement where "admitted = (c', placement)" by (cases admitted)
      with Inr x admit_selected_Ok [of host ?c selected "rw_host w0" c' placement] world eligible show ?thesis
        by (intro started [of w0 selected c' placement]) (auto simp: execute_selected_def same_world_def)
    qed
  qed
qed

lemma run_attempt_request:
  assumes "run_attempt host attempt e w = Some (outcome, w')"
  shows "rt_request (ro_trace outcome) = at_request attempt"
    "ex_identity (rt_execution (ro_trace outcome)) = rx_identity (rq_context (at_request attempt))"
proof -
  have "rt_request (ro_trace outcome) = at_request attempt
      \<and> ex_identity (rt_execution (ro_trace outcome)) = rx_identity (rq_context (at_request attempt))"
    using assms
  proof (cases rule: run_attempt_cases)
    case (started c selected placement w0)
    with execute_started_fields [OF started(6)] show ?thesis by simp
  qed simp
  then show "rt_request (ro_trace outcome) = at_request attempt"
    "ex_identity (rt_execution (ro_trace outcome)) = rx_identity (rq_context (at_request attempt))" by simp_all
qed

subsection \<open>Two executors that agree on admitted calls\<close>

lemma discovery_ignores_executor:
  "collect_candidates (host\<lparr>rh_execute := exec\<rparr>) = collect_candidates host"
  "hydrate_entries (host\<lparr>rh_execute := exec\<rparr>) entries resolved w = hydrate_entries host entries resolved w"
  "collect_indexed_candidates (host\<lparr>rh_execute := exec\<rparr>) request w = collect_indexed_candidates host request w"
proof -
  show "collect_candidates (host\<lparr>rh_execute := exec\<rparr>) = collect_candidates host"
    by (simp add: fun_eq_iff collect_candidates_def Let_def split: option.split)
  have entries: "hydrate_entries (host\<lparr>rh_execute := exec\<rparr>) entries resolved w = hydrate_entries host entries resolved w" for entries resolved w
    by (induction host entries resolved w rule: hydrate_entries.induct) (simp_all split: prod.split sum.split)
  then show "hydrate_entries (host\<lparr>rh_execute := exec\<rparr>) entries resolved w = hydrate_entries host entries resolved w" .
  show "collect_indexed_candidates (host\<lparr>rh_execute := exec\<rparr>) request w = collect_indexed_candidates host request w"
    by (simp add: collect_indexed_candidates_def Let_def entries split: option.split)
qed

lemma resolve_ignores_executor: "resolve_candidates (host\<lparr>rh_execute := exec\<rparr>) = resolve_candidates host"
proof (intro ext)
  fix request e w
  have "discover_candidates (host\<lparr>rh_execute := exec\<rparr>) request w = discover_candidates host request w"
    by (simp add: discover_candidates_def discovery_ignores_executor Let_def)
  then show "resolve_candidates (host\<lparr>rh_execute := exec\<rparr>) request e w = resolve_candidates host request e w"
    by (simp only: resolve_candidates_def)
qed

lemma admit_ignores_executor: "admit_selected (host\<lparr>rh_execute := exec\<rparr>) = admit_selected host"
  by (simp add: fun_eq_iff admit_selected_def Let_def split: sum.split)

lemma clock_update_fields:
  "rh_elapsed_ms (host\<lparr>rh_execute := exec\<rparr>) = rh_elapsed_ms host" "rh_uuid (host\<lparr>rh_execute := exec\<rparr>) = rh_uuid host"
  "rh_now (host\<lparr>rh_execute := exec\<rparr>) = rh_now host" "rh_json_text (host\<lparr>rh_execute := exec\<rparr>) = rh_json_text host"
  by simp_all

lemma execute_with_executor_agree:
  assumes "executor (qr_executor_capability request) (qr_input request) (rw_host w) =
      executor' (qr_executor_capability request) (qr_input request) (rw_host w)"
  shows "execute_with_executor (host\<lparr>rh_execute := exec\<rparr>) durable request executor w = execute_with_executor host durable request executor' w"
  unfolding execute_with_executor_def assms clock_update_fields executor_update_fields by (rule refl)

lemma execute_started_agree:
  assumes "\<And>h capability input. admitted_call host h capability input \<Longrightarrow> exec h capability input = rh_execute host h capability input"
    and "admitted_call host (rw_host w) selected (rq_input (at_request (ec_attempt context)))"
  shows "execute_started_selection (host\<lparr>rh_execute := exec\<rparr>) context selected placement w =
    execute_started_selection host context selected placement w"
proof -
  have "execute_with_executor (host\<lparr>rh_execute := exec\<rparr>) None (router_request_of (context\<lparr>ec_emitter := e\<rparr>) selected started)
      (bound_local_executor exec selected) w =
    execute_with_executor host None (router_request_of (context\<lparr>ec_emitter := e\<rparr>) selected started)
      (bound_local_executor (rh_execute host) selected) w" for e started
    by (rule execute_with_executor_agree)
      (simp add: bound_local_executor_def router_request_of_def assms(1) [OF assms(2)])
  moreover have workflow: "execute_workflow (host\<lparr>rh_execute := exec\<rparr>) = execute_workflow host"
    by (simp add: fun_eq_iff execute_workflow_agree [OF assms(1)])
  have "execute_workflow_capability (host\<lparr>rh_execute := exec\<rparr>) = execute_workflow_capability host"
    unfolding execute_workflow_capability_def clock_update_fields workflow fun_eq_iff by (intro allI, rule refl)
  ultimately show ?thesis
    unfolding execute_started_selection_def Let_def clock_update_fields by (simp split: prod.split)
qed

lemma execute_selected_agree:
  assumes "\<And>h capability input. admitted_call host h capability input \<Longrightarrow> exec h capability input = rh_execute host h capability input"
  shows "execute_selected (host\<lparr>rh_execute := exec\<rparr>) context selected w = execute_selected host context selected w"
proof (cases "admit_selected host context selected (rw_host w)")
  case (Inr admitted)
  obtain c' placement where "admitted = (c', placement)" by (cases admitted)
  with Inr admit_selected_Ok [of host "context" selected "rw_host w" c' placement]
    execute_started_agree [OF assms, of w selected c' placement] show ?thesis
    by (auto simp: execute_selected_def admit_ignores_executor selection_gates_def)
qed (simp add: execute_selected_def admit_ignores_executor)

lemma run_attempt_agree:
  assumes "\<And>h capability input. admitted_call host h capability input \<Longrightarrow> exec h capability input = rh_execute host h capability input"
  shows "run_attempt (host\<lparr>rh_execute := exec\<rparr>) attempt e w = run_attempt host attempt e w"
  by (simp add: run_attempt_def resolve_ignores_executor execute_selected_agree [OF assms]
      split: option.split prod.split list.split)

lemma runtime_execute_Some:
  assumes "runtime_execute host request w = Some (outcome, w')"
  obtains attempt e outcome0 w0 where "start_attempt host request = (attempt, e)"
    "run_attempt host attempt e w = Some (outcome0, w0)"
    "outcome = fst (emit_execution_lifecycle_event host outcome0 (rx_identity (rq_context request)) w0)"
    "w' = snd (emit_execution_lifecycle_event host outcome0 (rx_identity (rq_context request)) w0)"
proof -
  obtain attempt e where s: "start_attempt host request = (attempt, e)" by (cases "start_attempt host request")
  have "map_option (\<lambda>(outcome, w). emit_execution_lifecycle_event host outcome (rx_identity (rq_context request)) w)
      (run_attempt host attempt e w) = Some (outcome, w')"
    using assms unfolding runtime_execute_def Let_def s prod.case .
  then obtain y where "run_attempt host attempt e w = Some y"
    "(\<lambda>(outcome, w). emit_execution_lifecycle_event host outcome (rx_identity (rq_context request)) w) y = (outcome, w')"
    unfolding map_option_eq_Some by blast
  then show thesis by (intro that [OF s, of "fst y" "snd y"]) (simp_all add: case_prod_beta)
qed

lemma sanitized_request_id [simp]: "rq_request_id (sanitized_request sp request) = rq_request_id request"
  by (simp add: sanitized_request_def Let_def split: option.split)

lemma outcome_ok_request_id: "outcome_ok outcome \<Longrightarrow> rr_request_id (ro_result outcome) = rq_request_id (rt_request (ro_trace outcome))"
  by (simp add: outcome_ok_def copies_agree_def Let_def)

lemma lifecycle_event_final [simp]:
  "lifecycle_event host tick (ro_result (fst (emit_execution_lifecycle_event host outcome identity w))) = lifecycle_event host tick (ro_result outcome)"
  by (simp add: fun_eq_iff lifecycle_event_def emit_execution_lifecycle_event_def add_warning_def Let_def case_prod_beta split: sum.split)

lemma runtime_execute_ok:
  assumes "runtime_execute host request w = Some (outcome, w')"
  shows "outcome_ok outcome \<and> rr_request_id (ro_result outcome) = rq_request_id request"
proof (rule runtime_execute_Some [OF assms])
  fix attempt e outcome0 w0
  assume s: "start_attempt host request = (attempt, e)" and r: "run_attempt host attempt e w = Some (outcome0, w0)"
    and o: "outcome = fst (emit_execution_lifecycle_event host outcome0 (rx_identity (rq_context request)) w0)"
  note start = start_attempt_ok [OF s]
  have ok: "outcome_ok outcome0" by (rule run_attempt_ok [OF start(1,2) r])
  then have "outcome_ok outcome" unfolding o by (rule emit_lifecycle_ok)
  then show ?thesis using outcome_ok_request_id [of outcome] start(3) o run_attempt_request(1) [OF r] by simp
qed

subsection \<open>A concrete run\<close>

definition sample_security :: SecurityPlatform where
  "sample_security = \<lparr>sp_sha256 = (\<lambda>_. replicate 32 CHR ''h''), sp_ed25519_verify = (\<lambda>_ _ _. False),
     sp_governed_path = (\<lambda>_. False), sp_parse_json = (\<lambda>_. None)\<rparr>"

definition sample_host :: "(nat, unit) RuntimeHost" where
  "sample_host = \<lparr>rh_execute = (\<lambda>h capability input. (Ok \<lparr>lo_value = input, lo_emitted_events = []\<rparr>, Suc h)),
     rh_broker = discard_event_broker, rh_emit = (\<lambda>h event. (Ok (), h)), rh_read = (\<lambda>h path. Err ''missing''),
     rh_security = sample_security, rh_mode = Production,
     rh_observability = \<lparr>ob_signals = \<lparr>traces_enabled = True, logs_enabled = False, metrics_enabled = False\<rparr>,
       ob_exporter = \<lparr>oe_endpoint = None, oe_protocol = OtlpHttp\<rparr>, deterministic_ids = False, deterministic_seed = None\<rparr>,
     rh_utf8 = (\<lambda>_. True), rh_parse_contract = (\<lambda>_. None), rh_json_text = (\<lambda>_. ''{}''), rh_now = (\<lambda>_. ''now''),
     rh_elapsed_ms = (\<lambda>_. 1), rh_uuid = show_nat, rh_index = empty_index, rh_registry = sample_registry,
     rh_discover = (\<lambda>_. []), rh_resolve_range = (\<lambda>_ _ _. None), rh_resolve_dependencies = (\<lambda>_ _ _. Ok ()),
     rh_semver_ok = (\<lambda>_. True), rh_version_req = (\<lambda>_. None), rh_version_le = (\<lambda>_ _. True),
     rh_workflow_registry = (\<lambda>_ _ _. None), rh_indexed_workflows = Map.empty\<rparr>"

definition sample_world :: "(nat, unit) RuntimeWorld" where
  "sample_world = \<lparr>rw_host = 0, rw_broker = (), rw_traces = Map.empty,
     rw_cache = new_cache 4, rw_tick = 0\<rparr>"

definition sample_request :: RuntimeRequest where
  "sample_request = \<lparr>rq_kind = ''runtime_request'', rq_schema_version = ''1.0.0'', rq_request_id = ''r1'',
     rq_intent = \<lparr>ri_capability_id = Some ''cap.a'', ri_capability_version = Some ''1.0.0'', ri_version_range = None,
       ri_intent_key = None\<rparr>,
     rq_input = JObject [], rq_lookup = \<lparr>rl_scope = RtPreferPrivate, rl_allow_ambiguity = False\<rparr>,
     rq_context = \<lparr>rx_requested_target = TargetLocal, rx_correlation_id = None, rx_caller = Some ''tok'',
       rx_traceparent = None, rx_tracestate = None, rx_metadata = None, rx_identity = None\<rparr>,
     rq_governing_spec = ''006-runtime-request-execution''\<rparr>"

definition sample_selected :: ResolvedCapability where
  "sample_selected = the (sample_registry PreferPrivate ''cap.a'' ''1.0.0'')"

lemma sample_sanitized: "sanitized_request sample_security sample_request = sample_request"
proof -
  have "derive_identity_from_jwt sample_security ''tok'' = None"
    by (simp add: derive_identity_from_jwt_def split_on_def)
  then show ?thesis by (simp add: sanitized_request_def sample_request_def)
qed

lemma sample_valid_request: "validate_request (rh_semver_ok sample_host) sample_request = None"
  by (simp add: validate_request_def Let_def sample_request_def sample_host_def RUNTIME_REQUEST_KIND_def RUNTIME_SCHEMA_VERSION_def
      GOVERNING_SPEC_def some_non_empty_def non_empty_def rust_string_simps)

lemma sample_candidates: "collect_candidates sample_host sample_request = [sample_selected]"
  by (simp add: collect_candidates_def Let_def sample_request_def sample_host_def sample_selected_def sample_registry_def
      is_exact_target_def some_non_empty_def non_empty_def rust_string_simps)

lemma sample_eligible: "evaluate_candidate sample_selected = Eligible sample_selected"
  by (simp add: evaluate_candidate_def sample_selected_def sample_registry_def sample_contract_def Let_def)

lemma sample_fields:
  "rq_input sample_request = JObject []" "rx_requested_target (rq_context sample_request) = TargetLocal"
  "sc_schema (cc_inputs (rc_contract sample_selected)) = JObject []" "sc_schema (cc_outputs (rc_contract sample_selected)) = JObject []"
  "cc_permitted_targets (rc_contract sample_selected) = [Local]" "rec_contract_path (rc_record sample_selected) = ''cap.a''"
  "rec_implementation_kind (rc_record sample_selected) = ExecutableKind" "artifact_binary (rc_artifact sample_selected) = None"
  "rh_resolve_dependencies sample_host i ds scope = Ok ()" "rh_broker sample_host = discard_event_broker"
  "rh_execute sample_host h capability input = (Ok \<lparr>lo_value = input, lo_emitted_events = []\<rparr>, Suc h)"
  by (simp_all add: sample_selected_def sample_registry_def sample_contract_def sample_host_def sample_request_def)

lemma sample_conforms: "conforms (JObject []) (JObject [])"
  by (rule conforms.untyped) (simp add: get_str_def)

lemma sample_payload: "validate_payload_against_contract (JObject []) (JObject []) code message = Ok ()"
  using sample_conforms validate_payload_Ok_iff [of "JObject []" "JObject []" code message "()"] by simp

lemma sample_canonical: "canonical_input_check (JObject []) = Ok ()"
  by (simp add: canonical_input_check_def to_canonical_json_def)

lemma sample_admitted:
  assumes "at_request (ec_attempt context) = sample_request"
  shows "\<exists>c. admit_selected sample_host context sample_selected h = Ok (c, \<lparr>pdr_requested_target = TargetLocal,
    pdr_selected_target = Some TargetLocal, pdr_status = PlacementSelected, pdr_reason = RequestedTargetSelected,
    pdr_supported_executor_targets = supported_executor_targets\<rparr>) \<and> at_request (ec_attempt c) = sample_request"
proof -
  have "\<not> contains_drafts_segment ''cap.a''" by (simp add: contains_drafts_segment_def split_on_def)
  moreover have "load_artifact_bytes_for_verification read sample_selected = Ok []" for read
    by (simp add: load_artifact_bytes_for_verification_def sample_fields)
  moreover obtain v where "verify_artifact (rh_security sample_host) sample_selected [] (rh_mode sample_host) = Ok v"
    by (simp add: verify_artifact_def sample_fields)
  ultimately show ?thesis
    using assms
    by (auto simp: admit_selected_def Let_def sample_fields resolve_placement_def and_then_def sample_payload sample_canonical
        split: sum.split)
qed

lemma sample_started:
  assumes "at_request (ec_attempt context) = sample_request" "pdr_selected_target placement = Some TargetLocal"
  shows "\<exists>outcome w'. execute_started_selection sample_host context sample_selected placement w = Some (outcome, w')
    \<and> rr_status (ro_result outcome) = ResultCompleted"
  using assms
  by (auto simp: execute_started_selection_def Let_def start_selected_execution_def case_prod_beta sample_fields
      execute_with_executor_def router_request_of_def effective_target_def evaluate_placement_def evaluate_targets_def
      bound_local_executor_def validate_natively_emitted_events_def record_durable_def sample_payload)

lemma sample_run:
  "\<exists>outcome w'. runtime_execute sample_host sample_request sample_world = Some (outcome, w') \<and> rr_status (ro_result outcome) = ResultCompleted"
proof -
  obtain attempt e where s: "start_attempt sample_host sample_request = (attempt, e)" by (cases "start_attempt sample_host sample_request")
  then have request: "at_request attempt = sample_request"
    using start_attempt_ok(3) [OF s] sample_sanitized by (simp add: sample_host_def)
  obtain resolution e' w where r: "resolve_candidates sample_host sample_request e sample_world = (resolution, e', w)"
    by (rule prod_cases3)
  then have eligible: "cr_eligible resolution = [sample_selected]" "cr_hydration_failure resolution = None"
    by (auto simp: resolve_candidates_def discover_candidates_def Let_def sample_candidates eligible_candidates_def
        sample_eligible List.map_filter_simps)
  let ?c = "\<lparr>ec_attempt = attempt, ec_emitter = e', ec_candidate_collection = cr_collection resolution,
    ec_selection = selected_record sample_selected\<rparr>"
  obtain c placement where c: "admit_selected sample_host ?c sample_selected (rw_host w) = Ok (c, placement)"
    "at_request (ec_attempt c) = sample_request" "pdr_selected_target placement = Some TargetLocal"
    using sample_admitted [of ?c "rw_host w"] request by auto
  obtain outcome w' where run: "execute_started_selection sample_host c sample_selected placement w = Some (outcome, w')"
    "rr_status (ro_result outcome) = ResultCompleted" using sample_started [OF c(2,3)] by blast
  then have "run_attempt sample_host attempt e sample_world = Some (outcome, w')"
    by (simp add: run_attempt_def request sample_valid_request r eligible execute_selected_def c(1))
  with run s show ?thesis
    by (intro exI [of _ "fst (emit_execution_lifecycle_event sample_host outcome (rx_identity (rq_context sample_request)) w')"]
        exI [of _ "snd (emit_execution_lifecycle_event sample_host outcome (rx_identity (rq_context sample_request)) w')"])
      (simp add: runtime_execute_def)
qed

section \<open>Properties\<close>

text \<open>
  C1: Every outcome of \<^verbatim>\<open>Runtime::execute\<close> is well formed, whatever the executor, the registry, the
  broker and the event sink do: the result and every copy of it in the trace agree, its identifiers
  are derived from the request, success and failure exclude each other, and the state machine
  evidence is an accepted path from idle to ready whose states are exactly those of an execution
  with the reported status; in particular the runtime never pushes a transition that its state
  machine refuses.
\<close>

theorem execution_outcome_well_formed:
  assumes "runtime_execute host request w = Some (outcome, w')"
  shows "outcome_ok outcome \<and> rr_request_id (ro_result outcome) = rq_request_id request"
  using runtime_execute_ok [OF assms] by blast

theorem execution_outcome_well_formed_witness:
  "\<exists>outcome w'. runtime_execute sample_host sample_request sample_world = Some (outcome, w')
     \<and> outcome_ok outcome \<and> rr_request_id (ro_result outcome) = ''r1''"
proof -
  obtain outcome w' where "runtime_execute sample_host sample_request sample_world = Some (outcome, w')" using sample_run by blast
  with execution_outcome_well_formed [OF this] show ?thesis by (auto simp: sample_request_def)
qed



text \<open>
  C3: The executor is consulted only about admitted calls. Two executors that agree on every call
  whose artifact is verified and whose input satisfies the input contract of the capability lead to
  the same outcome and the same world, for executable capabilities and for every step of a workflow;
  so nothing a call with an unverified artifact or an invalid input might do can be observed.
\<close>

theorem executor_sees_only_admitted_calls:
  assumes "\<And>h capability input. admitted_call host h capability input \<Longrightarrow> exec h capability input = rh_execute host h capability input"
  shows "runtime_execute (host\<lparr>rh_execute := exec\<rparr>) request w = runtime_execute host request w"
proof -
  have "start_attempt (host\<lparr>rh_execute := exec\<rparr>) request = start_attempt host request" by (simp add: start_attempt_def)
  moreover have "emit_execution_lifecycle_event (host\<lparr>rh_execute := exec\<rparr>) = emit_execution_lifecycle_event host"
    by (simp add: fun_eq_iff emit_execution_lifecycle_event_def lifecycle_event_def)
  ultimately show ?thesis by (simp add: runtime_execute_def run_attempt_agree [OF assms])
qed

theorem executor_sees_only_admitted_calls_witness:
  "runtime_execute (sample_host\<lparr>rh_execute := \<lambda>h capability input.
       if admitted_call sample_host h capability input then rh_execute sample_host h capability input
       else (Err \<lparr>lf_code = LocalTimeout, lf_message = ''never asked''\<rparr>, h)\<rparr>) sample_request sample_world
   = runtime_execute sample_host sample_request sample_world"
  by (rule executor_sees_only_admitted_calls) simp





end
