(* ===== verification/Event_Broker.thy ===== *)
theory Event_Broker
  imports Event_Types
begin

text \<open>
  The in-process event broker and its catalog:
  \<^verbatim>\<open>crates/traverse-runtime/src/events/broker.rs\<close> and \<^verbatim>\<open>crates/traverse-runtime/src/events/catalog.rs\<close>.

  A \<^verbatim>\<open>HashMap\<close> is a map, a \<^verbatim>\<open>HashSet\<close> a set, a \<^verbatim>\<open>VecDeque\<close> a list. A time is a number, and
  \<^verbatim>\<open>duration_since\<close>, which the source turns into zero for an earlier time, a truncated
  subtraction. The clock is part of the configuration: \<open>bc_clock\<close> gives the reading of the
  \<open>n\<close>-th call, and \<open>ib_tick\<close> counts the calls. Cursors are \<^verbatim>\<open>u64\<close> with saturating arithmetic.
  The mutexes are held for one operation and never poisoned by it, so the poisoned branches
  are left out.
\<close>

section \<open>Definitions\<close>

subsection \<open>The catalog\<close>

record EventCatalogEntry =
  ce_event_type :: string
  ce_owner :: string
  ce_version :: string
  ce_lifecycle_status :: LifecycleStatus
  ce_consumer_count :: nat

type_synonym EventCatalog = "string \<rightharpoonup> EventCatalogEntry"

definition catalog_register :: "EventCatalog \<Rightarrow> EventCatalogEntry \<Rightarrow> (unit, EventError) result \<times> EventCatalog" where
  "catalog_register catalog entry =
     (if catalog (ce_event_type entry) \<noteq> None
      then (Err (LifecycleViolation (''event type '' @ [CHR 0x27] @ ce_event_type entry @ [CHR 0x27]
                                     @ '' is already registered'')), catalog)
      else (Ok (), catalog(ce_event_type entry \<mapsto> entry)))"

definition increment_consumer_count :: "string \<Rightarrow> EventCatalog \<Rightarrow> EventCatalog" where
  "increment_consumer_count event_type catalog =
     (case catalog event_type of
        None \<Rightarrow> catalog
      | Some entry \<Rightarrow> catalog(event_type \<mapsto> entry\<lparr>ce_consumer_count := saturating_add (ce_consumer_count entry) 1\<rparr>))"

subsection \<open>The state of a broker\<close>

record BrokerConfig =
  bc_retention_window :: nat
  bc_max_queue_len :: nat
  bc_clock :: "nat \<Rightarrow> nat"
  bc_validation_mode :: EventValidationMode
  bc_version_ok :: "string \<Rightarrow> bool"

record BufferedEvent =
  be_cursor :: nat
  be_published_at :: nat
  be_event :: TraverseEvent

record SubscriptionState =
  ss_subscription_id :: string
  ss_event_type :: string
  ss_subject_id :: "string option"
  ss_consumer_id :: "string option"
  ss_cursor :: nat
  ss_queue :: "BufferedEvent list"

record EventLineageRecord =
  el_contract_id :: string
  el_contract_version :: string
  el_event_id :: string
  el_producer_id :: string
  el_consumer_id :: string
  el_subscription_id :: string
  el_cursor :: string

record EventTelemetryRecord =
  et_operation :: string
  et_outcome :: string
  et_contract_id :: string
  et_contract_version :: string
  et_event_id :: string
  et_deduplication_id :: "string option"
  et_ordering_scope :: "string option"
  et_correlation_id :: "string option"
  et_causation_id :: "string option"
  et_consumer_id :: "string option"
  et_cursor :: "string option"
  et_retry_count :: nat
  et_latency_ms :: nat

record EventRuntimeMetrics =
  publications :: nat
  deliveries :: nat
  validation_failures :: nat
  quarantines :: nat

record BrokerState =
  next_subscription :: nat
  next_cursor :: "string \<rightharpoonup> nat"
  buffers :: "string \<rightharpoonup> BufferedEvent list"
  seen_event_ids :: "string \<rightharpoonup> string set"
  subscriptions :: "string \<rightharpoonup> SubscriptionState"
  subscriptions_by_event_type :: "string \<rightharpoonup> string set"
  restart_floor :: nat
  validation_evidence :: "EnvelopeEvidence list"
  quarantine_records :: "EnvelopeEvidence list"
  observed_lineage :: "EventLineageRecord list"
  telemetry :: "EventTelemetryRecord list"
  metrics :: EventRuntimeMetrics

record InProcessBroker =
  ib_catalog :: EventCatalog
  ib_state :: BrokerState
  ib_tick :: nat

definition empty_broker_state :: BrokerState where
  "empty_broker_state = \<lparr>next_subscription = 0, next_cursor = Map.empty, buffers = Map.empty,
     seen_event_ids = Map.empty, subscriptions = Map.empty, subscriptions_by_event_type = Map.empty,
     restart_floor = 0, validation_evidence = [], quarantine_records = [], observed_lineage = [],
     telemetry = [], metrics = \<lparr>publications = 0, deliveries = 0, validation_failures = 0, quarantines = 0\<rparr>\<rparr>"

definition with_clock_and_validation :: "EventCatalog \<Rightarrow> BrokerConfig \<Rightarrow> (InProcessBroker, EventError) result" where
  "with_clock_and_validation catalog config =
     (if bc_retention_window config = 0 then Err (InvalidRetentionWindow ''retention_window must be > 0'')
      else if bc_max_queue_len config = 0 then Err (InvalidRetentionWindow ''max_queue_len must be > 0'')
      else Ok \<lparr>ib_catalog = catalog, ib_state = empty_broker_state, ib_tick = 0\<rparr>)"

subsection \<open>Helpers\<close>

definition parse_cursor :: "string \<Rightarrow> (nat, EventError) result" where
  "parse_cursor raw =
     (let trimmed = trim raw
      in if trimmed = ''0'' then Ok 0
         else ok_or (parse_u64 trimmed)
                (InvalidCursor (''cursor must be '' @ [CHR 0x22] @ ''0'' @ [CHR 0x22] @ '' or a base-10 unsigned integer'')))"

definition cursor_to_string :: "nat \<Rightarrow> string" where
  "cursor_to_string cursor = show_nat cursor"

text \<open>The loop pops while the queue is full; a limit of zero, for which the loop of the source
  would not end, is refused by the constructor.\<close>

fun pop_while_full :: "nat \<Rightarrow> BufferedEvent list \<Rightarrow> BufferedEvent list" where
  "pop_while_full max_len [] = []"
| "pop_while_full max_len (e # queue) =
     (if length (e # queue) \<ge> max_len then pop_while_full max_len queue else e # queue)"

definition enqueue_with_drop_oldest :: "BufferedEvent list \<Rightarrow> nat \<Rightarrow> BufferedEvent \<Rightarrow> BufferedEvent list" where
  "enqueue_with_drop_oldest queue max_len item = pop_while_full max_len queue @ [item]"

text \<open>The expired events at the front of a buffer, whose identities are forgotten, and the rest.\<close>

fun pop_expired :: "nat \<Rightarrow> nat \<Rightarrow> BufferedEvent list \<Rightarrow> string set \<Rightarrow> BufferedEvent list \<times> string set" where
  "pop_expired window now [] ids = ([], ids)"
| "pop_expired window now (front # buffer) ids =
     (if now - be_published_at front \<le> window then (front # buffer, ids)
      else pop_expired window now buffer (ids - {te_id (be_event front)}))"

definition drop_behind :: "nat \<Rightarrow> BufferedEvent list \<Rightarrow> BufferedEvent list" where
  "drop_behind oldest queue = dropWhile (\<lambda>e. be_cursor e < oldest) queue"

definition subscription_ids_for_event_type :: "BrokerState \<Rightarrow> string \<Rightarrow> string set" where
  "subscription_ids_for_event_type st event_type =
     (case subscriptions_by_event_type st event_type of None \<Rightarrow> {} | Some ids \<Rightarrow> ids)"

text \<open>The loops over the subscriptions of an event type change each subscription on its own.\<close>

definition update_subscriptions ::
  "string set \<Rightarrow> (SubscriptionState \<Rightarrow> SubscriptionState) \<Rightarrow> (string \<rightharpoonup> SubscriptionState) \<Rightarrow> (string \<rightharpoonup> SubscriptionState)" where
  "update_subscriptions ids f subs = (\<lambda>i. if i \<in> ids then map_option f (subs i) else subs i)"

definition prune_expired :: "BrokerState \<Rightarrow> string \<Rightarrow> nat \<Rightarrow> nat \<Rightarrow> BrokerState" where
  "prune_expired st event_type window now =
     (let buffer = (case buffers st event_type of None \<Rightarrow> [] | Some b \<Rightarrow> b);
          ids = (case seen_event_ids st event_type of None \<Rightarrow> {} | Some s \<Rightarrow> s);
          (kept, ids') = pop_expired window now buffer ids;
          st = st\<lparr>buffers := (buffers st)(event_type \<mapsto> kept),
                  seen_event_ids := (case seen_event_ids st event_type of
                                       None \<Rightarrow> seen_event_ids st
                                     | Some _ \<Rightarrow> (seen_event_ids st)(event_type \<mapsto> ids'))\<rparr>
      in case kept of
           [] \<Rightarrow> st
         | front # _ \<Rightarrow>
             st\<lparr>subscriptions := update_subscriptions (subscription_ids_for_event_type st event_type)
                  (\<lambda>sub. sub\<lparr>ss_queue := drop_behind (be_cursor front) (ss_queue sub)\<rparr>) (subscriptions st)\<rparr>)"

definition last_cursor :: "BrokerState \<Rightarrow> string \<Rightarrow> nat" where
  "last_cursor st event_type = (case next_cursor st event_type of None \<Rightarrow> 0 | Some n \<Rightarrow> n)"

definition validate_from_cursor :: "BrokerState \<Rightarrow> string \<Rightarrow> nat \<Rightarrow> (unit, EventError) result" where
  "validate_from_cursor st event_type from_cursor =
     (if from_cursor = 0 then Ok ()
      else (let last = max (last_cursor st event_type) (restart_floor st)
            in case buffers st event_type of
                 Some (front # _) \<Rightarrow>
                   if from_cursor < be_cursor front - 1
                   then Err (CursorExpired event_type (cursor_to_string (be_cursor front - 1)))
                   else Ok ()
               | _ \<Rightarrow>
                   if last > 0 \<and> from_cursor < last then Err (CursorExpired event_type (cursor_to_string last))
                   else Ok ()))"

definition telemetry_record ::
  "string \<Rightarrow> string \<Rightarrow> TraverseEvent \<Rightarrow> string option \<Rightarrow> string option \<Rightarrow> EventTelemetryRecord" where
  "telemetry_record operation outcome event consumer_id cursor =
     \<lparr>et_operation = operation, et_outcome = outcome, et_contract_id = te_event_type event,
      et_contract_version = te_version event, et_event_id = te_id event,
      et_deduplication_id = te_deduplication_id event, et_ordering_scope = te_ordering_scope event,
      et_correlation_id = te_correlation_id event, et_causation_id = te_causation_id event,
      et_consumer_id = consumer_id, et_cursor = cursor, et_retry_count = 0, et_latency_ms = 0\<rparr>"

subsection \<open>Subscribing\<close>

definition subject_matches :: "string option \<Rightarrow> TraverseEvent \<Rightarrow> bool" where
  "subject_matches subject_id event \<longleftrightarrow>
     (case subject_id of None \<Rightarrow> True | Some subject \<Rightarrow> te_subject_id event = Some subject)"

fun replay_queue :: "nat \<Rightarrow> nat \<Rightarrow> string option \<Rightarrow> BufferedEvent list \<Rightarrow> BufferedEvent list \<Rightarrow> BufferedEvent list" where
  "replay_queue max_len from_cursor subject_id queue [] = queue"
| "replay_queue max_len from_cursor subject_id queue (item # buffer) =
     replay_queue max_len from_cursor subject_id
       (if (from_cursor = 0 \<or> be_cursor item > from_cursor) \<and> subject_matches subject_id (be_event item)
        then enqueue_with_drop_oldest queue max_len item else queue) buffer"

definition subscription_name :: "nat \<Rightarrow> string" where
  "subscription_name n = ''sub-'' @ show_nat n"

definition subscribe_with_subject ::
  "BrokerConfig \<Rightarrow> InProcessBroker \<Rightarrow> string \<Rightarrow> string \<Rightarrow> string option \<Rightarrow> string option \<Rightarrow>
     (Subscription, EventError) result \<times> InProcessBroker" where
  "subscribe_with_subject config b event_type from_cursor subject_id consumer_id =
     (if ib_catalog b event_type = None then (Err (UnregisteredEventType event_type), b)
      else case parse_cursor from_cursor of
        Inl e \<Rightarrow> (Err e, b)
      | Inr from \<Rightarrow>
          (let now = bc_clock config (ib_tick b);
               st = prune_expired (ib_state b) event_type (bc_retention_window config) now;
               b = b\<lparr>ib_state := st, ib_tick := Suc (ib_tick b)\<rparr>
           in case validate_from_cursor st event_type from of
                Inl e \<Rightarrow> (Err e, b)
              | Inr _ \<Rightarrow>
                  (let n = saturating_add (next_subscription st) 1;
                       subscription_id = subscription_name n;
                       buffer = (case buffers st event_type of None \<Rightarrow> [] | Some items \<Rightarrow> items);
                       queue = replay_queue (bc_max_queue_len config) from subject_id [] buffer;
                       sub = \<lparr>ss_subscription_id = subscription_id, ss_event_type = event_type,
                              ss_subject_id = subject_id, ss_consumer_id = consumer_id,
                              ss_cursor = from, ss_queue = queue\<rparr>
                   in (Ok \<lparr>sub_subscription_id = subscription_id, sub_event_type = event_type,
                           sub_cursor = cursor_to_string from\<rparr>,
                       b\<lparr>ib_catalog := increment_consumer_count event_type (ib_catalog b),
                         ib_state := st\<lparr>next_subscription := n,
                           subscriptions := (subscriptions st)(subscription_id \<mapsto> sub),
                           subscriptions_by_event_type := (subscriptions_by_event_type st)
                             (event_type \<mapsto> insert subscription_id (subscription_ids_for_event_type st event_type))\<rparr>\<rparr>))))"

definition ib_subscribe ::
  "BrokerConfig \<Rightarrow> InProcessBroker \<Rightarrow> string \<Rightarrow> string \<Rightarrow> (Subscription, EventError) result \<times> InProcessBroker" where
  "ib_subscribe config b event_type from_cursor = subscribe_with_subject config b event_type from_cursor None None"

definition subscribe_for_subject ::
  "BrokerConfig \<Rightarrow> InProcessBroker \<Rightarrow> string \<Rightarrow> string \<Rightarrow> string option \<Rightarrow>
     (Subscription, EventError) result \<times> InProcessBroker" where
  "subscribe_for_subject config b event_type from_cursor subject_id =
     subscribe_with_subject config b event_type from_cursor subject_id None"

definition subscribe_for_consumer ::
  "BrokerConfig \<Rightarrow> InProcessBroker \<Rightarrow> string \<Rightarrow> string \<Rightarrow> string \<Rightarrow> string option \<Rightarrow>
     (Subscription, EventError) result \<times> InProcessBroker" where
  "subscribe_for_consumer config b event_type from_cursor consumer_id subject_id =
     (if blank consumer_id then (Err (LifecycleViolation ''consumer_id must not be empty''), b)
      else subscribe_with_subject config b event_type from_cursor subject_id (Some consumer_id))"

subsection \<open>Publishing\<close>

definition validate_boundary :: "BrokerConfig \<Rightarrow> BrokerState \<Rightarrow> TraverseEvent \<Rightarrow> (unit, EventError) result \<times> BrokerState" where
  "validate_boundary config st event =
     (let validation = validate_event (bc_version_ok config) event (bc_validation_mode config);
          outcome = (if evr_diagnostics validation = [] then ''accepted''
                     else if evr_accepted validation then ''reported'' else ''rejected'');
          st = (case evidence_from_result validation of
                  None \<Rightarrow> st
                | Some evidence \<Rightarrow>
                    (let st = st\<lparr>validation_evidence := validation_evidence st @ [evidence],
                                 metrics := (metrics st)\<lparr>validation_failures := saturating_add (validation_failures (metrics st)) 1\<rparr>\<rparr>
                     in if evr_accepted validation then st
                        else st\<lparr>quarantine_records := quarantine_records st @ [evidence],
                                metrics := (metrics st)\<lparr>quarantines := saturating_add (quarantines (metrics st)) 1\<rparr>\<rparr>));
          st = st\<lparr>telemetry := telemetry st @ [telemetry_record ''traverse.event.validation'' outcome event None None]\<rparr>
      in (if evr_accepted validation then Ok ()
          else Err (ValidationRejected (case evr_diagnostics validation of [] \<Rightarrow> ''EVP-000'' | d # _ \<Rightarrow> evd_code d)), st))"

definition deliver_live :: "nat \<Rightarrow> BufferedEvent \<Rightarrow> SubscriptionState \<Rightarrow> SubscriptionState" where
  "deliver_live max_len item sub =
     (if \<not> subject_matches (ss_subject_id sub) (be_event item) then sub
      else sub\<lparr>ss_queue := enqueue_with_drop_oldest (ss_queue sub) max_len item\<rparr>)"

definition accept_event :: "BrokerConfig \<Rightarrow> BrokerState \<Rightarrow> nat \<Rightarrow> TraverseEvent \<Rightarrow> nat option \<Rightarrow> BrokerState" where
  "accept_event config st now event assigned_cursor =
     (let event_type = te_event_type event;
          seen = (case seen_event_ids st event_type of None \<Rightarrow> {} | Some ids \<Rightarrow> ids);
          (next, cursor) = (case assigned_cursor of
                              Some assigned \<Rightarrow> (max (last_cursor st event_type) assigned, assigned)
                            | None \<Rightarrow> (let n = saturating_add (last_cursor st event_type) 1 in (n, n)));
          item = \<lparr>be_cursor = cursor, be_published_at = now, be_event = event\<rparr>;
          buffer = (case buffers st event_type of None \<Rightarrow> [] | Some items \<Rightarrow> items)
      in st\<lparr>seen_event_ids := (seen_event_ids st)(event_type \<mapsto> insert (te_id event) seen),
            metrics := (metrics st)\<lparr>publications := saturating_add (publications (metrics st)) 1\<rparr>,
            telemetry := telemetry st @ [telemetry_record ''traverse.event.publish'' ''accepted'' event None None],
            next_cursor := (next_cursor st)(event_type \<mapsto> next),
            buffers := (buffers st)(event_type \<mapsto> buffer @ [item]),
            subscriptions := update_subscriptions (subscription_ids_for_event_type st event_type)
              (deliver_live (bc_max_queue_len config) item) (subscriptions st)\<rparr>)"

definition publish_internal ::
  "BrokerConfig \<Rightarrow> InProcessBroker \<Rightarrow> TraverseEvent \<Rightarrow> nat option \<Rightarrow> (unit, EventError) result \<times> InProcessBroker" where
  "publish_internal config b event assigned_cursor =
     (case validate_boundary config (ib_state b) event of
        (Inl e, st) \<Rightarrow> (Err e, b\<lparr>ib_state := st\<rparr>)
      | (Inr _, st) \<Rightarrow>
          (case ib_catalog b (te_event_type event) of
             None \<Rightarrow> (Err (UnregisteredEventType (te_event_type event)), b\<lparr>ib_state := st\<rparr>)
           | Some entry \<Rightarrow>
               (case ce_lifecycle_status entry of
                  EventDeprecated \<Rightarrow>
                    (Err (LifecycleViolation (''event type '' @ [CHR 0x27] @ te_event_type event @ [CHR 0x27]
                       @ '' is Deprecated and cannot be published'')), b\<lparr>ib_state := st\<rparr>)
                | EventDraft \<Rightarrow>
                    (Err (LifecycleViolation (''event type '' @ [CHR 0x27] @ te_event_type event @ [CHR 0x27]
                       @ '' is Draft and cannot be published'')), b\<lparr>ib_state := st\<rparr>)
                | EventActive \<Rightarrow>
                    (let now = bc_clock config (ib_tick b);
                         st = prune_expired st (te_event_type event) (bc_retention_window config) now;
                         seen = (case seen_event_ids st (te_event_type event) of None \<Rightarrow> {} | Some ids \<Rightarrow> ids)
                     in (Ok (), b\<lparr>ib_state := (if te_id event \<in> seen then st
                                              else accept_event config st now event assigned_cursor),
                                  ib_tick := Suc (ib_tick b)\<rparr>)))))"

definition ib_publish :: "BrokerConfig \<Rightarrow> InProcessBroker \<Rightarrow> TraverseEvent \<Rightarrow> (unit, EventError) result \<times> InProcessBroker" where
  "ib_publish config b event = publish_internal config b event None"

definition publish_with_cursor ::
  "BrokerConfig \<Rightarrow> InProcessBroker \<Rightarrow> TraverseEvent \<Rightarrow> string \<Rightarrow> (unit, EventError) result \<times> InProcessBroker" where
  "publish_with_cursor config b event cursor =
     (case parse_cursor cursor of
        Inl e \<Rightarrow> (Err e, b)
      | Inr assigned \<Rightarrow> publish_internal config b event (Some assigned))"

definition seed_restart_floor :: "InProcessBroker \<Rightarrow> nat \<Rightarrow> InProcessBroker" where
  "seed_restart_floor b floor =
     b\<lparr>ib_state := (ib_state b)\<lparr>restart_floor := max (restart_floor (ib_state b)) floor\<rparr>\<rparr>"

subsection \<open>Polling and cancelling\<close>

definition consumer_of :: "SubscriptionState \<Rightarrow> string" where
  "consumer_of sub = (case ss_consumer_id sub of Some c \<Rightarrow> c | None \<Rightarrow> ss_subscription_id sub)"

definition lineage_record :: "SubscriptionState \<Rightarrow> BufferedEvent \<Rightarrow> EventLineageRecord" where
  "lineage_record sub item =
     \<lparr>el_contract_id = te_event_type (be_event item), el_contract_version = te_version (be_event item),
      el_event_id = te_id (be_event item), el_producer_id = te_owner (be_event item),
      el_consumer_id = consumer_of sub, el_subscription_id = ss_subscription_id sub,
      el_cursor = cursor_to_string (be_cursor item)\<rparr>"

text \<open>The delivery loop takes up to \<open>max_events\<close> items off the queue, in order.\<close>

definition deliver_queued :: "BrokerState \<Rightarrow> SubscriptionState \<Rightarrow> nat \<Rightarrow> BrokerEvent list \<times> SubscriptionState \<times> BrokerState" where
  "deliver_queued st sub max_events =
     (let items = take max_events (ss_queue sub);
          delivered_cursor = (if items = [] then ss_cursor sub else be_cursor (last items))
      in (map (\<lambda>item. \<lparr>bev_cursor = cursor_to_string (be_cursor item), bev_event = be_event item\<rparr>) items,
          sub\<lparr>ss_queue := drop max_events (ss_queue sub), ss_cursor := delivered_cursor\<rparr>,
          st\<lparr>observed_lineage := observed_lineage st @ map (lineage_record sub) items,
             telemetry := telemetry st @ map (\<lambda>item. telemetry_record ''traverse.event.delivery'' ''delivered''
               (be_event item) (Some (consumer_of sub)) (Some (cursor_to_string (be_cursor item)))) items,
             metrics := (metrics st)\<lparr>deliveries := saturating_add (deliveries (metrics st)) (length items)\<rparr>\<rparr>))"

definition ib_poll ::
  "BrokerConfig \<Rightarrow> InProcessBroker \<Rightarrow> string \<Rightarrow> nat \<Rightarrow> (SubscriptionPoll, EventError) result \<times> InProcessBroker" where
  "ib_poll config b subscription_id max_events =
     (let now = bc_clock config (ib_tick b); st = ib_state b; b = b\<lparr>ib_tick := Suc (ib_tick b)\<rparr>
      in case subscriptions st subscription_id of
           None \<Rightarrow> (Err (SubscriptionNotFound subscription_id), b)
         | Some sub \<Rightarrow>
             (let event_type = ss_event_type sub;
                  st = st\<lparr>subscriptions := (subscriptions st)(subscription_id := None)\<rparr>;
                  st = prune_expired st event_type (bc_retention_window config) now
              in case validate_from_cursor st event_type (ss_cursor sub) of
                   Inl e \<Rightarrow> (Err e, b\<lparr>ib_state := st\<rparr>)
                 | Inr _ \<Rightarrow>
                     (let sub = (case buffers st event_type of
                                   Some (front # _) \<Rightarrow> sub\<lparr>ss_queue := drop_behind (be_cursor front) (ss_queue sub)\<rparr>
                                 | _ \<Rightarrow> sub)
                      in if max_events = 0
                         then (Ok \<lparr>poll_subscription_id = subscription_id, poll_event_type = event_type,
                                   poll_cursor = cursor_to_string (ss_cursor sub), poll_events = []\<rparr>,
                               b\<lparr>ib_state := st\<lparr>subscriptions := (subscriptions st)(ss_subscription_id sub \<mapsto> sub)\<rparr>\<rparr>)
                         else (let (out, sub, st) = deliver_queued st sub max_events
                               in (Ok \<lparr>poll_subscription_id = ss_subscription_id sub, poll_event_type = ss_event_type sub,
                                       poll_cursor = cursor_to_string (ss_cursor sub), poll_events = out\<rparr>,
                                   b\<lparr>ib_state := st\<lparr>subscriptions := (subscriptions st)(ss_subscription_id sub \<mapsto> sub)\<rparr>\<rparr>)))))"

definition ib_cancel :: "InProcessBroker \<Rightarrow> string \<Rightarrow> (unit, EventError) result \<times> InProcessBroker" where
  "ib_cancel b subscription_id =
     (let st = ib_state b
      in case subscriptions st subscription_id of
           None \<Rightarrow> (Err (SubscriptionNotFound subscription_id), b)
         | Some sub \<Rightarrow>
             (Ok (), b\<lparr>ib_state := st\<lparr>subscriptions := (subscriptions st)(subscription_id := None),
                subscriptions_by_event_type :=
                  (case subscriptions_by_event_type st (ss_event_type sub) of
                     None \<Rightarrow> subscriptions_by_event_type st
                   | Some ids \<Rightarrow>
                       (let ids = ids - {subscription_id}
                        in if ids = {} then (subscriptions_by_event_type st)(ss_event_type sub := None)
                           else (subscriptions_by_event_type st)(ss_event_type sub \<mapsto> ids)))\<rparr>\<rparr>))"

definition in_process_broker :: "BrokerConfig \<Rightarrow> InProcessBroker EventBroker" where
  "in_process_broker config = \<lparr>eb_publish = ib_publish config, eb_subscribe = ib_subscribe config,
     eb_poll = ib_poll config, eb_cancel = ib_cancel\<rparr>"


subsection \<open>Runs\<close>

text \<open>The operations of a standalone broker; \<^verbatim>\<open>publish_with_cursor\<close>, whose cursors are assigned by the
  durable journal, is not among them.\<close>

datatype broker_op =
  OpPublish TraverseEvent
| OpSubscribe string string "string option" "string option"
| OpPoll string nat
| OpCancel string
| OpSeed nat

fun broker_step :: "BrokerConfig \<Rightarrow> broker_op \<Rightarrow> InProcessBroker \<Rightarrow> InProcessBroker" where
  "broker_step config (OpPublish event) b = snd (ib_publish config b event)"
| "broker_step config (OpSubscribe event_type from_cursor subject_id consumer_id) b =
     snd (subscribe_with_subject config b event_type from_cursor subject_id consumer_id)"
| "broker_step config (OpPoll subscription_id max_events) b = snd (ib_poll config b subscription_id max_events)"
| "broker_step config (OpCancel subscription_id) b = snd (ib_cancel b subscription_id)"
| "broker_step config (OpSeed floor) b = seed_restart_floor b floor"

definition broker_run :: "BrokerConfig \<Rightarrow> EventCatalog \<Rightarrow> broker_op list \<Rightarrow> InProcessBroker" where
  "broker_run config catalog ops =
     fold (broker_step config) ops \<lparr>ib_catalog = catalog, ib_state = empty_broker_state, ib_tick = 0\<rparr>"

section \<open>The invariant\<close>

definition buffer_of :: "BrokerState \<Rightarrow> string \<Rightarrow> BufferedEvent list" where
  "buffer_of st event_type = (case buffers st event_type of None \<Rightarrow> [] | Some items \<Rightarrow> items)"

definition seen_of :: "BrokerState \<Rightarrow> string \<Rightarrow> string set" where
  "seen_of st event_type = (case seen_event_ids st event_type of None \<Rightarrow> {} | Some ids \<Rightarrow> ids)"

text \<open>The cursors delivered so far to a subscription, from the lineage the broker records.\<close>

definition delivered :: "BrokerState \<Rightarrow> string \<Rightarrow> nat list" where
  "delivered st sid =
     map (\<lambda>l. the (parse_digits 0 (el_cursor l))) (filter (\<lambda>l. el_subscription_id l = sid) (observed_lineage st))"

text \<open>A retained buffer: cursors increase, and no event identity occurs twice.\<close>

definition buffer_wf :: "nat \<Rightarrow> string \<Rightarrow> BufferedEvent list \<Rightarrow> bool" where
  "buffer_wf hi event_type items \<longleftrightarrow>
     sorted_wrt (<) (map be_cursor items) \<and> distinct (map (\<lambda>e. te_id (be_event e)) items)
     \<and> (\<forall>e \<in> set items. be_cursor e \<le> hi \<and> te_event_type (be_event e) = event_type)"

text \<open>A subscription: what it was given and what is queued for it is in the order of publication.\<close>

definition sub_wf :: "nat \<Rightarrow> (string \<Rightarrow> nat) \<Rightarrow> nat list \<Rightarrow> SubscriptionState \<Rightarrow> bool" where
  "sub_wf max_len hi given sub \<longleftrightarrow>
     sorted_wrt (<) (given @ map be_cursor (ss_queue sub))
     \<and> (\<forall>c \<in> set given. c \<le> hi (ss_event_type sub))
     \<and> (\<forall>e \<in> set (ss_queue sub). be_cursor e \<le> hi (ss_event_type sub)
          \<and> te_event_type (be_event e) = ss_event_type sub \<and> subject_matches (ss_subject_id sub) (be_event e))
     \<and> length (ss_queue sub) \<le> max_len"

definition broker_inv :: "BrokerConfig \<Rightarrow> nat \<Rightarrow> BrokerState \<Rightarrow> bool" where
  "broker_inv config n st \<longleftrightarrow>
     (\<forall>et. buffer_wf (last_cursor st et) et (buffer_of st et)
        \<and> seen_of st et = (\<lambda>e. te_id (be_event e)) ` set (buffer_of st et))
   \<and> (\<forall>sid sub. subscriptions st sid = Some sub \<longrightarrow>
        ss_subscription_id sub = sid
        \<and> (\<forall>et. sid \<in> subscription_ids_for_event_type st et \<longleftrightarrow> et = ss_event_type sub)
        \<and> sub_wf (bc_max_queue_len config) (last_cursor st) (delivered st sid) sub)
   \<and> (\<forall>sid. sorted_wrt (<) (delivered st sid))
   \<and> (\<forall>sid et. subscriptions st sid \<noteq> None \<or> delivered st sid \<noteq> [] \<or> sid \<in> subscription_ids_for_event_type st et \<longrightarrow>
        (\<exists>k \<le> next_subscription st. sid = subscription_name k))
   \<and> next_subscription st \<le> n \<and> (\<forall>et. last_cursor st et \<le> n)"

section \<open>Lemmas\<close>

subsection \<open>Queues\<close>

lemma pop_while_full_drop: "\<exists>k. pop_while_full m q = drop k q"
proof (induction q)
  case (Cons e q)
  then obtain k where "pop_while_full m q = drop k q" by blast
  then have "pop_while_full m (e # q) = drop (if length (e # q) \<ge> m then Suc k else 0) (e # q)" by simp
  then show ?case by blast
qed simp

lemma pop_while_full_length: "0 < m \<Longrightarrow> length (pop_while_full m q) < m"
  by (induction q) auto

lemma pop_while_full_set: "set (pop_while_full m q) \<subseteq> set q"
  using pop_while_full_drop [of m q] by (metis set_drop_subset)

lemma drop_behind_drop: "\<exists>k. drop_behind c q = drop k q"
  unfolding drop_behind_def by (metis dropWhile_eq_drop)

lemma pop_expired_drop: "\<exists>k. fst (pop_expired w now items ids) = drop k items"
proof (induction items arbitrary: ids)
  case (Cons e items)
  then obtain k where "fst (pop_expired w now items (ids - {te_id (be_event e)})) = drop k items" by blast
  then have "fst (pop_expired w now (e # items) ids)
      = drop (if now - be_published_at e \<le> w then 0 else Suc k) (e # items)" by simp
  then show ?case by blast
qed simp

lemma pop_expired_ids:
  "distinct (map (\<lambda>e. te_id (be_event e)) items) \<Longrightarrow>
   snd (pop_expired w now items ((\<lambda>e. te_id (be_event e)) ` set items))
     = (\<lambda>e. te_id (be_event e)) ` set (fst (pop_expired w now items ids))"
proof (induction items arbitrary: ids)
  case (Cons e items)
  then have "(\<lambda>e. te_id (be_event e)) ` set (e # items) - {te_id (be_event e)} = (\<lambda>e. te_id (be_event e)) ` set items"
    by auto
  with Cons show ?case by simp
qed simp

lemma fst_pop_expired: "fst (pop_expired w now items ids) = fst (pop_expired w now items ids')"
  by (induction items arbitrary: ids ids') auto

lemma sorted_map_drop: "sorted_wrt R (map f q) \<Longrightarrow> sorted_wrt R (map f (drop k q))"
  by (simp add: drop_map [symmetric] sorted_wrt_drop)

lemma buffer_wf_drop: "buffer_wf hi et items \<Longrightarrow> buffer_wf hi et (drop k items)"
  unfolding buffer_wf_def
  by (auto intro: sorted_map_drop dest: in_set_dropD simp: drop_map [symmetric])

lemma sub_wf_drop:
  assumes "sub_wf m hi given sub"
  shows "sub_wf m hi given (sub\<lparr>ss_queue := drop k (ss_queue sub)\<rparr>)"
proof -
  have "sorted_wrt (<) (given @ map be_cursor (drop k (ss_queue sub)))"
    using assms by (auto simp: sub_wf_def sorted_wrt_append intro: sorted_map_drop dest: in_set_dropD)
  with assms show ?thesis by (auto simp: sub_wf_def dest: in_set_dropD)
qed

lemma sub_wf_mono:
  "sub_wf m hi given sub \<Longrightarrow> (\<And>et. hi et \<le> hi' et) \<Longrightarrow> sub_wf m hi' given sub"
  unfolding sub_wf_def by (meson le_trans)

lemma sub_wf_enqueue:
  assumes "sub_wf m hi given sub" "0 < m" "te_event_type (be_event item) = ss_event_type sub"
    "hi (ss_event_type sub) < be_cursor item" "be_cursor item \<le> hi' (ss_event_type sub)"
    "subject_matches (ss_subject_id sub) (be_event item)"
  shows "sub_wf m hi' given (sub\<lparr>ss_queue := enqueue_with_drop_oldest (ss_queue sub) m item\<rparr>)"
proof -
  obtain k where k: "pop_while_full m (ss_queue sub) = drop k (ss_queue sub)" using pop_while_full_drop by blast
  define q where "q = drop k (ss_queue sub)"
  have q: "sub_wf m hi given (sub\<lparr>ss_queue := q\<rparr>)" using sub_wf_drop [OF assms(1)] by (simp add: q_def)
  have len: "length q < m" using pop_while_full_length [OF assms(2)] k q_def by metis
  have below: "c < be_cursor item" if "c \<in> set given \<or> c \<in> be_cursor ` set q" for c
    using that q assms(4) by (fastforce simp: sub_wf_def)
  have sorted: "sorted_wrt (<) (given @ map be_cursor q)" using q by (simp add: sub_wf_def)
  have "sorted_wrt (<) ((given @ map be_cursor q) @ [be_cursor item])"
    using sorted below by (simp only: sorted_wrt_append) auto
  with q len below assms show ?thesis
    by (fastforce simp: sub_wf_def enqueue_with_drop_oldest_def k q_def [symmetric])
qed

lemma subject_matches_None [simp]: "subject_matches None e"
  by (simp add: subject_matches_def)

subsection \<open>Replay\<close>

lemma replay_queue_wf:
  assumes "sorted_wrt (<) (map be_cursor (queue @ items))" "0 < m" "length queue \<le> m"
    "\<forall>e \<in> set queue. subject_matches subj (be_event e)"
  shows "sorted_wrt (<) (map be_cursor (replay_queue m from subj queue items))
    \<and> length (replay_queue m from subj queue items) \<le> m
    \<and> set (replay_queue m from subj queue items) \<subseteq> set (queue @ items)
    \<and> (\<forall>e \<in> set (replay_queue m from subj queue items). subject_matches subj (be_event e))"
  using assms
proof (induction items arbitrary: queue)
  case (Cons item items)
  define queue' where "queue' = (if (from = 0 \<or> be_cursor item > from) \<and> subject_matches subj (be_event item)
        then enqueue_with_drop_oldest queue m item else queue)"
  obtain k where k: "pop_while_full m queue = drop k queue" using pop_while_full_drop by blast
  have sub: "set queue' \<subseteq> insert item (set queue)"
    using set_drop_subset [of k queue] by (auto simp: queue'_def enqueue_with_drop_oldest_def k)
  have "sorted_wrt (<) (map be_cursor (queue @ item # items))" by (rule Cons.prems(1))
  then have "sorted_wrt (<) (map be_cursor (queue' @ items))"
    by (auto simp: queue'_def enqueue_with_drop_oldest_def k sorted_wrt_append
             intro: sorted_map_drop dest: in_set_dropD)
  moreover have "length queue' \<le> m"
    using Cons.prems(3) pop_while_full_length [OF Cons.prems(2), of queue]
    by (auto simp: queue'_def enqueue_with_drop_oldest_def)
  moreover have "\<forall>e \<in> set queue'. subject_matches subj (be_event e)"
    using Cons.prems(4) by (auto simp: queue'_def enqueue_with_drop_oldest_def k dest: in_set_dropD)
  ultimately have "sorted_wrt (<) (map be_cursor (replay_queue m from subj queue' items))
    \<and> length (replay_queue m from subj queue' items) \<le> m
    \<and> set (replay_queue m from subj queue' items) \<subseteq> set (queue' @ items)
    \<and> (\<forall>e \<in> set (replay_queue m from subj queue' items). subject_matches subj (be_event e))"
    using Cons.IH Cons.prems(2) by blast
  with sub show ?case by (auto simp: queue'_def [symmetric])
qed simp

subsection \<open>The operations keep the invariant\<close>

lemma broker_invD:
  assumes "broker_inv config n st"
  shows "buffer_wf (last_cursor st et) et (buffer_of st et)"
    and "seen_of st et = (\<lambda>e. te_id (be_event e)) ` set (buffer_of st et)"
    and "sorted_wrt (<) (delivered st sid)"
    and "next_subscription st \<le> n"
    and "last_cursor st et \<le> n"
    and "subscriptions st sid = Some sub \<Longrightarrow> ss_subscription_id sub = sid"
    and "subscriptions st sid = Some sub \<Longrightarrow> sid \<in> subscription_ids_for_event_type st et \<longleftrightarrow> et = ss_event_type sub"
    and "subscriptions st sid = Some sub \<Longrightarrow> sub_wf (bc_max_queue_len config) (last_cursor st) (delivered st sid) sub"
    and "subscriptions st sid \<noteq> None \<or> delivered st sid \<noteq> [] \<or> sid \<in> subscription_ids_for_event_type st et \<Longrightarrow>
         \<exists>k \<le> next_subscription st. sid = subscription_name k"
  using assms unfolding broker_inv_def by blast+

lemma broker_invI:
  assumes "\<And>et. buffer_wf (last_cursor st et) et (buffer_of st et)
        \<and> seen_of st et = (\<lambda>e. te_id (be_event e)) ` set (buffer_of st et)"
    and "\<And>sid sub. subscriptions st sid = Some sub \<Longrightarrow>
        ss_subscription_id sub = sid
        \<and> (\<forall>et. sid \<in> subscription_ids_for_event_type st et \<longleftrightarrow> et = ss_event_type sub)
        \<and> sub_wf (bc_max_queue_len config) (last_cursor st) (delivered st sid) sub"
    and "\<And>sid. sorted_wrt (<) (delivered st sid)"
    and "\<And>sid et. subscriptions st sid \<noteq> None \<or> delivered st sid \<noteq> [] \<or> sid \<in> subscription_ids_for_event_type st et \<Longrightarrow>
        \<exists>k \<le> next_subscription st. sid = subscription_name k"
    and "next_subscription st \<le> n" and "\<And>et. last_cursor st et \<le> n"
  shows "broker_inv config n st"
  unfolding broker_inv_def by (intro conjI) ((intro allI impI)?, rule assms, assumption?)+

lemma broker_inv_mono: "broker_inv config n st \<Longrightarrow> n \<le> m \<Longrightarrow> broker_inv config m st"
  unfolding broker_inv_def by (meson le_trans)

text \<open>What the invariant reads of a state.\<close>

lemmas broker_views = buffer_of_def seen_of_def delivered_def last_cursor_def subscription_ids_for_event_type_def

lemma broker_inv_cong:
  assumes "broker_inv config n st"
    "buffers st' = buffers st" "seen_event_ids st' = seen_event_ids st" "subscriptions st' = subscriptions st"
    "subscriptions_by_event_type st' = subscriptions_by_event_type st" "observed_lineage st' = observed_lineage st"
    "next_subscription st' = next_subscription st" "next_cursor st' = next_cursor st"
  shows "broker_inv config n st'"
proof -
  have "buffer_of st' = buffer_of st" "seen_of st' = seen_of st" "delivered st' = delivered st"
    "last_cursor st' = last_cursor st" "subscription_ids_for_event_type st' = subscription_ids_for_event_type st"
    using assms by (simp_all add: broker_views fun_eq_iff)
  with assms show ?thesis unfolding broker_inv_def by simp
qed

text \<open>Subscriptions that disappear or lose the front of their queue.\<close>

lemma broker_inv_shrink:
  assumes inv: "broker_inv config n st"
    and subs: "\<And>sid sub'. subscriptions st' sid = Some sub' \<Longrightarrow>
      \<exists>sub k. subscriptions st sid = Some sub \<and> sub' = sub\<lparr>ss_queue := drop k (ss_queue sub)\<rparr>"
    and buffers: "\<And>et. \<exists>k. buffer_of st' et = drop k (buffer_of st et)
      \<and> seen_of st' et = (\<lambda>e. te_id (be_event e)) ` set (buffer_of st' et)"
    and same: "observed_lineage st' = observed_lineage st"
      "next_subscription st' = next_subscription st" "next_cursor st' = next_cursor st"
    and ids: "\<And>sid et. subscriptions st' sid \<noteq> None \<Longrightarrow>
      sid \<in> subscription_ids_for_event_type st' et \<longleftrightarrow> sid \<in> subscription_ids_for_event_type st et"
      "\<And>sid et. sid \<in> subscription_ids_for_event_type st' et \<Longrightarrow> sid \<in> subscription_ids_for_event_type st et"
  shows "broker_inv config n st'"
proof -
  have eq: "delivered st' = delivered st" "last_cursor st' = last_cursor st"
    using same by (simp_all add: broker_views fun_eq_iff)
  have buf: "buffer_wf (last_cursor st et) et (buffer_of st' et)" for et
    using buffers [of et] buffer_wf_drop [OF broker_invD(1) [OF inv]] by metis
  have sub: "ss_subscription_id sub' = sid
      \<and> (\<forall>et. sid \<in> subscription_ids_for_event_type st' et \<longleftrightarrow> et = ss_event_type sub')
      \<and> sub_wf (bc_max_queue_len config) (last_cursor st) (delivered st sid) sub'"
    if some: "subscriptions st' sid = Some sub'" for sid sub'
  proof -
    obtain sub k where s: "subscriptions st sid = Some sub" "sub' = sub\<lparr>ss_queue := drop k (ss_queue sub)\<rparr>"
      using subs [OF some] by blast
    show ?thesis
      using s some broker_invD(6,7) [OF inv s(1)] sub_wf_drop [OF broker_invD(8) [OF inv s(1)], of k] ids(1) [of sid]
      by simp
  qed
  have known: "\<exists>k \<le> next_subscription st. sid = subscription_name k"
    if "subscriptions st' sid \<noteq> None \<or> delivered st sid \<noteq> [] \<or> sid \<in> subscription_ids_for_event_type st' et" for sid et
  proof (rule broker_invD(9) [OF inv])
    show "subscriptions st sid \<noteq> None \<or> delivered st sid \<noteq> [] \<or> sid \<in> subscription_ids_for_event_type st et"
      using that subs [of sid] ids(2) [of sid et] by force
  qed
  have seen: "seen_of st' et = (\<lambda>e. te_id (be_event e)) ` set (buffer_of st' et)" for et
    using buffers [of et] by blast
  show ?thesis
  proof (rule broker_invI)
    show "\<exists>k \<le> next_subscription st'. sid = subscription_name k"
      if "subscriptions st' sid \<noteq> None \<or> delivered st' sid \<noteq> [] \<or> sid \<in> subscription_ids_for_event_type st' et" for sid et
      using that known [of sid et] unfolding eq same by blast
  qed (use buf sub seen broker_invD(3-5) [OF inv] in \<open>simp_all only: eq same simp_thms\<close>)
qed

lemma prune_same [simp]:
  "subscriptions_by_event_type (prune_expired st et w now) = subscriptions_by_event_type st"
  "observed_lineage (prune_expired st et w now) = observed_lineage st"
  "next_subscription (prune_expired st et w now) = next_subscription st"
  "next_cursor (prune_expired st et w now) = next_cursor st"
  "restart_floor (prune_expired st et w now) = restart_floor st"
  "subscription_ids_for_event_type (prune_expired st et w now) = subscription_ids_for_event_type st"
  "delivered (prune_expired st et w now) = delivered st"
  "last_cursor (prune_expired st et w now) = last_cursor st"
  by (simp_all add: prune_expired_def Let_def case_prod_beta fun_eq_iff subscription_ids_for_event_type_def
        delivered_def last_cursor_def split: list.split)

lemma prune_inv:
  assumes inv: "broker_inv config n st"
  shows "broker_inv config n (prune_expired st event_type w now)"
proof (rule broker_inv_shrink [OF inv])
  define kept where "kept = fst (pop_expired w now (buffer_of st event_type) (seen_of st event_type))"
  define ids' where "ids' = snd (pop_expired w now (buffer_of st event_type) (seen_of st event_type))"
  define st1 where "st1 = st\<lparr>buffers := (buffers st)(event_type \<mapsto> kept),
    seen_event_ids := (case seen_event_ids st event_type of None \<Rightarrow> seen_event_ids st
                       | Some _ \<Rightarrow> (seen_event_ids st)(event_type \<mapsto> ids'))\<rparr>"
  have st': "prune_expired st event_type w now =
    (case kept of [] \<Rightarrow> st1
     | front # _ \<Rightarrow> st1\<lparr>subscriptions := update_subscriptions (subscription_ids_for_event_type st1 event_type)
          (\<lambda>sub. sub\<lparr>ss_queue := drop_behind (be_cursor front) (ss_queue sub)\<rparr>) (subscriptions st1)\<rparr>)"
    unfolding prune_expired_def Let_def kept_def ids'_def st1_def buffer_of_def seen_of_def case_prod_beta
    by (rule refl)
  have ids'_eq: "ids' = (\<lambda>e. te_id (be_event e)) ` set kept"
    using pop_expired_ids [of "buffer_of st event_type" w now] broker_invD(1,2) [OF inv, of event_type]
    by (simp add: ids'_def kept_def buffer_wf_def)
  obtain k where k: "kept = drop k (buffer_of st event_type)" using pop_expired_drop unfolding kept_def by blast
  show "\<exists>k. buffer_of (prune_expired st event_type w now) et = drop k (buffer_of st et)
      \<and> seen_of (prune_expired st event_type w now) et
        = (\<lambda>e. te_id (be_event e)) ` set (buffer_of (prune_expired st event_type w now) et)" for et
  proof (cases "et = event_type")
    case True
    have "buffer_of (prune_expired st event_type w now) et = kept"
      by (simp add: st' st1_def buffer_of_def True split: list.split)
    moreover have "seen_of (prune_expired st event_type w now) et = (\<lambda>e. te_id (be_event e)) ` set kept"
    proof (cases "seen_event_ids st event_type")
      case None
      then have "seen_of st event_type = {}" by (simp add: seen_of_def)
      then have "buffer_of st event_type = []" using broker_invD(2) [OF inv, of event_type] by simp
      with None show ?thesis by (simp add: st' st1_def seen_of_def True k split: list.split)
    next
      case (Some s)
      then show ?thesis by (simp add: st' st1_def seen_of_def True ids'_eq split: list.split)
    qed
    ultimately show ?thesis using k True by metis
  next
    case False
    then have "buffer_of (prune_expired st event_type w now) et = buffer_of st et"
      "seen_of (prune_expired st event_type w now) et = seen_of st et"
      by (simp_all add: st' st1_def buffer_of_def seen_of_def split: list.split option.split)
    with broker_invD(2) [OF inv, of et] show ?thesis by (metis drop0)
  qed
  show "\<exists>sub k. subscriptions st sid = Some sub \<and> sub' = sub\<lparr>ss_queue := drop k (ss_queue sub)\<rparr>"
    if "subscriptions (prune_expired st event_type w now) sid = Some sub'" for sid sub'
  proof (cases kept)
    case Nil
    with that have "subscriptions st sid = Some sub'" by (simp add: st' st1_def)
    then show ?thesis by (metis SubscriptionState.surjective SubscriptionState.update_convs(6) drop0)
  next
    case (Cons front rest)
    with that obtain sub where sub: "subscriptions st sid = Some sub"
      "sub' = sub \<or> sub' = sub\<lparr>ss_queue := drop_behind (be_cursor front) (ss_queue sub)\<rparr>"
      by (auto simp: st' st1_def update_subscriptions_def split: if_splits)
    obtain k where "drop_behind (be_cursor front) (ss_queue sub) = drop k (ss_queue sub)"
      using drop_behind_drop by blast
    moreover have "sub = sub\<lparr>ss_queue := drop 0 (ss_queue sub)\<rparr>" by simp
    ultimately show ?thesis using sub by metis
  qed
qed simp_all

lemma last_cursor_accept:
  "last_cursor (accept_event config st now event None) et =
     (if et = te_event_type event then saturating_add (last_cursor st et) 1 else last_cursor st et)"
  by (simp add: accept_event_def Let_def last_cursor_def)

lemma accept_inv:
  assumes inv: "broker_inv config n st" and n: "n < u64_max" and m: "0 < bc_max_queue_len config"
    and fresh: "te_id event \<notin> seen_of st (te_event_type event)"
  shows "broker_inv config (Suc n) (accept_event config st now event None)"
proof -
  define ty where "ty = te_event_type event"
  define st' where "st' = accept_event config st now event None"
  define item where "item = \<lparr>be_cursor = Suc (last_cursor st ty), be_published_at = now, be_event = event\<rparr>"
  have sat: "saturating_add (last_cursor st ty) 1 = Suc (last_cursor st ty)"
    using broker_invD(5) [OF inv, of ty] n by (simp add: saturating_add_def)
  have last': "last_cursor st' et = (if et = ty then Suc (last_cursor st ty) else last_cursor st et)" for et
    using sat by (simp add: st'_def last_cursor_accept ty_def)
  then have mono: "last_cursor st et \<le> last_cursor st' et" for et by simp
  have buf: "buffer_of st' et = (if et = ty then buffer_of st ty @ [item] else buffer_of st et)" for et
    using sat by (simp add: st'_def accept_event_def Let_def buffer_of_def item_def ty_def)
  have seen: "seen_of st' et = (if et = ty then insert (te_id event) (seen_of st ty) else seen_of st et)" for et
    by (simp add: st'_def accept_event_def Let_def seen_of_def ty_def)
  have same: "delivered st' = delivered st" "next_subscription st' = next_subscription st"
    "subscription_ids_for_event_type st' = subscription_ids_for_event_type st"
    by (simp_all add: st'_def accept_event_def Let_def broker_views fun_eq_iff)
  have subs: "subscriptions st' =
    update_subscriptions (subscription_ids_for_event_type st ty) (deliver_live (bc_max_queue_len config) item) (subscriptions st)"
    using sat by (simp add: st'_def accept_event_def Let_def item_def ty_def)
  have wf_buf: "buffer_wf (last_cursor st' et) et (buffer_of st' et)
      \<and> seen_of st' et = (\<lambda>e. te_id (be_event e)) ` set (buffer_of st' et)" for et
  proof (cases "et = ty")
    case True
    have old: "buffer_wf (last_cursor st ty) ty (buffer_of st ty)" by (rule broker_invD(1) [OF inv])
    have "te_id event \<notin> (\<lambda>e. te_id (be_event e)) ` set (buffer_of st ty)"
      using fresh broker_invD(2) [OF inv, of ty] by (simp add: ty_def)
    moreover have "sorted_wrt (<) (map be_cursor (buffer_of st ty @ [item]))"
      using old by (auto simp: buffer_wf_def sorted_wrt_append item_def le_imp_less_Suc)
    ultimately show ?thesis
      using old broker_invD(2) [OF inv, of ty] by (auto simp: buffer_wf_def buf last' seen item_def ty_def True)
  qed (use broker_invD(1,2) [OF inv] in \<open>simp add: buf last' seen\<close>)
  have wf_sub: "ss_subscription_id sub' = sid
      \<and> (\<forall>et. sid \<in> subscription_ids_for_event_type st et \<longleftrightarrow> et = ss_event_type sub')
      \<and> sub_wf (bc_max_queue_len config) (last_cursor st') (delivered st sid) sub'"
    if some: "subscriptions st' sid = Some sub'" for sid sub'
  proof -
    obtain sub where sub: "subscriptions st sid = Some sub"
      "sub' = (if sid \<in> subscription_ids_for_event_type st ty then deliver_live (bc_max_queue_len config) item sub else sub)"
      using some by (auto simp: subs update_subscriptions_def split: if_splits)
    have wf: "sub_wf (bc_max_queue_len config) (last_cursor st) (delivered st sid) sub"
      by (rule broker_invD(8) [OF inv sub(1)])
    have "sub_wf (bc_max_queue_len config) (last_cursor st') (delivered st sid) sub'"
    proof (cases "sub' = sub")
      case True
      then show ?thesis using sub_wf_mono [OF wf mono] by simp
    next
      case False
      then have ty: "ss_event_type sub = ty" and match: "subject_matches (ss_subject_id sub) event"
        and sub': "sub' = sub\<lparr>ss_queue := enqueue_with_drop_oldest (ss_queue sub) (bc_max_queue_len config) item\<rparr>"
        using sub(2) broker_invD(7) [OF inv sub(1), of ty] by (auto simp: deliver_live_def item_def split: if_splits)
      show ?thesis
        unfolding sub' by (rule sub_wf_enqueue [OF wf m]) (use ty match last' in \<open>simp_all add: item_def ty_def\<close>)
    qed
    then show ?thesis
      using sub broker_invD(6,7) [OF inv sub(1)] by (auto simp: deliver_live_def)
  qed
  have none: "subscriptions st' sid = None \<longleftrightarrow> subscriptions st sid = None" for sid
    by (simp add: subs update_subscriptions_def)
  have bound: "last_cursor st' et \<le> Suc n" for et
    using broker_invD(5) [OF inv, of et] by (cases "et = ty") (simp_all add: last')
  show ?thesis
    unfolding st'_def [symmetric]
  proof (rule broker_invI)
    show "\<exists>k \<le> next_subscription st'. sid = subscription_name k"
      if "subscriptions st' sid \<noteq> None \<or> delivered st' sid \<noteq> [] \<or> sid \<in> subscription_ids_for_event_type st' et" for sid et
      using that none broker_invD(9) [OF inv, of sid et] unfolding same by simp
    show "next_subscription st' \<le> Suc n" using broker_invD(4) [OF inv] unfolding same by simp
  qed (use wf_buf wf_sub bound broker_invD(3) [OF inv] in \<open>simp_all add: same\<close>)
qed

lemma subscription_name_inject: "subscription_name i = subscription_name j \<Longrightarrow> i = j"
  unfolding subscription_name_def by (metis same_append_eq parse_digits_show_nat option.inject)

lemma inv_fresh_subscription:
  assumes "broker_inv config n st" "next_subscription st < k"
  shows "subscriptions st (subscription_name k) = None" "delivered st (subscription_name k) = []"
    "subscription_name k \<notin> subscription_ids_for_event_type st et"
proof -
  have "\<not> (\<exists>j \<le> next_subscription st. subscription_name k = subscription_name j)"
    using assms(2) subscription_name_inject by fastforce
  then have no: "\<not> (subscriptions st (subscription_name k) \<noteq> None \<or> delivered st (subscription_name k) \<noteq> []
      \<or> subscription_name k \<in> subscription_ids_for_event_type st et)" for et
    using broker_invD(9) [OF assms(1)] by blast
  show "subscriptions st (subscription_name k) = None" "delivered st (subscription_name k) = []"
    "subscription_name k \<notin> subscription_ids_for_event_type st et" using no [of et] by blast+
qed

text \<open>A subscription that is out of the table and may be put into it.\<close>

definition sub_ok :: "BrokerConfig \<Rightarrow> BrokerState \<Rightarrow> string \<Rightarrow> SubscriptionState \<Rightarrow> bool" where
  "sub_ok config st sid sub \<longleftrightarrow>
     ss_subscription_id sub = sid \<and> (\<forall>et. sid \<in> subscription_ids_for_event_type st et \<longleftrightarrow> et = ss_event_type sub)
     \<and> sub_wf (bc_max_queue_len config) (last_cursor st) (delivered st sid) sub"

lemma sub_ok_drop: "sub_ok config st sid sub \<Longrightarrow> sub_ok config st sid (sub\<lparr>ss_queue := drop k (ss_queue sub)\<rparr>)"
  by (simp add: sub_ok_def sub_wf_drop)

lemma views_subscriptions:
  "buffer_of (st\<lparr>subscriptions := S\<rparr>) = buffer_of st" "seen_of (st\<lparr>subscriptions := S\<rparr>) = seen_of st"
  "delivered (st\<lparr>subscriptions := S\<rparr>) = delivered st" "last_cursor (st\<lparr>subscriptions := S\<rparr>) = last_cursor st"
  "subscription_ids_for_event_type (st\<lparr>subscriptions := S\<rparr>) = subscription_ids_for_event_type st"
  by (simp_all add: broker_views fun_eq_iff)

lemma insert_inv:
  assumes inv: "broker_inv config n st" and ok: "sub_ok config st sid sub"
  shows "broker_inv config n (st\<lparr>subscriptions := (subscriptions st)(sid \<mapsto> sub)\<rparr>)"
proof (rule broker_invI)
  note views = views_subscriptions
  let ?st = "st\<lparr>subscriptions := (subscriptions st)(sid \<mapsto> sub)\<rparr>"
  show "buffer_wf (last_cursor ?st et) et (buffer_of ?st et)
      \<and> seen_of ?st et = (\<lambda>e. te_id (be_event e)) ` set (buffer_of ?st et)" for et
    unfolding views using broker_invD(1,2) [OF inv] by blast
  show "ss_subscription_id s = i \<and> (\<forall>et. i \<in> subscription_ids_for_event_type ?st et \<longleftrightarrow> et = ss_event_type s)
      \<and> sub_wf (bc_max_queue_len config) (last_cursor ?st) (delivered ?st i) s"
    if "subscriptions ?st i = Some s" for i s
    unfolding views using that ok broker_invD(6-8) [OF inv, of i s] by (auto simp: sub_ok_def split: if_splits)
  show "\<exists>k \<le> next_subscription ?st. i = subscription_name k"
    if "subscriptions ?st i \<noteq> None \<or> delivered ?st i \<noteq> [] \<or> i \<in> subscription_ids_for_event_type ?st et" for i et
  proof -
    have "subscriptions st i \<noteq> None \<or> delivered st i \<noteq> [] \<or> i \<in> subscription_ids_for_event_type st (if i = sid then ss_event_type sub else et)"
      using that ok unfolding views by (auto simp: sub_ok_def split: if_splits)
    then show ?thesis using broker_invD(9) [OF inv] by simp
  qed
qed (use broker_invD(3-5) [OF inv] in \<open>simp_all add: broker_views\<close>)

lemma deliver_inv:
  assumes inv: "broker_inv config n st" and none: "subscriptions st sid = None" and ok: "sub_ok config st sid sub"
    and eq: "deliver_queued st sub m = (out, sub', st')"
  shows "broker_inv config n st'" "sub_ok config st' sid sub'" "subscriptions st' = subscriptions st"
proof -
  define items where "items = take m (ss_queue sub)"
  define rest where "rest = drop m (ss_queue sub)"
  have queue: "ss_queue sub = items @ rest" by (simp add: items_def rest_def)
  have views: "buffer_of st' = buffer_of st" "seen_of st' = seen_of st" "last_cursor st' = last_cursor st"
    "subscription_ids_for_event_type st' = subscription_ids_for_event_type st"
    "next_subscription st' = next_subscription st"
    and subs: "subscriptions st' = subscriptions st"
    and lineage: "observed_lineage st' = observed_lineage st @ map (lineage_record sub) items"
    using eq unfolding deliver_queued_def Let_def items_def by (auto simp: broker_views fun_eq_iff)
  define c where "c = (if items = [] then ss_cursor sub else be_cursor (last items))"
  have sub': "sub' = sub\<lparr>ss_queue := rest, ss_cursor := c\<rparr>"
    using eq unfolding deliver_queued_def Let_def rest_def c_def items_def by simp
  have id: "ss_subscription_id sub = sid" using ok by (simp add: sub_ok_def)
  have given: "delivered st' i = (if i = sid then delivered st sid @ map be_cursor items else delivered st i)" for i
    using id by (simp add: delivered_def lineage lineage_record_def cursor_to_string_def parse_digits_show_nat
                   filter_map comp_def filter_empty_conv)
  have wf: "sub_wf (bc_max_queue_len config) (last_cursor st) (delivered st sid) sub"
    using ok by (simp add: sub_ok_def)
  show "subscriptions st' = subscriptions st" by (rule subs)
  have "sub_wf (bc_max_queue_len config) (last_cursor st) (delivered st sid @ map be_cursor items) sub'"
    using wf by (auto simp: sub' sub_wf_def queue)
  moreover have "ss_subscription_id sub' = sid" "ss_event_type sub' = ss_event_type sub"
    using id by (simp_all add: sub')
  ultimately show "sub_ok config st' sid sub'"
    using ok given [of sid] by (simp add: sub_ok_def views)
  show "broker_inv config n st'"
  proof (rule broker_invI)
    show "sorted_wrt (<) (delivered st' i)" for i
      using given [of i] wf broker_invD(3) [OF inv, of i] by (auto simp: sub_wf_def queue sorted_wrt_append)
    show "ss_subscription_id s = i \<and> (\<forall>et. i \<in> subscription_ids_for_event_type st' et \<longleftrightarrow> et = ss_event_type s)
        \<and> sub_wf (bc_max_queue_len config) (last_cursor st') (delivered st' i) s"
      if some: "subscriptions st' i = Some s" for i s
    proof -
      have some: "subscriptions st i = Some s" using some subs by simp
      then have "delivered st' i = delivered st i" using none given [of i] by auto
      then show ?thesis
        using broker_invD(6,8) [OF inv some] broker_invD(7) [OF inv some] by (simp add: views)
    qed
    show "\<exists>k \<le> next_subscription st'. i = subscription_name k"
      if "subscriptions st' i \<noteq> None \<or> delivered st' i \<noteq> [] \<or> i \<in> subscription_ids_for_event_type st' et" for i et
    proof -
      have "subscriptions st i \<noteq> None \<or> delivered st i \<noteq> [] \<or> i \<in> subscription_ids_for_event_type st (if i = sid then ss_event_type sub else et)"
        using that given [of i] ok unfolding views subs by (auto simp: sub_ok_def split: if_splits)
      then show ?thesis using broker_invD(9) [OF inv] views by simp
    qed
  qed (use broker_invD(1,2,4,5) [OF inv] in \<open>simp_all add: views\<close>)
qed

lemma remove_inv:
  assumes inv: "broker_inv config n st" and sub: "subscriptions st sid = Some sub"
  shows "broker_inv config n (st\<lparr>subscriptions := (subscriptions st)(sid := None)\<rparr>)"
proof (rule broker_inv_shrink [OF inv])
  show "\<exists>sub k. subscriptions st i = Some sub \<and> sub' = sub\<lparr>ss_queue := drop k (ss_queue sub)\<rparr>"
    if "subscriptions (st\<lparr>subscriptions := (subscriptions st)(sid := None)\<rparr>) i = Some sub'" for i sub'
  proof -
    have "subscriptions st i = Some sub'" using that by (simp split: if_splits)
    moreover have "sub' = sub'\<lparr>ss_queue := drop 0 (ss_queue sub')\<rparr>" by simp
    ultimately show ?thesis by blast
  qed
  show "\<exists>k. buffer_of (st\<lparr>subscriptions := (subscriptions st)(sid := None)\<rparr>) et = drop k (buffer_of st et)
      \<and> seen_of (st\<lparr>subscriptions := (subscriptions st)(sid := None)\<rparr>) et
        = (\<lambda>e. te_id (be_event e)) ` set (buffer_of (st\<lparr>subscriptions := (subscriptions st)(sid := None)\<rparr>) et)" for et
    using broker_invD(2) [OF inv, of et] by (intro exI [of _ 0]) (simp add: buffer_of_def seen_of_def)
qed (simp_all add: subscription_ids_for_event_type_def)

lemma boundary_same:
  "buffers (snd (validate_boundary config st event)) = buffers st"
  "seen_event_ids (snd (validate_boundary config st event)) = seen_event_ids st"
  "subscriptions (snd (validate_boundary config st event)) = subscriptions st"
  "subscriptions_by_event_type (snd (validate_boundary config st event)) = subscriptions_by_event_type st"
  "observed_lineage (snd (validate_boundary config st event)) = observed_lineage st"
  "next_subscription (snd (validate_boundary config st event)) = next_subscription st"
  "next_cursor (snd (validate_boundary config st event)) = next_cursor st"
  by (simp_all add: validate_boundary_def Let_def split: option.split)

lemma boundary_inv: "broker_inv config n st \<Longrightarrow> broker_inv config n (snd (validate_boundary config st event))"
  by (rule broker_inv_cong) (simp_all only: boundary_same)

lemma publish_inv:
  assumes inv: "broker_inv config n (ib_state b)" and n: "n < u64_max" "0 < bc_max_queue_len config"
  shows "broker_inv config (Suc n) (ib_state (snd (ib_publish config b event)))"
proof -
  obtain r st where v: "validate_boundary config (ib_state b) event = (r, st)" by fastforce
  have st: "broker_inv config n st" using boundary_inv [OF inv, of event] v by simp
  note later = broker_inv_mono [OF st le_SucI [OF order_refl]]
  define now where "now = bc_clock config (ib_tick b)"
  define st1 where "st1 = prune_expired st (te_event_type event) (bc_retention_window config) now"
  have st1: "broker_inv config n st1" unfolding st1_def by (rule prune_inv [OF st])
  have "broker_inv config (Suc n) (if te_id event \<in> seen_of st1 (te_event_type event) then st1
      else accept_event config st1 now event None)"
    using accept_inv [OF st1 n, of event now] broker_inv_mono [OF st1 le_SucI [OF order_refl]] by simp
  then show ?thesis
    using later unfolding ib_publish_def publish_internal_def v Let_def prod.case
      now_def [symmetric] st1_def [symmetric] seen_of_def [symmetric]
    by (auto split: sum.split option.split LifecycleStatus.split if_splits)
qed

lemma subscribe_inv:
  assumes inv: "broker_inv config n (ib_state b)" and n: "n < u64_max" "0 < bc_max_queue_len config"
  shows "broker_inv config (Suc n)
    (ib_state (snd (subscribe_with_subject config b event_type from_cursor subject_id consumer_id)))"
proof -
  define st where "st = prune_expired (ib_state b) event_type (bc_retention_window config) (bc_clock config (ib_tick b))"
  have st: "broker_inv config n st" unfolding st_def by (rule prune_inv [OF inv])
  define k where "k = Suc (next_subscription st)"
  have k: "saturating_add (next_subscription st) 1 = k" "k \<le> Suc n"
    using broker_invD(4) [OF st] n by (simp_all add: k_def saturating_add_def)
  define st1 where "st1 = st\<lparr>next_subscription := k, subscriptions_by_event_type :=
    (subscriptions_by_event_type st)(event_type \<mapsto> insert (subscription_name k) (subscription_ids_for_event_type st event_type))\<rparr>"
  have views: "buffer_of st1 = buffer_of st" "seen_of st1 = seen_of st" "delivered st1 = delivered st"
    "last_cursor st1 = last_cursor st" "next_subscription st1 = k" "subscriptions st1 = subscriptions st"
    by (simp_all add: st1_def broker_views fun_eq_iff)
  have ids: "i \<in> subscription_ids_for_event_type st1 et \<longleftrightarrow>
      i \<in> subscription_ids_for_event_type st et \<or> i = subscription_name k \<and> et = event_type" for i et
    by (auto simp: st1_def subscription_ids_for_event_type_def)
  have fresh: "subscriptions st (subscription_name k) = None" "delivered st (subscription_name k) = []"
    "subscription_name k \<notin> subscription_ids_for_event_type st et" for et
    by (rule inv_fresh_subscription [OF st]; simp add: k_def)+
  have inv1: "broker_inv config (Suc n) st1"
  proof (rule broker_invI)
    show "ss_subscription_id sub = i \<and> (\<forall>et. i \<in> subscription_ids_for_event_type st1 et \<longleftrightarrow> et = ss_event_type sub)
        \<and> sub_wf (bc_max_queue_len config) (last_cursor st1) (delivered st1 i) sub"
      if some: "subscriptions st1 i = Some sub" for i sub
    proof -
      have some: "subscriptions st i = Some sub" using some views by simp
      moreover from this have "i \<noteq> subscription_name k" using fresh by auto
      ultimately show ?thesis
        using broker_invD(6,8) [OF st some] broker_invD(7) [OF st some] by (simp add: views ids)
    qed
    show "\<exists>j \<le> next_subscription st1. i = subscription_name j"
      if "subscriptions st1 i \<noteq> None \<or> delivered st1 i \<noteq> [] \<or> i \<in> subscription_ids_for_event_type st1 et" for i et
      using that broker_invD(9) [OF st, of i et] unfolding views ids k_def by (metis le_SucI order_refl)
    show "last_cursor st1 et \<le> Suc n" for et using broker_invD(5) [OF st, of et] by (simp add: views)
  qed (use broker_invD(1-3) [OF st] k in \<open>simp_all add: views\<close>)
  define sub where "sub start = \<lparr>ss_subscription_id = subscription_name k, ss_event_type = event_type,
    ss_subject_id = subject_id, ss_consumer_id = consumer_id, ss_cursor = start,
    ss_queue = replay_queue (bc_max_queue_len config) start subject_id [] (buffer_of st event_type)\<rparr>" for start
  have "sub_ok config st1 (subscription_name k) (sub start)" for start
  proof -
    have "buffer_wf (last_cursor st event_type) event_type (buffer_of st event_type)" by (rule broker_invD(1) [OF st])
    with replay_queue_wf [of "[]" "buffer_of st event_type" "bc_max_queue_len config" subject_id start] n(2) fresh
    show ?thesis by (auto simp: sub_ok_def sub_wf_def sub_def views ids buffer_wf_def)
  qed
  from insert_inv [OF inv1 this]
  have "broker_inv config (Suc n) (st1\<lparr>subscriptions := (subscriptions st1)(subscription_name k \<mapsto> sub start)\<rparr>)" for start .
  moreover have "broker_inv config (Suc n) (ib_state b)" "broker_inv config (Suc n) st"
    using broker_inv_mono [OF inv le_SucI [OF order_refl]] broker_inv_mono [OF st le_SucI [OF order_refl]] by simp_all
  moreover have "st1\<lparr>subscriptions := (subscriptions st1)(subscription_name k \<mapsto> sub start)\<rparr> =
    st\<lparr>next_subscription := k, subscriptions := (subscriptions st)(subscription_name k \<mapsto> sub start),
       subscriptions_by_event_type := (subscriptions_by_event_type st)
         (event_type \<mapsto> insert (subscription_name k) (subscription_ids_for_event_type st event_type))\<rparr>" for start
    by (simp add: st1_def)
  ultimately show ?thesis
    using k(1) unfolding subscribe_with_subject_def st_def [symmetric] Let_def sub_def buffer_of_def
    by (simp add: st_def [symmetric] split: sum.split)
qed

lemma poll_inv:
  assumes inv: "broker_inv config n (ib_state b)"
  shows "broker_inv config n (ib_state (snd (ib_poll config b sid m)))"
proof (cases "subscriptions (ib_state b) sid")
  case None
  then show ?thesis using inv by (simp add: ib_poll_def Let_def)
next
  case (Some sub)
  define st where "st = prune_expired ((ib_state b)\<lparr>subscriptions := (subscriptions (ib_state b))(sid := None)\<rparr>)
    (ss_event_type sub) (bc_retention_window config) (bc_clock config (ib_tick b))"
  have st: "broker_inv config n st" unfolding st_def by (rule prune_inv [OF remove_inv [OF inv Some]])
  have gone: "subscriptions st sid = None"
    by (simp add: st_def prune_expired_def Let_def case_prod_beta update_subscriptions_def split: list.split)
  have "sub_ok config st sid sub"
    using broker_invD(6,8) [OF inv Some] broker_invD(7) [OF inv Some]
    by (simp add: sub_ok_def st_def views_subscriptions)
  define sub1 where "sub1 = (case buffers st (ss_event_type sub) of
      Some (front # _) \<Rightarrow> sub\<lparr>ss_queue := drop_behind (be_cursor front) (ss_queue sub)\<rparr> | _ \<Rightarrow> sub)"
  have ok1: "sub_ok config st sid sub1"
  proof -
    have "sub_ok config st sid (sub\<lparr>ss_queue := drop_behind c (ss_queue sub)\<rparr>)" for c
      using sub_ok_drop [OF \<open>sub_ok config st sid sub\<close>] drop_behind_drop [of c "ss_queue sub"] by metis
    then show ?thesis using \<open>sub_ok config st sid sub\<close> by (simp add: sub1_def split: option.split list.split)
  qed
  then have id: "ss_subscription_id sub1 = sid" by (simp add: sub_ok_def)
  obtain out sub2 st2 where d: "deliver_queued st sub1 m = (out, sub2, st2)" by (metis prod_cases3)
  note del = deliver_inv [OF st gone ok1 d]
  have "broker_inv config n (st\<lparr>subscriptions := (subscriptions st)(ss_subscription_id sub1 \<mapsto> sub1)\<rparr>)"
    "broker_inv config n (st2\<lparr>subscriptions := (subscriptions st2)(ss_subscription_id sub2 \<mapsto> sub2)\<rparr>)"
    using insert_inv [OF st ok1] insert_inv [OF del(1,2)] id del(2) by (simp_all add: sub_ok_def)
  with st show ?thesis
    unfolding ib_poll_def Let_def
    by (simp add: Some st_def [symmetric] sub1_def [symmetric] d del(3) split: sum.split)
qed

lemma cancel_inv:
  assumes inv: "broker_inv config n (ib_state b)"
  shows "broker_inv config n (ib_state (snd (ib_cancel b sid)))"
proof (cases "subscriptions (ib_state b) sid")
  case (Some sub)
  define st where "st = (ib_state b)\<lparr>subscriptions := (subscriptions (ib_state b))(sid := None)\<rparr>"
  have st: "broker_inv config n st" unfolding st_def by (rule remove_inv [OF inv Some])
  define st' where "st' = ib_state (snd (ib_cancel b sid))"
  have same: "subscriptions st' = subscriptions st" "buffers st' = buffers st" "seen_event_ids st' = seen_event_ids st"
    "observed_lineage st' = observed_lineage st" "next_subscription st' = next_subscription st"
    "next_cursor st' = next_cursor st"
    by (simp_all add: st'_def st_def ib_cancel_def Let_def Some split: option.split)
  have ids: "i \<in> subscription_ids_for_event_type st' et \<longleftrightarrow>
      i \<in> subscription_ids_for_event_type st et \<and> \<not> (i = sid \<and> et = ss_event_type sub)" for i et
    by (auto simp: st'_def st_def ib_cancel_def Let_def Some subscription_ids_for_event_type_def split: option.splits if_splits)
  have "broker_inv config n st'"
  proof (rule broker_inv_shrink [OF st])
    show "\<exists>s k. subscriptions st i = Some s \<and> s' = s\<lparr>ss_queue := drop k (ss_queue s)\<rparr>"
      if "subscriptions st' i = Some s'" for i s'
    proof -
      have "s' = s'\<lparr>ss_queue := drop 0 (ss_queue s')\<rparr>" by simp
      with that same show ?thesis by metis
    qed
    show "\<exists>k. buffer_of st' et = drop k (buffer_of st et)
        \<and> seen_of st' et = (\<lambda>e. te_id (be_event e)) ` set (buffer_of st' et)" for et
      using broker_invD(2) [OF st, of et] by (intro exI [of _ 0]) (simp add: buffer_of_def seen_of_def same)
    show "i \<in> subscription_ids_for_event_type st' et \<longleftrightarrow> i \<in> subscription_ids_for_event_type st et"
      if "subscriptions st' i \<noteq> None" for i et
      using that unfolding ids by (auto simp: same st_def)
  qed (use same ids in simp_all)
  then show ?thesis by (simp add: st'_def)
qed (use inv in \<open>simp add: ib_cancel_def Let_def\<close>)

lemma step_inv:
  assumes "broker_inv config n (ib_state b)" "n < u64_max" "0 < bc_max_queue_len config"
  shows "broker_inv config (Suc n) (ib_state (broker_step config op b))"
proof (cases op)
  case (OpPoll sid m)
  then show ?thesis using broker_inv_mono [OF poll_inv [OF assms(1)] le_SucI [OF order_refl]] by simp
next
  case (OpCancel sid)
  then show ?thesis using broker_inv_mono [OF cancel_inv [OF assms(1)] le_SucI [OF order_refl]] by simp
next
  case (OpSeed floor)
  have "broker_inv config n (ib_state (seed_restart_floor b floor))"
    by (rule broker_inv_cong [OF assms(1)]) (simp_all add: seed_restart_floor_def)
  then show ?thesis using OpSeed broker_inv_mono [OF _ le_SucI [OF order_refl]] by simp
qed (use publish_inv [OF assms] subscribe_inv [OF assms] in simp_all)

lemma run_inv:
  assumes "length ops < u64_max" "0 < bc_max_queue_len config"
  shows "broker_inv config (length ops) (ib_state (broker_run config catalog ops))"
  using assms(1)
proof (induction ops rule: rev_induct)
  case Nil
  show ?case
    by (simp add: broker_run_def empty_broker_state_def broker_inv_def broker_views buffer_wf_def)
next
  case (snoc op ops)
  then show ?case using step_inv [OF _ _ assms(2), of "length ops" _ op] by (simp add: broker_run_def)
qed

subsection \<open>What a poll returns\<close>

text \<open>A successful poll takes the front of what is queued and still retained.\<close>

lemma poll_Ok:
  assumes "ib_poll config b sid m = (Inr p, b')"
  obtains sub k st where
    "subscriptions (ib_state b) sid = Some sub"
    "poll_events p = map (\<lambda>item. \<lparr>bev_cursor = cursor_to_string (be_cursor item), bev_event = be_event item\<rparr>)
       (take m (drop k (ss_queue sub)))"
    "observed_lineage (ib_state b') = observed_lineage (ib_state b) @ map (lineage_record sub) (take m (drop k (ss_queue sub)))"
    "\<exists>c. subscriptions (ib_state b') (ss_subscription_id sub) =
       Some (sub\<lparr>ss_queue := drop m (drop k (ss_queue sub)), ss_cursor := c\<rparr>)"
proof -
  obtain sub where sub: "subscriptions (ib_state b) sid = Some sub"
    using assms by (cases "subscriptions (ib_state b) sid") (auto simp: ib_poll_def Let_def)
  define st where "st = prune_expired ((ib_state b)\<lparr>subscriptions := (subscriptions (ib_state b))(sid := None)\<rparr>)
    (ss_event_type sub) (bc_retention_window config) (bc_clock config (ib_tick b))"
  define sub1 where "sub1 = (case buffers st (ss_event_type sub) of
      Some (front # _) \<Rightarrow> sub\<lparr>ss_queue := drop_behind (be_cursor front) (ss_queue sub)\<rparr> | _ \<Rightarrow> sub)"
  have "\<exists>k. sub1 = sub\<lparr>ss_queue := drop k (ss_queue sub)\<rparr>"
  proof -
    have "\<exists>k. sub\<lparr>ss_queue := drop_behind c (ss_queue sub)\<rparr> = sub\<lparr>ss_queue := drop k (ss_queue sub)\<rparr>" for c
      using drop_behind_drop [of c "ss_queue sub"] by metis
    moreover have "\<exists>k. sub = sub\<lparr>ss_queue := drop k (ss_queue sub)\<rparr>" by (rule exI [of _ 0]) simp
    ultimately show ?thesis unfolding sub1_def by (simp split: option.split list.split)
  qed
  then obtain k where k: "sub1 = sub\<lparr>ss_queue := drop k (ss_queue sub)\<rparr>" by blast
  have lineage: "lineage_record sub1 = lineage_record sub"
    by (simp add: k lineage_record_def consumer_of_def fun_eq_iff split: option.split)
  obtain out sub2 st2 where d: "deliver_queued st sub1 m = (out, sub2, st2)" by (metis prod_cases3)
  have eq: "ib_poll config b sid m = (case validate_from_cursor st (ss_event_type sub) (ss_cursor sub) of
      Inl e \<Rightarrow> (Err e, b\<lparr>ib_tick := Suc (ib_tick b), ib_state := st\<rparr>)
    | Inr _ \<Rightarrow> if m = 0
        then (Ok \<lparr>poll_subscription_id = sid, poll_event_type = ss_event_type sub,
                poll_cursor = cursor_to_string (ss_cursor sub1), poll_events = []\<rparr>,
              b\<lparr>ib_tick := Suc (ib_tick b), ib_state := st\<lparr>subscriptions := (subscriptions st)(ss_subscription_id sub1 \<mapsto> sub1)\<rparr>\<rparr>)
        else (Ok \<lparr>poll_subscription_id = ss_subscription_id sub2, poll_event_type = ss_event_type sub2,
                poll_cursor = cursor_to_string (ss_cursor sub2), poll_events = out\<rparr>,
              b\<lparr>ib_tick := Suc (ib_tick b), ib_state := st2\<lparr>subscriptions := (subscriptions st2)(ss_subscription_id sub2 \<mapsto> sub2)\<rparr>\<rparr>))"
    unfolding ib_poll_def Let_def sub option.case st_def [symmetric] sub1_def [symmetric] d prod.case by simp
  have st: "observed_lineage st = observed_lineage (ib_state b)" by (simp add: st_def)
  show thesis
  proof (cases "m = 0")
    case True
    show ?thesis
      by (rule that [OF sub, of k])
         (use assms eq True k st in \<open>auto split: sum.splits intro: exI [of _ "ss_cursor sub"]\<close>)
  next
    case False
    have "out = map (\<lambda>item. \<lparr>bev_cursor = cursor_to_string (be_cursor item), bev_event = be_event item\<rparr>)
        (take m (drop k (ss_queue sub)))"
      "observed_lineage st2 = observed_lineage st @ map (lineage_record sub) (take m (drop k (ss_queue sub)))"
      "\<exists>c. sub2 = sub\<lparr>ss_queue := drop m (drop k (ss_queue sub)), ss_cursor := c\<rparr>"
      using d lineage by (auto simp: deliver_queued_def Let_def k)
    then show ?thesis
      by (intro that [OF sub, of k]) (use assms eq False st in \<open>auto split: sum.splits\<close>)
  qed
qed

subsection \<open>The in-process broker is an event broker\<close>

text \<open>The key of the table is the identity of the subscription.\<close>

definition keys_agree_st :: "BrokerState \<Rightarrow> bool" where
  "keys_agree_st st \<longleftrightarrow> (\<forall>sid sub. subscriptions st sid = Some sub \<longrightarrow> ss_subscription_id sub = sid)"

definition keys_agree :: "InProcessBroker \<Rightarrow> bool" where
  "keys_agree b \<longleftrightarrow> keys_agree_st (ib_state b)"

definition queued :: "InProcessBroker \<Rightarrow> string \<Rightarrow> nat" where
  "queued b sid = (case subscriptions (ib_state b) sid of None \<Rightarrow> 0 | Some sub \<Rightarrow> length (ss_queue sub))"

lemma prune_keys: "keys_agree_st st \<Longrightarrow> keys_agree_st (prune_expired st et w now)"
  by (auto simp: keys_agree_st_def prune_expired_def Let_def case_prod_beta update_subscriptions_def
           split: list.splits if_splits)

lemma accept_keys: "keys_agree_st st \<Longrightarrow> keys_agree_st (accept_event config st now event c)"
  by (auto simp: keys_agree_st_def accept_event_def Let_def case_prod_beta update_subscriptions_def deliver_live_def
           split: if_splits)

lemma publish_keys:
  assumes "keys_agree b"
  shows "keys_agree (snd (ib_publish config b event))"
proof -
  obtain r st where v: "validate_boundary config (ib_state b) event = (r, st)" by fastforce
  have "keys_agree_st st"
    using assms boundary_same(3) [of config "ib_state b" event] v by (simp add: keys_agree_def keys_agree_st_def)
  then show ?thesis
    unfolding ib_publish_def publish_internal_def v Let_def prod.case keys_agree_def
    by (simp add: prune_keys accept_keys split: sum.split option.split LifecycleStatus.split)
qed

lemma subscribe_keys:
  assumes "keys_agree b"
  shows "keys_agree (snd (subscribe_with_subject config b et c subj cons))"
proof -
  have "keys_agree_st (prune_expired (ib_state b) et w now)" for w now
    using assms by (simp add: keys_agree_def prune_keys)
  moreover have "keys_agree_st (st\<lparr>next_subscription := n, subscriptions := (subscriptions st)(ss_subscription_id s \<mapsto> s),
      subscriptions_by_event_type := T\<rparr>)" if "keys_agree_st st" for st n s T
    using that by (simp add: keys_agree_st_def)
  note this [where s = "\<lparr>ss_subscription_id = i, ss_event_type = et, ss_subject_id = subj, ss_consumer_id = cons,
      ss_cursor = start, ss_queue = q\<rparr>" for i start q, unfolded SubscriptionState.simps]
  ultimately show ?thesis
    using assms unfolding subscribe_with_subject_def Let_def keys_agree_def
    by (simp split: sum.split)
qed

lemma poll_keys:
  assumes "keys_agree b"
  shows "keys_agree (snd (ib_poll config b sid m))"
proof (cases "subscriptions (ib_state b) sid")
  case None
  then show ?thesis using assms by (simp add: ib_poll_def Let_def keys_agree_def)
next
  case (Some sub)
  define st where "st = prune_expired ((ib_state b)\<lparr>subscriptions := (subscriptions (ib_state b))(sid := None)\<rparr>)
    (ss_event_type sub) (bc_retention_window config) (bc_clock config (ib_tick b))"
  define sub1 where "sub1 = (case buffers st (ss_event_type sub) of
      Some (front # _) \<Rightarrow> sub\<lparr>ss_queue := drop_behind (be_cursor front) (ss_queue sub)\<rparr> | _ \<Rightarrow> sub)"
  obtain out sub2 st2 where d: "deliver_queued st sub1 m = (out, sub2, st2)" by (metis prod_cases3)
  have st2: "subscriptions st2 = subscriptions st" using d by (auto simp: deliver_queued_def Let_def)
  have "keys_agree_st ((ib_state b)\<lparr>subscriptions := (subscriptions (ib_state b))(sid := None)\<rparr>)"
    using assms by (simp add: keys_agree_def keys_agree_st_def)
  then have st: "keys_agree_st st" unfolding st_def by (rule prune_keys)
  have put: "keys_agree_st (st'\<lparr>subscriptions := (subscriptions st)(ss_subscription_id s \<mapsto> s)\<rparr>)" for st' s
    using st by (simp add: keys_agree_st_def)
  show ?thesis
    unfolding ib_poll_def Let_def keys_agree_def
    by (simp add: Some st_def [symmetric] sub1_def [symmetric] d st2 st put split: sum.split)
qed

interpretation ipb: event_broker "in_process_broker config" keys_agree queued
proof
  fix b :: InProcessBroker and sid n p b'
  assume inv: "keys_agree b" and poll: "eb_poll (in_process_broker config) b sid n = (Inr p, b')"
  then have poll': "ib_poll config b sid n = (Inr p, b')" by (simp add: in_process_broker_def)
  show "length (poll_events p) \<le> n \<and> queued b' sid + length (poll_events p) \<le> queued b sid"
    by (rule poll_Ok [OF poll']) (use inv in \<open>auto simp: queued_def keys_agree_def keys_agree_st_def\<close>)
next
  fix b :: InProcessBroker and sid
  assume "keys_agree b"
  then show "keys_agree (snd (eb_cancel (in_process_broker config) b sid))"
    by (auto simp: in_process_broker_def ib_cancel_def Let_def keys_agree_def keys_agree_st_def split: option.split)
qed (simp_all add: in_process_broker_def ib_subscribe_def publish_keys subscribe_keys poll_keys)

subsection \<open>Two observations on expiry\<close>

text \<open>A poll that reports an expired cursor has already taken the subscription out of the table, so
  that the next poll reports an unknown subscription.\<close>

lemma expired_poll_drops_subscription:
  assumes "ib_poll config b sid m = (Inl (CursorExpired et c), b')"
  shows "fst (ib_poll config b' sid m') = Inl (SubscriptionNotFound sid)"
proof (cases "subscriptions (ib_state b) sid")
  case None
  then show ?thesis using assms by (simp add: ib_poll_def Let_def)
next
  case (Some sub)
  have gone: "subscriptions (prune_expired ((ib_state b)\<lparr>subscriptions := (subscriptions (ib_state b))(sid := None)\<rparr>) et w now) sid = None"
    for et w now
    by (simp add: prune_expired_def Let_def case_prod_beta update_subscriptions_def split: list.split)
  have "subscriptions (ib_state b') sid = None"
    using assms gone Some unfolding ib_poll_def Let_def by (auto simp: deliver_queued_def Let_def split: sum.splits if_splits)
  then show ?thesis by (simp add: ib_poll_def Let_def)
qed

text \<open>When the last retained event of a type expires, the queues are not pruned: a subscription that
  has not been polled yet still receives the expired events.\<close>

lemma expired_events_delivered:
  assumes "subscriptions (ib_state b) sid = Some sub" "ss_cursor sub = 0" "0 < m"
    and "\<forall>e \<in> set (buffer_of (ib_state b) (ss_event_type sub)).
      bc_retention_window config < bc_clock config (ib_tick b) - be_published_at e"
  shows "\<exists>p b'. ib_poll config b sid m = (Inr p, b') \<and> map bev_event (poll_events p) = map be_event (take m (ss_queue sub))"
proof -
  have "fst (pop_expired w now items ids) = []" if "\<forall>e \<in> set items. w < now - be_published_at e" for w now items ids
    using that by (induction items arbitrary: ids) auto
  from this [OF assms(4)]
  have "buffers (prune_expired ((ib_state b)\<lparr>subscriptions := (subscriptions (ib_state b))(sid := None)\<rparr>)
      (ss_event_type sub) (bc_retention_window config) (bc_clock config (ib_tick b))) (ss_event_type sub) = Some []"
    by (simp add: prune_expired_def Let_def case_prod_beta buffer_of_def)
  then show ?thesis
    using assms unfolding ib_poll_def Let_def
    by (simp add: validate_from_cursor_def deliver_queued_def Let_def comp_def)
qed

section \<open>Properties\<close>


definition sample_event :: "string \<Rightarrow> string \<Rightarrow> TraverseEvent" where
  "sample_event i subject = \<lparr>te_id = i, te_source = ''s'', te_event_type = ''a.ed'', te_datacontenttype = ''j'',
     te_time = ''t'', te_data = JNull, te_owner = ''o'', te_version = ''1'', te_lifecycle_status = EventActive,
     te_deduplication_id = Some i, te_ordering_scope = Some ''o'', te_correlation_id = Some ''c'',
     te_causation_id = Some ''c'', te_subject_id = Some subject, te_actor_id = None\<rparr>"

definition sample_config :: BrokerConfig where
  "sample_config = \<lparr>bc_retention_window = 10, bc_max_queue_len = 4, bc_clock = (\<lambda>n. n),
     bc_validation_mode = Enforcement, bc_version_ok = (\<lambda>_. True)\<rparr>"

definition sample_catalog :: EventCatalog where
  "sample_catalog = [''a.ed'' \<mapsto> \<lparr>ce_event_type = ''a.ed'', ce_owner = ''o'', ce_version = ''1'',
     ce_lifecycle_status = EventActive, ce_consumer_count = 0\<rparr>]"

definition sample_ops :: "broker_op list" where
  "sample_ops = [OpSubscribe ''a.ed'' ''0'' (Some ''u'') None, OpPublish (sample_event ''x'' ''u'')]"

lemma sample_valid:
  "validate_event (\<lambda>_. True) (sample_event ''x'' ''u'') Enforcement = \<lparr>evr_accepted = True, evr_diagnostics = []\<rparr>"
  by code_simp

lemma sample_cursor: "parse_cursor ''0'' = Inr 0"
  unfolding parse_cursor_def by (simp add: rust_string_simps)

lemmas broker_eval = ib_publish_def publish_internal_def validate_boundary_def accept_event_def prune_expired_def
  subscribe_with_subject_def ib_poll_def deliver_queued_def update_subscriptions_def deliver_live_def
  subscription_ids_for_event_type_def enqueue_with_drop_oldest_def validate_from_cursor_def last_cursor_def
  subject_matches_def saturating_add_def u64_max_def empty_broker_state_def evidence_from_result_def drop_behind_def
  subscription_name_def show_nat.simps

lemma sample_poll:
  "case fst (ib_poll sample_config (broker_run sample_config sample_catalog sample_ops) ''sub-1'' 7) of
     Inl _ \<Rightarrow> False | Inr p \<Rightarrow> map bev_event (poll_events p) = [sample_event ''x'' ''u'']"
proof -
  have event: "te_event_type (sample_event i u) = ''a.ed''" "te_id (sample_event i u) = i"
    "te_subject_id (sample_event i u) = Some u" for i u
    by (simp_all add: sample_event_def)
  show ?thesis
    by (simp add: broker_run_def sample_ops_def sample_config_def sample_catalog_def sample_cursor sample_valid
          event broker_eval Let_def increment_consumer_count_def)
qed


end
