(* ===== verification/Runtime_Live.thy ===== *)
theory Runtime_Live
  imports Runtime_Safety Event_Broker
begin

text \<open>
  That an execution returns. A workflow is a loop that may run forever, and its waiting edges are read
  in a second loop that polls the broker; the first ends when the edges of the workflow are acyclic, the
  second because a poll of the broker removes what it returns. The second is the contract of
  the locale \<open>event_broker\<close>, which the in-process broker and the fallback broker of the runtime
  satisfy.
\<close>

section \<open>Lemmas\<close>

definition acyclic_workflows :: "('h, 'b) RuntimeHost \<Rightarrow> bool" where
  "acyclic_workflows host \<longleftrightarrow>
     (\<forall>request workflow. found_workflow host request = Some workflow \<longrightarrow> acyclic (edge_relation workflow))"

context event_broker
begin

lemma execute_workflow_total:
  assumes "acyclic_workflows host"
    and "rh_broker host = eb" "inv (rw_broker w)"
  shows "\<exists>outcome w'. execute_workflow host request w = Some (outcome, w') \<and> inv (rw_broker w')"
proof (cases "found_workflow host request")
  case None
  with assms(3) show ?thesis by (simp add: execute_workflow_unfold split: option.split)
next
  case (Some workflow)
  have "acyclic (edge_relation workflow)" using assms(1) Some unfolding acyclic_workflows_def by blast
  from traverse_total [OF this assms(2,3), of request]
  obtain r w' where "traverse_workflow host request workflow w = Some (r, w')" "inv (rw_broker w')" by blast
  with Some assms(3) show ?thesis by (simp add: execute_workflow_unfold split: option.split sum.split)
qed

lemma execute_with_executor_keeps:
  assumes "rh_broker host = eb" "inv (rw_broker w)"
  shows "inv (rw_broker (snd (execute_with_executor host durable request executor w)))"
  using assms unfolding execute_with_executor_def Let_def
  by (auto simp: publish_keeps_all split: sum.split prod.split)

lemma execute_workflow_capability_total:
  assumes "acyclic_workflows host"
    and "rh_broker host = eb" "inv (rw_broker w)"
  shows "\<exists>outcome w'. execute_workflow_capability host context selected started w = Some (outcome, w') \<and> inv (rw_broker w')"
proof (cases "artifact_workflow_ref (rc_artifact selected)")
  case None
  with assms(3) show ?thesis by (simp add: execute_workflow_capability_def)
next
  case (Some ref)
  from execute_workflow_total [OF assms, of "workflow_request_of context selected ref"]
  obtain outcome w' where "execute_workflow host (workflow_request_of context selected ref) w = Some (outcome, w')"
    "inv (rw_broker w')" by blast
  with Some show ?thesis
    by (simp add: execute_workflow_capability_def Let_def split: WorkflowTraversalStatus.split)
qed

lemma execute_started_total:
  assumes "acyclic_workflows host"
    and "rh_broker host = eb" "inv (rw_broker w)"
  shows "\<exists>outcome w'. execute_started_selection host context selected placement w = Some (outcome, w') \<and> inv (rw_broker w')"
proof -
  note workflow = execute_workflow_capability_total [OF assms]
  note keeps = execute_with_executor_keeps [OF assms(2,3)]
  show ?thesis
    unfolding execute_started_selection_def Let_def
    by (auto simp: workflow keeps case_prod_beta split: sum.split)
qed

lemma run_attempt_total:
  assumes "acyclic_workflows host"
    and "rh_broker host = eb" "inv (rw_broker w)"
  shows "\<exists>outcome w'. run_attempt host attempt e w = Some (outcome, w') \<and> inv (rw_broker w')"
proof -
  obtain resolution e' w0 where r: "resolve_candidates host (at_request attempt) e w = (resolution, e', w0)"
    by (rule prod_cases3)
  have w0: "inv (rw_broker w0)" using resolve_candidates_world [OF r] assms(3) by (simp add: same_world_def)
  note started = execute_started_total [OF assms(1,2) w0]
  show ?thesis
    using assms(3) w0 unfolding run_attempt_def Let_def r prod.case execute_selected_def
    by (auto simp: started split: option.split list.split sum.split prod.split)
qed

lemma runtime_execute_total:
  assumes "acyclic_workflows host"
    and "rh_broker host = eb" "inv (rw_broker w)"
  shows "\<exists>outcome w'. runtime_execute host request w = Some (outcome, w') \<and> inv (rw_broker w')"
proof -
  obtain attempt e where s: "start_attempt host request = (attempt, e)" by (cases "start_attempt host request")
  obtain outcome w' where "run_attempt host attempt e w = Some (outcome, w')" "inv (rw_broker w')"
    using run_attempt_total [OF assms] by blast
  then show ?thesis
    by (intro exI [of _ "fst (emit_execution_lifecycle_event host outcome (rx_identity (rq_context request)) w')"]
        exI [of _ "snd (emit_execution_lifecycle_event host outcome (rx_identity (rq_context request)) w')"])
      (simp add: runtime_execute_def s)
qed

end

subsection \<open>A concrete host\<close>

definition sample_workflow :: WorkflowDefinition where
  "sample_workflow = \<lparr>wd_id = ''wf'', wd_version = ''1.0.0'', wd_inputs = \<lparr>sc_schema = JObject []\<rparr>,
     wd_outputs = \<lparr>sc_schema = JObject []\<rparr>,
     wd_nodes = [\<lparr>wn_node_id = ''a'', wn_capability_id = ''cap.a'', wn_capability_version = ''1.0.0'', from_workflow_input = [],
         to_workflow_state = [], publish_to_state_as = None\<rparr>,
       \<lparr>wn_node_id = ''b'', wn_capability_id = ''cap.b'', wn_capability_version = ''1.0.0'', from_workflow_input = [],
         to_workflow_state = [], publish_to_state_as = None\<rparr>],
     wd_edges = [\<lparr>we_edge_id = ''e'', we_from = ''a'', we_to = ''b'', we_trigger = EventTrigger,
       we_event = Some \<lparr>er_event_id = ''a.ed'', er_version = ''1''\<rparr>, we_predicate = None\<rparr>],
     wd_start_node = ''a'', wd_terminal_nodes = [''b''], wd_output_projection = []\<rparr>"

definition sample_live_host :: "(nat, InProcessBroker) RuntimeHost" where
  "sample_live_host = \<lparr>rh_execute = (\<lambda>h capability input. (Ok \<lparr>lo_value = input, lo_emitted_events = []\<rparr>, Suc h)),
     rh_broker = in_process_broker sample_config, rh_emit = (\<lambda>h event. (Ok (), h)), rh_read = (\<lambda>h path. Err ''missing''),
     rh_security = sample_security, rh_mode = Production, rh_observability = rh_observability sample_host,
     rh_utf8 = (\<lambda>_. True), rh_parse_contract = (\<lambda>_. None), rh_json_text = (\<lambda>_. ''{}''), rh_now = (\<lambda>_. ''now''),
     rh_elapsed_ms = (\<lambda>_. 1), rh_uuid = show_nat, rh_index = empty_index, rh_registry = sample_registry,
     rh_discover = (\<lambda>_. []), rh_resolve_range = (\<lambda>_ _ _. None), rh_resolve_dependencies = (\<lambda>_ _ _. Ok ()),
     rh_semver_ok = (\<lambda>_. True), rh_version_req = (\<lambda>_. None), rh_version_le = (\<lambda>_ _. True),
     rh_workflow_registry = (\<lambda>_ _ _. Some sample_workflow), rh_indexed_workflows = Map.empty\<rparr>"

definition sample_live_world :: "(nat, InProcessBroker) RuntimeWorld" where
  "sample_live_world = \<lparr>rw_host = 0, rw_broker = broker_run sample_config sample_catalog [], rw_traces = Map.empty,
     rw_cache = new_cache 4, rw_tick = 0\<rparr>"

lemma sample_live:
  "acyclic_workflows sample_live_host" "rh_broker sample_live_host = in_process_broker sample_config"
  "keys_agree (rw_broker sample_live_world)"
proof -
  have "edge_relation sample_workflow = {(''a'', ''b'')}" by (simp add: edge_relation_def sample_workflow_def)
  moreover have "acyclic {(''a'', ''b'')}" by (rule acyclicI) (auto elim: tranclE dest: tranclD)
  ultimately show "acyclic_workflows sample_live_host"
    by (simp add: acyclic_workflows_def found_workflow_def sample_live_host_def)
  show "rh_broker sample_live_host = in_process_broker sample_config" by (simp add: sample_live_host_def)
  show "keys_agree (rw_broker sample_live_world)"
    by (simp add: sample_live_world_def broker_run_def keys_agree_def keys_agree_st_def empty_broker_state_def)
qed

section \<open>Properties\<close>

text \<open>
  C5: An execution returns. With the in-process event broker, in any state in which its subscriptions are
  filed under their own identifiers, and with workflows whose edges are acyclic, \<^verbatim>\<open>Runtime::execute\<close>
  produces an outcome for every request, whatever the executor, the registry and the event sink
  answer: the traversal of a workflow ends, also where it waits for events of the broker, and the
  broker is left in such a state again.
\<close>

theorem execution_returns:
  assumes "acyclic_workflows host" "rh_broker host = in_process_broker config" "keys_agree (rw_broker w)"
  shows "\<exists>outcome w'. runtime_execute host request w = Some (outcome, w') \<and> keys_agree (rw_broker w')"
  by (rule ipb.runtime_execute_total [OF assms])

theorem execution_returns_witness:
  "\<exists>outcome w'. runtime_execute sample_live_host sample_request sample_live_world = Some (outcome, w') \<and> keys_agree (rw_broker w')"
  by (rule execution_returns [OF sample_live])

end
