(* ===== verification/Browser_Subscription.thy ===== *)
theory Browser_Subscription
  imports Runtime_Outcome
begin

text \<open>
  The messages of a browser subscription to one execution outcome
  (\<^verbatim>\<open>browser_subscription_messages\<close> of \<^verbatim>\<open>crates/traverse-runtime/src/lib.rs\<close>). Sequence numbers are \<^verbatim>\<open>u64\<close>
  values that start at 0 and grow by one per message; they are natural numbers here, since no
  outcome has \<open>2\<^sup>6\<^sup>4\<close> state events.
\<close>

section \<open>Definitions\<close>

definition BROWSER_SUBSCRIPTION_REQUEST_KIND :: string where
  "BROWSER_SUBSCRIPTION_REQUEST_KIND = ''browser_runtime_subscription_request''"

definition BROWSER_SUBSCRIPTION_ERROR_KIND :: string where
  "BROWSER_SUBSCRIPTION_ERROR_KIND = ''browser_runtime_subscription_error''"

definition BROWSER_SUBSCRIPTION_LIFECYCLE_KIND :: string where
  "BROWSER_SUBSCRIPTION_LIFECYCLE_KIND = ''browser_runtime_subscription_lifecycle''"

definition BROWSER_SUBSCRIPTION_STATE_KIND :: string where
  "BROWSER_SUBSCRIPTION_STATE_KIND = ''browser_runtime_subscription_state''"

definition BROWSER_SUBSCRIPTION_TRACE_KIND :: string where
  "BROWSER_SUBSCRIPTION_TRACE_KIND = ''browser_runtime_subscription_trace_artifact''"

definition BROWSER_SUBSCRIPTION_TERMINAL_KIND :: string where
  "BROWSER_SUBSCRIPTION_TERMINAL_KIND = ''browser_runtime_subscription_terminal''"

definition BROWSER_SUBSCRIPTION_GOVERNING_SPEC :: string where
  "BROWSER_SUBSCRIPTION_GOVERNING_SPEC = ''013-browser-runtime-subscription''"

record BrowserRuntimeSubscriptionRequest =
  bq_kind :: string
  bq_schema_version :: string
  bq_governing_spec :: string
  bq_request_id :: "string option"
  bq_execution_id :: "string option"

datatype BrowserRuntimeSubscriptionErrorCode = BrowserInvalidRequest | BrowserNotFound | BrowserUnsupportedOperation

record BrowserRuntimeSubscriptionErrorMessage =
  be_kind :: string
  be_schema_version :: string
  be_sequence :: nat
  be_code :: BrowserRuntimeSubscriptionErrorCode
  be_message :: string

datatype BrowserRuntimeSubscriptionLifecycleStatus = SubscriptionEstablished | StreamCompleted

record BrowserRuntimeSubscriptionLifecycleMessage =
  bl_kind :: string
  bl_schema_version :: string
  bl_sequence :: nat
  bl_request_id :: string
  bl_execution_id :: string
  bl_status :: BrowserRuntimeSubscriptionLifecycleStatus

record BrowserRuntimeSubscriptionStateMessage =
  bs_kind :: string
  bs_schema_version :: string
  bs_sequence :: nat
  bs_state_event :: RuntimeStateEvent

record BrowserRuntimeSubscriptionTraceArtifactMessage =
  bt_kind :: string
  bt_schema_version :: string
  bt_sequence :: nat
  bt_trace :: RuntimeTrace

record BrowserRuntimeSubscriptionTerminalMessage =
  bm_kind :: string
  bm_schema_version :: string
  bm_sequence :: nat
  bm_result :: RuntimeResult

datatype BrowserRuntimeSubscriptionMessage =
  BrowserError BrowserRuntimeSubscriptionErrorMessage
| BrowserLifecycle BrowserRuntimeSubscriptionLifecycleMessage
| BrowserState BrowserRuntimeSubscriptionStateMessage
| BrowserTraceArtifact BrowserRuntimeSubscriptionTraceArtifactMessage
| BrowserStreamTerminal BrowserRuntimeSubscriptionTerminalMessage

definition browser_subscription_error ::
  "BrowserRuntimeSubscriptionErrorCode \<Rightarrow> string \<Rightarrow> BrowserRuntimeSubscriptionErrorMessage" where
  "browser_subscription_error code message =
     \<lparr>be_kind = BROWSER_SUBSCRIPTION_ERROR_KIND, be_schema_version = RUNTIME_SCHEMA_VERSION, be_sequence = 0,
      be_code = code, be_message = message\<rparr>"

definition validate_browser_subscription_request ::
  "BrowserRuntimeSubscriptionRequest \<Rightarrow> BrowserRuntimeSubscriptionErrorMessage option" where
  "validate_browser_subscription_request request =
     (if bq_kind request \<noteq> BROWSER_SUBSCRIPTION_REQUEST_KIND
      then Some (browser_subscription_error BrowserInvalidRequest ''kind must equal browser_runtime_subscription_request'')
      else if bq_schema_version request \<noteq> RUNTIME_SCHEMA_VERSION
      then Some (browser_subscription_error BrowserInvalidRequest ''schema_version must equal 1.0.0'')
      else if bq_governing_spec request \<noteq> BROWSER_SUBSCRIPTION_GOVERNING_SPEC
      then Some (browser_subscription_error BrowserInvalidRequest ''governing_spec must equal 013-browser-runtime-subscription'')
      else (case (bq_request_id request, bq_execution_id request) of
              (Some _, Some _) \<Rightarrow>
                Some (browser_subscription_error BrowserInvalidRequest ''exactly one target selector must be supplied'')
            | (Some i, None) \<Rightarrow>
                if non_empty i then None
                else Some (browser_subscription_error BrowserInvalidRequest
                             ''subscription request must include request_id or execution_id'')
            | (None, Some i) \<Rightarrow>
                if non_empty i then None
                else Some (browser_subscription_error BrowserInvalidRequest
                             ''subscription request must include request_id or execution_id'')
            | (None, None) \<Rightarrow>
                Some (browser_subscription_error BrowserInvalidRequest
                        ''subscription request must include request_id or execution_id'')))"

definition subscription_targets_outcome :: "BrowserRuntimeSubscriptionRequest \<Rightarrow> RuntimeExecutionOutcome \<Rightarrow> bool" where
  "subscription_targets_outcome request outcome =
     (case (bq_request_id request, bq_execution_id request) of
        (Some i, None) \<Rightarrow> i = rr_request_id (ro_result outcome)
      | (None, Some i) \<Rightarrow> i = rr_execution_id (ro_result outcome)
      | _ \<Rightarrow> False)"

definition browser_lifecycle ::
  "RuntimeExecutionOutcome \<Rightarrow> nat \<Rightarrow> BrowserRuntimeSubscriptionLifecycleStatus \<Rightarrow> BrowserRuntimeSubscriptionMessage" where
  "browser_lifecycle outcome sequence_number status = BrowserLifecycle
     \<lparr>bl_kind = BROWSER_SUBSCRIPTION_LIFECYCLE_KIND, bl_schema_version = RUNTIME_SCHEMA_VERSION,
      bl_sequence = sequence_number, bl_request_id = rr_request_id (ro_result outcome),
      bl_execution_id = rr_execution_id (ro_result outcome), bl_status = status\<rparr>"

text \<open>The loop over the state events, with the counter it carries.\<close>

fun browser_states :: "nat \<Rightarrow> RuntimeStateEvent list \<Rightarrow> BrowserRuntimeSubscriptionMessage list" where
  "browser_states sequence_number [] = []"
| "browser_states sequence_number (event # rest) =
     BrowserState \<lparr>bs_kind = BROWSER_SUBSCRIPTION_STATE_KIND, bs_schema_version = RUNTIME_SCHEMA_VERSION,
       bs_sequence = sequence_number, bs_state_event = event\<rparr> # browser_states (sequence_number + 1) rest"

definition browser_subscription_messages ::
  "BrowserRuntimeSubscriptionRequest \<Rightarrow> RuntimeExecutionOutcome \<Rightarrow> BrowserRuntimeSubscriptionMessage list" where
  "browser_subscription_messages request outcome =
     (case validate_browser_subscription_request request of
        Some error \<Rightarrow> [BrowserError error]
      | None \<Rightarrow>
          if \<not> subscription_targets_outcome request outcome
          then [BrowserError (browser_subscription_error BrowserNotFound
                  ''subscription target did not match the supplied execution outcome'')]
          else (let after_states = 1 + length (ro_state_events outcome)
                in browser_lifecycle outcome 0 SubscriptionEstablished
                   # browser_states 1 (ro_state_events outcome)
                   @ [BrowserTraceArtifact \<lparr>bt_kind = BROWSER_SUBSCRIPTION_TRACE_KIND,
                        bt_schema_version = RUNTIME_SCHEMA_VERSION, bt_sequence = after_states, bt_trace = ro_trace outcome\<rparr>,
                      BrowserStreamTerminal \<lparr>bm_kind = BROWSER_SUBSCRIPTION_TERMINAL_KIND,
                        bm_schema_version = RUNTIME_SCHEMA_VERSION, bm_sequence = after_states + 1, bm_result = ro_result outcome\<rparr>,
                      browser_lifecycle outcome (after_states + 2) StreamCompleted]))"

section \<open>Lemmas\<close>

fun message_sequence :: "BrowserRuntimeSubscriptionMessage \<Rightarrow> nat" where
  "message_sequence (BrowserError m) = be_sequence m"
| "message_sequence (BrowserLifecycle m) = bl_sequence m"
| "message_sequence (BrowserState m) = bs_sequence m"
| "message_sequence (BrowserTraceArtifact m) = bt_sequence m"
| "message_sequence (BrowserStreamTerminal m) = bm_sequence m"

fun message_states :: "BrowserRuntimeSubscriptionMessage \<Rightarrow> RuntimeStateEvent list" where
  "message_states (BrowserState m) = [bs_state_event m]"
| "message_states _ = []"

lemma browser_states_sequence: "map message_sequence (browser_states n events) = [n..<n + length events]"
  by (induction n events rule: browser_states.induct) (simp_all add: upt_conv_Cons del: upt_Suc)

lemma browser_states_events: "concat (map message_states (browser_states n events)) = events"
  by (induction n events rule: browser_states.induct) simp_all

lemma browser_states_length [simp]: "length (browser_states n events) = length events"
  by (induction n events rule: browser_states.induct) simp_all

lemma browser_sequence:
  "map message_sequence (browser_subscription_messages request outcome) = [0..<length (browser_subscription_messages request outcome)]"
proof -
  have error: "map message_sequence [BrowserError e] = [0..<length [BrowserError e]]" if "be_sequence e = 0" for e
    using that by simp
  have invalid: "validate_browser_subscription_request request = Some e \<Longrightarrow> be_sequence e = 0" for e
    by (auto simp: validate_browser_subscription_request_def browser_subscription_error_def split: if_splits option.splits)
  show ?thesis
    unfolding browser_subscription_messages_def Let_def
    by (auto simp: browser_lifecycle_def browser_states_sequence invalid browser_subscription_error_def upt_conv_Cons
        split: option.split)
qed

section \<open>Properties\<close>

text \<open>
  C40: A browser subscription is a complete, gap-free stream. Its messages are numbered 0, 1, 2, and so
  on; it is either a single error, exactly when the request is invalid or names another
  execution, or it is opened and closed by lifecycle messages and carries, in order, all state
  events of the outcome, its trace and its result.
\<close>

theorem browser_stream_complete:
  "map message_sequence (browser_subscription_messages request outcome) = [0..<length (browser_subscription_messages request outcome)]
   \<and> (if validate_browser_subscription_request request = None \<and> subscription_targets_outcome request outcome
      then concat (map message_states (browser_subscription_messages request outcome)) = ro_state_events outcome
         \<and> length (browser_subscription_messages request outcome) = length (ro_state_events outcome) + 4
         \<and> hd (browser_subscription_messages request outcome) = browser_lifecycle outcome 0 SubscriptionEstablished
         \<and> (\<exists>t r l. drop (Suc (length (ro_state_events outcome))) (browser_subscription_messages request outcome)
              = [BrowserTraceArtifact t, BrowserStreamTerminal r, browser_lifecycle outcome l StreamCompleted]
              \<and> bt_trace t = ro_trace outcome \<and> bm_result r = ro_result outcome)
      else \<exists>e. browser_subscription_messages request outcome = [BrowserError e])"
proof (intro conjI)
  show "map message_sequence (browser_subscription_messages request outcome) = [0..<length (browser_subscription_messages request outcome)]"
    by (rule browser_sequence)
  show "if validate_browser_subscription_request request = None \<and> subscription_targets_outcome request outcome
      then concat (map message_states (browser_subscription_messages request outcome)) = ro_state_events outcome
         \<and> length (browser_subscription_messages request outcome) = length (ro_state_events outcome) + 4
         \<and> hd (browser_subscription_messages request outcome) = browser_lifecycle outcome 0 SubscriptionEstablished
         \<and> (\<exists>t r l. drop (Suc (length (ro_state_events outcome))) (browser_subscription_messages request outcome)
              = [BrowserTraceArtifact t, BrowserStreamTerminal r, browser_lifecycle outcome l StreamCompleted]
              \<and> bt_trace t = ro_trace outcome \<and> bm_result r = ro_result outcome)
      else \<exists>e. browser_subscription_messages request outcome = [BrowserError e]"
    by (auto simp: browser_subscription_messages_def Let_def browser_states_events browser_lifecycle_def split: option.split)
qed

end
