(* ===== verification/Proposal_Execution.thy ===== *)
theory Proposal_Execution
  imports Runtime_Safety
begin

text \<open>
  Execution of workflow proposals: the sequential executor of
  \<^verbatim>\<open>crates/traverse-runtime/src/proposal.rs\<close> (\<^verbatim>\<open>execute_proposal\<close>) and the executor of waves of
  \<^verbatim>\<open>crates/traverse-runtime/src/parallel_proposal.rs\<close>. Both assemble the input of a node from the outputs
  of earlier nodes through the mappings of the proposal and call \<^verbatim>\<open>Runtime::execute\<close>.

  \<^item> \<^verbatim>\<open>Value::pointer\<close> of the JSON package is the parameter \<open>pointer\<close>.
  \<^item> The threads of a batch run in an order that a scheduler chooses, which may depend on everything; a
    call of the runtime is one step of it. The scheduler, the panics of an executor and the readings
    of the clock are fields of \<open>ThreadHost\<close>. A thread that is never scheduled is never joined.
  \<^item> \<open>None\<close> is an execution that does not return.
\<close>

section \<open>Definitions\<close>

subsection \<open>Traces\<close>

datatype ProposalNodeStatus = NodeSucceeded | NodeFailed | SkippedAfterEarlierFailure

record ProposalNodeOutcome =
  no_node_id :: string
  no_capability_id :: string
  no_capability_version :: string
  no_artifact_digest :: string
  no_status :: ProposalNodeStatus
  no_error_code :: "string option"

datatype ProposalTerminalState =
  ProposalSucceeded | ProposalFailed | ProposalCancelled | ProposalExpired | ProposalAuthorizationRevoked

record AuthorizationSummary =
  automatic :: bool
  approval_token_id :: "string option"

record ProposalTrace =
  tr_proposal_id :: string
  tr_proposal_digest :: string
  tr_snapshot_digest :: string
  tr_authorization :: AuthorizationSummary
  node_outcomes :: "ProposalNodeOutcome list"
  mapping_paths :: "(string \<times> string) list"
  terminal_state :: ProposalTerminalState

subsection \<open>Inputs of a node\<close>

type_synonym json_pointer = "json \<Rightarrow> string \<Rightarrow> json option"

fun set_at_segments :: "json \<Rightarrow> string list \<Rightarrow> json \<Rightarrow> json" where
  "set_at_segments current [] new_value = new_value"
| "set_at_segments current (segment # rest) new_value =
     (let ms = (case current of JObject ms \<Rightarrow> ms | _ \<Rightarrow> []);
          child = (case obj_get ms segment of None \<Rightarrow> JNull | Some v \<Rightarrow> v)
      in JObject (obj_insert segment (set_at_segments child rest new_value) (obj_remove segment ms)))"

definition target_segments :: "string \<Rightarrow> string list" where
  "target_segments path = filter (\<lambda>s. s \<noteq> []) (split_on CHR ''/'' path)"

definition pointer_set :: "json \<Rightarrow> string \<Rightarrow> json \<Rightarrow> json" where
  "pointer_set target path new_value = set_at_segments target (target_segments path) new_value"

definition mapped_value :: "json_pointer \<Rightarrow> WorkflowProposal \<Rightarrow> (string \<rightharpoonup> json) \<Rightarrow> ProposalMapping \<Rightarrow> json option" where
  "mapped_value pointer p outputs m =
     (case mapping_source m of
        InitialInput \<Rightarrow> pointer (initial_input p) (source_path m)
      | NodeSource source_id \<Rightarrow> Option.bind (outputs source_id) (\<lambda>produced. pointer produced (source_path m)))"

definition apply_mapping :: "json_pointer \<Rightarrow> WorkflowProposal \<Rightarrow> (string \<rightharpoonup> json) \<Rightarrow> string \<Rightarrow> ProposalMapping \<Rightarrow> json \<Rightarrow> json" where
  "apply_mapping pointer p outputs n m input =
     (if target_node_id m \<noteq> n then input
      else (case mapped_value pointer p outputs m of
              None \<Rightarrow> input
            | Some v \<Rightarrow> pointer_set input (target_path m) v))"

definition assemble_node_input :: "json_pointer \<Rightarrow> CanonicalProposal \<Rightarrow> string \<Rightarrow> (string \<rightharpoonup> json) \<Rightarrow> json" where
  "assemble_node_input pointer c n outputs =
     fold (apply_mapping pointer (proposal c) outputs n) (mappings (proposal c)) (JObject [])"

definition build_node_execution_request :: "CanonicalProposal \<Rightarrow> ProposalNode \<Rightarrow> string \<Rightarrow> json \<Rightarrow> RuntimeRequest" where
  "build_node_execution_request c node n input =
     \<lparr>rq_kind = ''runtime_request'', rq_schema_version = ''1.0.0'',
      rq_request_id = proposal_id (proposal c) @ ''-'' @ n,
      rq_intent = \<lparr>ri_capability_id = Some (capability_id node), ri_capability_version = Some (capability_version node),
        ri_version_range = None, ri_intent_key = None\<rparr>,
      rq_input = input, rq_lookup = \<lparr>rl_scope = RtPreferPrivate, rl_allow_ambiguity = False\<rparr>,
      rq_context = \<lparr>rx_requested_target = TargetLocal, rx_correlation_id = Some (proposal_id (proposal c)),
        rx_caller = Some ''workflow_proposal'', rx_traceparent = None, rx_tracestate = None, rx_metadata = None,
        rx_identity = None\<rparr>,
      rq_governing_spec = ''006-runtime-request-execution''\<rparr>"

subsection \<open>Outcomes of a node\<close>

text \<open>\<^verbatim>\<open>nodes_by_id\<close>: of nodes with the same id, the last is kept.\<close>

definition nodes_by_id :: "CanonicalProposal \<Rightarrow> string \<rightharpoonup> ProposalNode" where
  "nodes_by_id c = map_of (rev (map (\<lambda>node. (node_id node, node)) (nodes (proposal c))))"

definition node_outcome :: "string \<Rightarrow> ProposalNode \<Rightarrow> ProposalNodeStatus \<Rightarrow> string option \<Rightarrow> ProposalNodeOutcome" where
  "node_outcome n node status code =
     \<lparr>no_node_id = n, no_capability_id = capability_id node, no_capability_version = capability_version node,
      no_artifact_digest = artifact_digest node, no_status = status, no_error_code = code\<rparr>"

text \<open>\<^verbatim>\<open>format!("{:?}", error.code)\<close>\<close>

fun error_code_debug :: "RuntimeErrorCode \<Rightarrow> string" where
  "error_code_debug RequestInvalid = ''RequestInvalid''"
| "error_code_debug RtCapabilityNotFound = ''CapabilityNotFound''"
| "error_code_debug CapabilityAmbiguous = ''CapabilityAmbiguous''"
| "error_code_debug CapabilityNotRunnable = ''CapabilityNotRunnable''"
| "error_code_debug PlacementUnsupportedError = ''PlacementUnsupported''"
| "error_code_debug ArtifactMissingError = ''ArtifactMissing''"
| "error_code_debug ExecutionFailedError = ''ExecutionFailed''"
| "error_code_debug OutputValidationFailed = ''OutputValidationFailed''"
| "error_code_debug ContractViolationError = ''ContractViolation''"

definition succeeded_outcome :: "string \<Rightarrow> ProposalNode \<Rightarrow> ProposalNodeOutcome" where
  "succeeded_outcome n node = node_outcome n node NodeSucceeded None"

definition failed_outcome :: "string \<Rightarrow> ProposalNode \<Rightarrow> RuntimeExecutionOutcome \<Rightarrow> ProposalNodeOutcome" where
  "failed_outcome n node outcome =
     node_outcome n node NodeFailed (map_option (\<lambda>e. error_code_debug (re_code e)) (rr_error (ro_result outcome)))"

definition panicked_outcome :: "string \<Rightarrow> ProposalNode \<Rightarrow> ProposalNodeOutcome" where
  "panicked_outcome n node = node_outcome n node NodeFailed (Some ''executor_panicked'')"

definition skipped_outcome :: "string \<Rightarrow> ProposalNode \<Rightarrow> ProposalNodeOutcome" where
  "skipped_outcome n node = node_outcome n node SkippedAfterEarlierFailure None"

definition proposal_trace ::
  "CanonicalProposal \<Rightarrow> AuthorizationSummary \<Rightarrow> string \<Rightarrow> string \<Rightarrow> ProposalNodeOutcome list \<Rightarrow> ProposalTerminalState \<Rightarrow> ProposalTrace" where
  "proposal_trace c authorization proposal_digest snapshot_digest outcomes state =
     \<lparr>tr_proposal_id = proposal_id (proposal c), tr_proposal_digest = proposal_digest,
      tr_snapshot_digest = snapshot_digest, tr_authorization = authorization, node_outcomes = outcomes,
      mapping_paths = map (\<lambda>m. (source_path m, target_path m)) (mappings (proposal c)), terminal_state = state\<rparr>"

subsection \<open>Sequential execution\<close>

fun run_nodes ::
  "('h, 'b) RuntimeHost \<Rightarrow> json_pointer \<Rightarrow> CanonicalProposal \<Rightarrow> string list \<Rightarrow> (string \<rightharpoonup> json) \<Rightarrow>
     ProposalNodeOutcome list \<Rightarrow> bool \<Rightarrow> ('h, 'b) RuntimeWorld \<Rightarrow>
     (ProposalNodeOutcome list \<times> bool \<times> ('h, 'b) RuntimeWorld) option" where
  "run_nodes host pointer c [] outputs outcomes failed w = Some (outcomes, failed, w)"
| "run_nodes host pointer c (n # rest) outputs outcomes failed w =
     (case nodes_by_id c n of
        None \<Rightarrow> run_nodes host pointer c rest outputs outcomes failed w
      | Some node \<Rightarrow>
          if failed then run_nodes host pointer c rest outputs (outcomes @ [skipped_outcome n node]) failed w
          else (case runtime_execute host
                       (build_node_execution_request c node n (assemble_node_input pointer c n outputs)) w of
                  None \<Rightarrow> None
                | Some (outcome, w) \<Rightarrow>
                    (case rr_status (ro_result outcome) of
                       ResultCompleted \<Rightarrow>
                         run_nodes host pointer c rest
                           (case rr_output (ro_result outcome) of None \<Rightarrow> outputs | Some v \<Rightarrow> outputs(n \<mapsto> v))
                           (outcomes @ [succeeded_outcome n node]) failed w
                     | ResultError \<Rightarrow>
                         run_nodes host pointer c rest outputs (outcomes @ [failed_outcome n node outcome]) True w)))"

definition execute_proposal ::
  "('h, 'b) RuntimeHost \<Rightarrow> json_pointer \<Rightarrow> CanonicalProposal \<Rightarrow> AuthorizationSummary \<Rightarrow> string \<Rightarrow> string \<Rightarrow>
     ('h, 'b) RuntimeWorld \<Rightarrow> (ProposalTrace \<times> ('h, 'b) RuntimeWorld) option" where
  "execute_proposal host pointer c authorization proposal_digest snapshot_digest w =
     map_option (\<lambda>(outcomes, failed, w).
         (proposal_trace c authorization proposal_digest snapshot_digest outcomes
            (if failed then ProposalFailed else ProposalSucceeded), w))
       (run_nodes host pointer c (execution_order c) Map.empty [] False w)"

subsection \<open>Authorization of concurrency\<close>

datatype ParallelAuthorizationErrorCode = ConcurrentSideEffectDenied

record ParallelAuthorizationError =
  pa_code :: ParallelAuthorizationErrorCode
  pa_message :: string
  pa_path :: string

definition effect_class_by_node :: "ResolvedProposalNode list \<Rightarrow> string \<rightharpoonup> EffectClass" where
  "effect_class_by_node resolved =
     map_of (rev (map (\<lambda>r. (resolved_node_id r, effect_class (cc_risk (contract r)))) resolved))"

definition concurrent_side_effect :: "string \<Rightarrow> nat \<Rightarrow> ParallelAuthorizationError" where
  "concurrent_side_effect n wave_index =
     \<lparr>pa_code = ConcurrentSideEffectDenied,
      pa_message = ''node '' @ [CHR 0x27] @ n @ [CHR 0x27] @ '' does not have effect_class pure_read and cannot run concurrently with other nodes in wave ''
        @ show_nat wave_index,
      pa_path = ''$.schedule.waves['' @ show_nat wave_index @ '']''\<rparr>"

definition wave_errors :: "(string \<rightharpoonup> EffectClass) \<Rightarrow> nat \<times> string list \<Rightarrow> ParallelAuthorizationError list" where
  "wave_errors effects = (\<lambda>(wave_index, wave).
     if length wave \<le> 1 then []
     else map (\<lambda>n. concurrent_side_effect n wave_index) (filter (\<lambda>n. effects n \<noteq> Some PureRead) wave))"

definition enforce_pure_read_only_parallelism ::
  "ParallelSchedule \<Rightarrow> ResolvedProposalNode list \<Rightarrow> (unit, ParallelAuthorizationError list) result" where
  "enforce_pure_read_only_parallelism schedule resolved =
     (let errors = concat (map (wave_errors (effect_class_by_node resolved)) (enumerate 0 (waves schedule)))
      in if errors = [] then Ok () else Err errors)"

subsection \<open>Execution in waves\<close>

record ParallelExecutionLimits =
  max_wall_time :: nat
  max_wave_payload_bytes :: nat
  limit_concurrent_nodes :: nat

text \<open>Durations are in milliseconds.\<close>

definition default_execution_limits :: ParallelExecutionLimits where
  "default_execution_limits =
     \<lparr>max_wall_time = 30000, max_wave_payload_bytes = 1048576,
      limit_concurrent_nodes = max_concurrent_nodes default_schedule_limits\<rparr>"

text \<open>\<^verbatim>\<open>std::thread::Result\<close> of a call of the runtime.\<close>

datatype thread_result = Joined RuntimeExecutionOutcome | Panicked

record 'w ThreadHost =
  th_schedule :: "nat \<Rightarrow> 'w \<Rightarrow> nat list"
  th_panic :: "RuntimeRequest \<Rightarrow> 'w \<Rightarrow> 'w option"
  th_elapsed :: "nat \<Rightarrow> nat"

definition thread_call ::
  "('h, 'b) RuntimeHost \<Rightarrow> ('h, 'b) RuntimeWorld ThreadHost \<Rightarrow> RuntimeRequest \<Rightarrow> ('h, 'b) RuntimeWorld \<Rightarrow>
     (thread_result \<times> ('h, 'b) RuntimeWorld) option" where
  "thread_call host th request w =
     (case th_panic th request w of
        Some w \<Rightarrow> Some (Panicked, w)
      | None \<Rightarrow> map_option (\<lambda>(outcome, w). (Joined outcome, w)) (runtime_execute host request w))"

text \<open>The threads of a scope, in the order in which they are scheduled, and the join of all of them in
  the order in which they were spawned.\<close>

fun run_threads ::
  "('r \<Rightarrow> 'w \<Rightarrow> ('a \<times> 'w) option) \<Rightarrow> 'r list \<Rightarrow> nat list \<Rightarrow> (nat \<rightharpoonup> 'a) \<Rightarrow> 'w \<Rightarrow> ((nat \<rightharpoonup> 'a) \<times> 'w) option" where
  "run_threads call requests [] results w = Some (results, w)"
| "run_threads call requests (i # schedule) results w =
     (case call (requests ! i) w of
        None \<Rightarrow> None
      | Some (r, w) \<Rightarrow> run_threads call requests schedule (results(i \<mapsto> r)) w)"

definition thread_scope ::
  "('r \<Rightarrow> 'w \<Rightarrow> ('a \<times> 'w) option) \<Rightarrow> nat list \<Rightarrow> 'r list \<Rightarrow> 'w \<Rightarrow> ('a list \<times> 'w) option" where
  "thread_scope call schedule requests w =
     (case run_threads call requests schedule Map.empty w of
        None \<Rightarrow> None
      | Some (results, w) \<Rightarrow> map_option (\<lambda>joined. (joined, w)) (those (map results [0..<length requests])))"

definition joined_node ::
  "string \<times> ProposalNode \<Rightarrow> thread_result \<Rightarrow> string \<times> ProposalNodeOutcome \<times> json option" where
  "joined_node = (\<lambda>(n, node) result.
     case result of
       Joined outcome \<Rightarrow>
         (case rr_status (ro_result outcome) of
            ResultCompleted \<Rightarrow> (n, succeeded_outcome n node, rr_output (ro_result outcome))
          | ResultError \<Rightarrow> (n, failed_outcome n node outcome, None))
     | Panicked \<Rightarrow> (n, panicked_outcome n node, None))"

definition dispatchable :: "CanonicalProposal \<Rightarrow> (string \<times> json) list \<Rightarrow> (string \<times> ProposalNode \<times> json) list" where
  "dispatchable c batch =
     List.map_filter (\<lambda>(n, input). map_option (\<lambda>node. (n, node, input)) (nodes_by_id c n)) batch"

definition dispatch_batch ::
  "('h, 'b) RuntimeHost \<Rightarrow> ('h, 'b) RuntimeWorld ThreadHost \<Rightarrow> CanonicalProposal \<Rightarrow> (string \<times> json) list \<Rightarrow>
     ('h, 'b) RuntimeWorld \<Rightarrow> ((string \<times> ProposalNodeOutcome \<times> json option) list \<times> ('h, 'b) RuntimeWorld) option" where
  "dispatch_batch host th c batch w =
     (let spawned = dispatchable c batch;
          requests = map (\<lambda>(n, node, input). build_node_execution_request c node n input) spawned
      in map_option (\<lambda>(joined, w). (map2 joined_node (map (\<lambda>(n, node, _). (n, node)) spawned) joined, w))
           (thread_scope (thread_call host th) (th_schedule th (length requests) w) requests w))"

record WaveRun =
  wr_outputs :: "string \<rightharpoonup> json"
  wr_outcomes :: "ProposalNodeOutcome list"
  wr_failed :: bool
  wr_cancelled :: bool

definition fold_joined :: "string \<times> ProposalNodeOutcome \<times> json option \<Rightarrow> WaveRun \<Rightarrow> WaveRun" where
  "fold_joined = (\<lambda>(n, outcome, result) run.
     run\<lparr>wr_failed := wr_failed run \<or> no_status outcome = NodeFailed,
         wr_outputs := (case result of None \<Rightarrow> wr_outputs run | Some v \<Rightarrow> (wr_outputs run)(n \<mapsto> v)),
         wr_outcomes := wr_outcomes run @ [outcome]\<rparr>)"

text \<open>\<^verbatim>\<open>slice::chunks\<close>, for a positive size.\<close>

function chunks :: "nat \<Rightarrow> 'a list \<Rightarrow> 'a list list" where
  "chunks n [] = []"
| "chunks n (x # xs) = take (max n 1) (x # xs) # chunks n (drop (max n 1) (x # xs))"
  by pat_completeness auto

termination by (relation "measure (length \<circ> snd)") auto

fun run_batches ::
  "('h, 'b) RuntimeHost \<Rightarrow> ('h, 'b) RuntimeWorld ThreadHost \<Rightarrow> CanonicalProposal \<Rightarrow> (string \<times> json) list list \<Rightarrow>
     WaveRun \<Rightarrow> ('h, 'b) RuntimeWorld \<Rightarrow> (WaveRun \<times> ('h, 'b) RuntimeWorld) option" where
  "run_batches host th c [] run w = Some (run, w)"
| "run_batches host th c (batch # rest) run w =
     (case dispatch_batch host th c batch w of
        None \<Rightarrow> None
      | Some (joined, w) \<Rightarrow> run_batches host th c rest (fold fold_joined joined run) w)"

definition push_skipped_wave :: "CanonicalProposal \<Rightarrow> string list \<Rightarrow> WaveRun \<Rightarrow> WaveRun" where
  "push_skipped_wave c wave run =
     run\<lparr>wr_outcomes := wr_outcomes run @
           List.map_filter (\<lambda>n. map_option (skipped_outcome n) (nodes_by_id c n)) wave\<rparr>"

definition wave_inputs :: "json_pointer \<Rightarrow> CanonicalProposal \<Rightarrow> string list \<Rightarrow> (string \<rightharpoonup> json) \<Rightarrow> (string \<times> json) list" where
  "wave_inputs pointer c wave outputs = map (\<lambda>n. (n, assemble_node_input pointer c n outputs)) wave"

definition run_wave ::
  "('h, 'b) RuntimeHost \<Rightarrow> ('h, 'b) RuntimeWorld ThreadHost \<Rightarrow> json_pointer \<Rightarrow> CanonicalProposal \<Rightarrow> ParallelExecutionLimits \<Rightarrow>
     nat \<Rightarrow> string list \<Rightarrow> WaveRun \<Rightarrow> ('h, 'b) RuntimeWorld \<Rightarrow> (WaveRun \<times> ('h, 'b) RuntimeWorld) option" where
  "run_wave host th pointer c limits k wave run w =
     (if wr_failed run \<or> wr_cancelled run then Some (push_skipped_wave c wave run, w)
      else if th_elapsed th k > max_wall_time limits
      then Some (push_skipped_wave c wave (run\<lparr>wr_cancelled := True\<rparr>), w)
      else (let inputs = wave_inputs pointer c wave (wr_outputs run);
                bytes = sum_list (map (\<lambda>(_, input). length (rh_json_text host input)) inputs)
            in if bytes > max_wave_payload_bytes limits
               then Some (push_skipped_wave c wave (run\<lparr>wr_cancelled := True\<rparr>), w)
               else run_batches host th c (chunks (limit_concurrent_nodes limits) inputs) run w))"

fun run_waves ::
  "('h, 'b) RuntimeHost \<Rightarrow> ('h, 'b) RuntimeWorld ThreadHost \<Rightarrow> json_pointer \<Rightarrow> CanonicalProposal \<Rightarrow> ParallelExecutionLimits \<Rightarrow>
     nat \<Rightarrow> string list list \<Rightarrow> WaveRun \<Rightarrow> ('h, 'b) RuntimeWorld \<Rightarrow> (WaveRun \<times> ('h, 'b) RuntimeWorld) option" where
  "run_waves host th pointer c limits k [] run w = Some (run, w)"
| "run_waves host th pointer c limits k (wave # rest) run w =
     (case run_wave host th pointer c limits k wave run w of
        None \<Rightarrow> None
      | Some (run, w) \<Rightarrow> run_waves host th pointer c limits (Suc k) rest run w)"

definition initial_run :: WaveRun where
  "initial_run = \<lparr>wr_outputs = Map.empty, wr_outcomes = [], wr_failed = False, wr_cancelled = False\<rparr>"

definition run_terminal :: "WaveRun \<Rightarrow> ProposalTerminalState" where
  "run_terminal run =
     (if wr_failed run then ProposalFailed else if wr_cancelled run then ProposalCancelled else ProposalSucceeded)"

definition execute_parallel_proposal ::
  "('h, 'b) RuntimeHost \<Rightarrow> ('h, 'b) RuntimeWorld ThreadHost \<Rightarrow> json_pointer \<Rightarrow> CanonicalProposal \<Rightarrow> ParallelSchedule \<Rightarrow>
     AuthorizationSummary \<Rightarrow> string \<Rightarrow> string \<Rightarrow> ParallelExecutionLimits \<Rightarrow> ('h, 'b) RuntimeWorld \<Rightarrow>
     (ProposalTrace \<times> ('h, 'b) RuntimeWorld) option" where
  "execute_parallel_proposal host th pointer c schedule authorization proposal_digest snapshot_digest limits w =
     map_option (\<lambda>(run, w).
         (proposal_trace c authorization proposal_digest snapshot_digest (wr_outcomes run) (run_terminal run), w))
       (run_waves host th pointer c limits 0 (waves schedule) initial_run w)"

subsection \<open>Specification\<close>

text \<open>What a proposal keeps of an outcome: the status, the output and the error code.\<close>

type_synonym answer = "RuntimeResultStatus \<times> json option \<times> string option"

definition node_answer :: "RuntimeExecutionOutcome \<Rightarrow> answer" where
  "node_answer outcome =
     (rr_status (ro_result outcome), rr_output (ro_result outcome),
      map_option (\<lambda>e. error_code_debug (re_code e)) (rr_error (ro_result outcome)))"

text \<open>The runtime answers the request of a node the same in every world.\<close>

definition answers :: "('h, 'b) RuntimeHost \<Rightarrow> CanonicalProposal \<Rightarrow> (string \<Rightarrow> json \<Rightarrow> answer) \<Rightarrow> bool" where
  "answers host c ans \<longleftrightarrow>
     (\<forall>node \<in> set (nodes (proposal c)). \<forall>input w. \<exists>outcome w'.
        runtime_execute host (build_node_execution_request c node (node_id node) input) w = Some (outcome, w')
        \<and> node_answer outcome = ans (node_id node) input)"

text \<open>The output of every node when no failure stops the others, and the answer of each node on the
  outputs of the nodes before it.\<close>

definition settle :: "json_pointer \<Rightarrow> CanonicalProposal \<Rightarrow> (string \<Rightarrow> json \<Rightarrow> answer) \<Rightarrow> string \<Rightarrow> (string \<rightharpoonup> json) \<Rightarrow> string \<rightharpoonup> json" where
  "settle pointer c ans n outputs =
     (case ans n (assemble_node_input pointer c n outputs) of
        (ResultCompleted, Some v, _) \<Rightarrow> outputs(n \<mapsto> v)
      | _ \<Rightarrow> outputs)"

definition all_outputs :: "json_pointer \<Rightarrow> CanonicalProposal \<Rightarrow> (string \<Rightarrow> json \<Rightarrow> answer) \<Rightarrow> string \<rightharpoonup> json" where
  "all_outputs pointer c ans = fold (settle pointer c ans) (execution_order c) Map.empty"

definition final_answer :: "json_pointer \<Rightarrow> CanonicalProposal \<Rightarrow> (string \<Rightarrow> json \<Rightarrow> answer) \<Rightarrow> string \<Rightarrow> answer" where
  "final_answer pointer c ans n = ans n (assemble_node_input pointer c n (all_outputs pointer c ans))"

definition answered :: "string \<Rightarrow> ProposalNode \<Rightarrow> answer \<Rightarrow> ProposalNodeOutcome" where
  "answered n node = (\<lambda>(status, _, code).
     case status of
       ResultCompleted \<Rightarrow> succeeded_outcome n node
     | ResultError \<Rightarrow> node_outcome n node NodeFailed code)"

section \<open>Inputs\<close>

lemma assemble_cong:
  assumes "\<And>u. (u, n) \<in> set (edge_pairs (proposal c)) \<Longrightarrow> outputs u = outputs' u"
    and "\<And>m s. m \<in> set (mappings (proposal c)) \<Longrightarrow> mapping_source m = NodeSource s \<Longrightarrow> (s, target_node_id m) \<in> set (edge_pairs (proposal c))"
  shows "assemble_node_input pointer c n outputs = assemble_node_input pointer c n outputs'"
  unfolding assemble_node_input_def
proof (rule fold_cong [OF refl refl])
  fix m assume "m \<in> set (mappings (proposal c))"
  with assms show "apply_mapping pointer (proposal c) outputs n m = apply_mapping pointer (proposal c) outputs' n m"
    by (auto simp: fun_eq_iff apply_mapping_def mapped_value_def split: MappingSource.split)
qed

lemma settle_other: "u \<noteq> n \<Longrightarrow> settle pointer c ans n outputs u = outputs u"
  by (auto simp: settle_def split: prod.split option.split RuntimeResultStatus.split)

lemma fold_settle_other: "u \<notin> set L \<Longrightarrow> fold (settle pointer c ans) L outputs u = outputs u"
  by (induction L arbitrary: outputs) (auto simp: settle_other)

text \<open>The facts about an accepted proposal that both executors use.\<close>

definition runs_in_order :: "CanonicalProposal \<Rightarrow> bool" where
  "runs_in_order c \<longleftrightarrow>
     distinct (execution_order c) \<and> set (execution_order c) = declared_ids (proposal c) \<and> distinct (map node_id (nodes (proposal c)))
   \<and> (\<forall>i < length (execution_order c). preds (set (edge_pairs (proposal c))) (execution_order c ! i) \<subseteq> set (take i (execution_order c)))
   \<and> (\<forall>m \<in> set (mappings (proposal c)). \<forall>s. mapping_source m = NodeSource s \<longrightarrow> (s, target_node_id m) \<in> set (edge_pairs (proposal c)))"

lemma canonical_runs_in_order:
  assumes "canonicalize_proposal to_vec_len p l = Some (Ok c)"
  shows "runs_in_order c" "proposal c = p"
proof -
  note ok = canonicalize_Ok_iff [OF assms]
  show p: "proposal c = p" using ok by blast
  have err: "edge_errors (edge_tables p) = []"
    using ok by (simp add: structural_errors_def Let_def case_prod_unfold)
  have g: "greedy_order (node_ids p) (declared_edges (edge_tables p)) (execution_order c)"
    using ok by (simp add: node_ids_declared edge_tables_declared [OF err])
  have "preds (set (edge_pairs p)) (execution_order c ! i) \<subseteq> set (take i (execution_order c))" if i: "i < length (execution_order c)" for i
  proof
    fix u assume "u \<in> preds (set (edge_pairs p)) (execution_order c ! i)"
    then have "(u, execution_order c ! i) \<in> declared_edges (edge_tables p)" by (simp add: preds_def edge_tables_declared [OF err])
    from scanned.greedy_order_before [OF g this i refl] obtain j where "j < i" "execution_order c ! j = u" by blast
    with i show "u \<in> set (take i (execution_order c))" by (auto simp: in_set_conv_nth)
  qed
  moreover have "well_formed_proposal to_vec_len p l"
    using ok structural_errors_Nil_iff [of to_vec_len p l] by blast
  ultimately show "runs_in_order c"
    using scanned.greedy_order_facts [OF g] ok p
    unfolding runs_in_order_def p well_formed_proposal_def by (auto split: MappingSource.splits)
qed

lemma nodes_by_id_Some:
  assumes "runs_in_order c"
  shows "nodes_by_id c n = Some node \<longleftrightarrow> node \<in> set (nodes (proposal c)) \<and> node_id node = n"
proof -
  have "distinct (map fst (rev (map (\<lambda>node. (node_id node, node)) (nodes (proposal c)))))"
    using assms by (simp add: runs_in_order_def rev_map [symmetric] comp_def)
  then show ?thesis unfolding nodes_by_id_def by (auto simp: map_of_eq_Some_iff)
qed

lemma nodes_by_id_declared:
  assumes "runs_in_order c" "n \<in> declared_ids (proposal c)"
  obtains node where "nodes_by_id c n = Some node" "node \<in> set (nodes (proposal c))" "node_id node = n"
  using assms nodes_by_id_Some [OF assms(1)] by (auto simp: declared_ids_def)

section \<open>What every node answers\<close>

lemma settle_self:
  "outputs n = None \<Longrightarrow> settle pointer c ans n outputs n =
     (case ans n (assemble_node_input pointer c n outputs) of (ResultCompleted, Some v, _) \<Rightarrow> Some v | _ \<Rightarrow> None)"
  by (auto simp: settle_def split: prod.split option.split RuntimeResultStatus.split)

lemma assemble_settled:
  assumes "runs_in_order c" "preds (set (edge_pairs (proposal c))) n \<subseteq> S" "\<And>u. u \<in> S \<Longrightarrow> outputs u = outputs' u"
  shows "assemble_node_input pointer c n outputs = assemble_node_input pointer c n outputs'"
  by (rule assemble_cong) (use assms in \<open>auto simp: runs_in_order_def preds_def\<close>)

lemma all_outputs_final:
  assumes c: "runs_in_order c" and n: "n \<in> declared_ids (proposal c)"
  shows "all_outputs pointer c ans n =
    (case final_answer pointer c ans n of (ResultCompleted, Some v, _) \<Rightarrow> Some v | _ \<Rightarrow> None)"
proof -
  obtain i where i: "i < length (execution_order c)" "execution_order c ! i = n"
    using c n by (metis in_set_conv_nth runs_in_order_def)
  let ?L = "take i (execution_order c)" and ?R = "drop (Suc i) (execution_order c)"
  have order: "execution_order c = ?L @ n # ?R" using i id_take_nth_drop by blast
  then have distinct: "distinct (?L @ n # ?R)" using c by (simp add: runs_in_order_def)
  let ?before = "fold (settle pointer c ans) ?L Map.empty"
  have all: "all_outputs pointer c ans = fold (settle pointer c ans) ?R (settle pointer c ans n ?before)"
    unfolding all_outputs_def by (subst order) simp
  have same: "all_outputs pointer c ans u = ?before u" if "u \<in> set ?L" for u
  proof -
    have "u \<notin> set ?R" "u \<noteq> n" using that distinct by auto
    then show ?thesis unfolding all by (simp add: fold_settle_other settle_other)
  qed
  have "preds (set (edge_pairs (proposal c))) n \<subseteq> set ?L" using c i by (auto simp: runs_in_order_def)
  from assemble_settled [OF c this] same
  have input: "assemble_node_input pointer c n ?before = assemble_node_input pointer c n (all_outputs pointer c ans)" by metis
  have "all_outputs pointer c ans n = settle pointer c ans n ?before n"
    unfolding all by (rule fold_settle_other) (use distinct in auto)
  also have "\<dots> = (case final_answer pointer c ans n of (ResultCompleted, Some v, _) \<Rightarrow> Some v | _ \<Rightarrow> None)"
    by (subst settle_self) (use distinct in \<open>simp_all add: fold_settle_other final_answer_def input\<close>)
  finally show ?thesis .
qed

definition failing :: "json_pointer \<Rightarrow> CanonicalProposal \<Rightarrow> (string \<Rightarrow> json \<Rightarrow> answer) \<Rightarrow> string \<Rightarrow> bool" where
  "failing pointer c ans n \<longleftrightarrow> fst (final_answer pointer c ans n) = ResultError"

definition final_outcome :: "json_pointer \<Rightarrow> CanonicalProposal \<Rightarrow> (string \<Rightarrow> json \<Rightarrow> answer) \<Rightarrow> string \<Rightarrow> ProposalNodeOutcome" where
  "final_outcome pointer c ans n = answered n (the (nodes_by_id c n)) (final_answer pointer c ans n)"

definition skipped_node :: "CanonicalProposal \<Rightarrow> string \<Rightarrow> ProposalNodeOutcome" where
  "skipped_node c n = skipped_outcome n (the (nodes_by_id c n))"

lemma outcome_fields [simp]:
  "no_node_id (final_outcome pointer c ans n) = n" "no_node_id (skipped_node c n) = n"
  "no_status (skipped_node c n) = SkippedAfterEarlierFailure"
  "no_status (final_outcome pointer c ans n) = (if failing pointer c ans n then NodeFailed else NodeSucceeded)"
  by (auto simp: final_outcome_def skipped_node_def answered_def succeeded_outcome_def skipped_outcome_def node_outcome_def
      failing_def split: prod.split RuntimeResultStatus.split)

text \<open>The outputs a run has collected once exactly the nodes of a set have run.\<close>

abbreviation settled :: "json_pointer \<Rightarrow> CanonicalProposal \<Rightarrow> (string \<Rightarrow> json \<Rightarrow> answer) \<Rightarrow> string set \<Rightarrow> string \<rightharpoonup> json" where
  "settled pointer c ans S \<equiv> all_outputs pointer c ans |` S"

lemma answer_settled:
  assumes "runs_in_order c" "preds (set (edge_pairs (proposal c))) n \<subseteq> S"
  shows "ans n (assemble_node_input pointer c n (settled pointer c ans S)) = final_answer pointer c ans n"
  using assemble_settled [OF assms, of "settled pointer c ans S" "all_outputs pointer c ans"] by (simp add: final_answer_def)

lemma settled_step:
  assumes "runs_in_order c" "n \<in> declared_ids (proposal c)" "final_answer pointer c ans n = (status, produced, code)"
  shows "settled pointer c ans (insert n S) =
    (case (status, produced) of (ResultCompleted, Some v) \<Rightarrow> (settled pointer c ans S)(n \<mapsto> v)
      | _ \<Rightarrow> (settled pointer c ans S)(n := None))"
  using all_outputs_final [OF assms(1,2), of pointer ans] assms(3)
  by (auto simp: fun_eq_iff restrict_map_def split: option.split RuntimeResultStatus.split)

section \<open>The sequential run\<close>

lemma run_nodes_skip:
  assumes "runs_in_order c" "set rest \<subseteq> declared_ids (proposal c)"
  shows "run_nodes host pointer c rest outputs outcomes True w = Some (outcomes @ map (skipped_node c) rest, True, w)"
  using assms(2)
proof (induction rest arbitrary: outcomes)
  case (Cons n rest)
  obtain node where "nodes_by_id c n = Some node" using nodes_by_id_declared [OF assms(1), of n] Cons.prems by auto
  with Cons show ?case by (simp add: skipped_node_def)
qed simp

lemma run_nodes_answers:
  assumes c: "runs_in_order c" and ans: "answers host c ans"
  shows "execution_order c = L @ rest \<Longrightarrow>
    \<exists>executed w'. run_nodes host pointer c rest (settled pointer c ans (set L)) outcomes False w =
      Some (outcomes @ map (final_outcome pointer c ans) executed @ map (skipped_node c) (drop (length executed) rest),
            \<exists>n \<in> set rest. failing pointer c ans n, w')
    \<and> executed = take (length executed) rest \<and> ((\<exists>n \<in> set rest. failing pointer c ans n) \<or> executed = rest)"
proof (induction rest arbitrary: L outcomes w)
  case Nil
  then show ?case by (intro exI [of _ "[]"]) simp
next
  case (Cons n rest)
  have in_order: "n \<in> declared_ids (proposal c)" "set rest \<subseteq> declared_ids (proposal c)"
    using c Cons.prems by (auto simp: runs_in_order_def)
  have "execution_order c ! length L = n" "length L < length (execution_order c)" "take (length L) (execution_order c) = L"
    using Cons.prems by simp_all
  then have preds: "preds (set (edge_pairs (proposal c))) n \<subseteq> set L" using c by (metis runs_in_order_def)
  obtain node where node: "nodes_by_id c n = Some node" "node \<in> set (nodes (proposal c))" "node_id node = n"
    using nodes_by_id_declared [OF c in_order(1)] .
  let ?input = "assemble_node_input pointer c n (settled pointer c ans (set L))"
  obtain outcome w1 where call: "runtime_execute host (build_node_execution_request c node n ?input) w = Some (outcome, w1)"
    and answer: "node_answer outcome = final_answer pointer c ans n"
    using ans node(2,3) answer_settled [OF c preds] unfolding answers_def by metis
  obtain status produced code where f: "final_answer pointer c ans n = (status, produced, code)" by (rule prod_cases3)
  then have result: "rr_status (ro_result outcome) = status" "rr_output (ro_result outcome) = produced"
    "map_option (\<lambda>e. error_code_debug (re_code e)) (rr_error (ro_result outcome)) = code"
    using answer by (simp_all add: node_answer_def)
  have fresh: "n \<notin> set L" using c Cons.prems by (auto simp: runs_in_order_def)
  show ?case
  proof (cases status)
    case ResultCompleted
    have outputs: "(case produced of None \<Rightarrow> settled pointer c ans (set L) | Some v \<Rightarrow> (settled pointer c ans (set L))(n \<mapsto> v))
        = settled pointer c ans (set (L @ [n]))"
      using settled_step [OF c in_order(1) f, of "set L"] fresh ResultCompleted
      by (auto simp: fun_eq_iff restrict_map_def split: option.splits)
    have good: "\<not> failing pointer c ans n" "succeeded_outcome n node = final_outcome pointer c ans n"
      using f ResultCompleted node(1) by (simp_all add: failing_def final_outcome_def answered_def)
    obtain executed w' where "run_nodes host pointer c rest (settled pointer c ans (set (L @ [n]))) (outcomes @ [final_outcome pointer c ans n]) False w1 =
        Some ((outcomes @ [final_outcome pointer c ans n]) @ map (final_outcome pointer c ans) executed @ map (skipped_node c) (drop (length executed) rest),
          \<exists>n \<in> set rest. failing pointer c ans n, w')"
      "executed = take (length executed) rest" "(\<exists>n \<in> set rest. failing pointer c ans n) \<or> executed = rest"
      using Cons.IH [of "L @ [n]" "outcomes @ [final_outcome pointer c ans n]" w1] Cons.prems by auto
    then show ?thesis
      using node(1) call result ResultCompleted outputs good
      by (intro exI [of _ "n # executed"] exI [of _ w']) simp
  next
    case ResultError
    have bad: "failing pointer c ans n" "failed_outcome n node outcome = final_outcome pointer c ans n"
      using f ResultError node(1) result(3) by (simp_all add: failing_def final_outcome_def answered_def failed_outcome_def)
    show ?thesis
      using node(1) call result ResultError bad
      by (intro exI [of _ "[n]"] exI [of _ w1]) (simp add: run_nodes_skip [OF c in_order(2)])
  qed
qed

section \<open>The run in waves\<close>

lemma concat_chunks: "concat (chunks n xs) = xs"
  by (induction n xs rule: chunks.induct) (simp_all add: append_take_drop_id)

text \<open>A scheduler that runs every thread of a scope exactly once.\<close>

definition schedules_all :: "'w ThreadHost \<Rightarrow> bool" where
  "schedules_all th \<longleftrightarrow> (\<forall>n w. distinct (th_schedule th n w) \<and> set (th_schedule th n w) = {0..<n})"

text \<open>Threads that keep to a class of worlds \<open>P\<close> and whose result depends on that class only: then the joined
  results do not depend on the schedule. \<open>None\<close> is a thread that does not return.\<close>

definition stable_call :: "('w \<Rightarrow> bool) \<Rightarrow> ('a \<Rightarrow> 'v) \<Rightarrow> ('w \<Rightarrow> ('a \<times> 'w) option) \<Rightarrow> 'v option \<Rightarrow> bool" where
  "stable_call P view call result \<longleftrightarrow>
     (\<forall>w. P w \<longrightarrow> (case result of
        None \<Rightarrow> call w = None
      | Some v \<Rightarrow> \<exists>r w'. call w = Some (r, w') \<and> view r = v \<and> P w'))"

lemma run_threads_stable:
  assumes "\<And>i. i \<in> set schedule \<Longrightarrow> stable_call P view (call (requests ! i)) (result i)" "distinct schedule" "P w"
  shows "if \<exists>i \<in> set schedule. result i = None then run_threads call requests schedule results w = None
    else \<exists>results' w'. run_threads call requests schedule results w = Some (results', w') \<and> P w'
      \<and> (\<forall>i. map_option view (results' i) = (if i \<in> set schedule then result i else map_option view (results i)))"
  using assms
proof (induction schedule arbitrary: results w)
  case (Cons i schedule)
  have stable: "stable_call P view (call (requests ! i)) (result i)" using Cons.prems(1) by simp
  show ?case
  proof (cases "result i")
    case None
    with stable Cons.prems(3) show ?thesis by (auto simp: stable_call_def)
  next
    case (Some v)
    then obtain r w1 where r: "call (requests ! i) w = Some (r, w1)" "view r = v" "P w1"
      using stable Cons.prems(3) by (auto simp: stable_call_def)
    have IH: "if \<exists>j \<in> set schedule. result j = None then run_threads call requests schedule (results(i \<mapsto> r)) w1 = None
      else \<exists>results' w'. run_threads call requests schedule (results(i \<mapsto> r)) w1 = Some (results', w') \<and> P w'
        \<and> (\<forall>j. map_option view (results' j) = (if j \<in> set schedule then result j else map_option view ((results(i \<mapsto> r)) j)))"
      by (rule Cons.IH) (use Cons.prems r(3) in auto)
    show ?thesis
    proof (cases "\<exists>j \<in> set schedule. result j = None")
      case True
      with IH have "run_threads call requests schedule (results(i \<mapsto> r)) w1 = None" by argo
      with True r(1) show ?thesis by simp
    next
      case False
      have "i \<notin> set schedule" using Cons.prems(2) by simp
      from IH [unfolded if_not_P [OF False]] obtain results' w' where
        run: "run_threads call requests schedule (results(i \<mapsto> r)) w1 = Some (results', w')" "P w'"
        "\<And>j. map_option view (results' j) = (if j \<in> set schedule then result j else map_option view ((results(i \<mapsto> r)) j))"
        by blast
      have "map_option view (results' j) = (if j \<in> set (i # schedule) then result j else map_option view (results j))" for j
        using run(3) [of j] r(2) Some \<open>i \<notin> set schedule\<close> by (simp split: if_splits)
      with False run(1,2) r(1) Some show ?thesis by simp
    qed
  qed
qed simp

lemma those_views:
  "those (map (\<lambda>x. map_option view (f x)) xs) = map_option (map view) (those (map f xs))"
  by (induction xs) (auto split: option.split simp: option.map_comp comp_def)

lemma those_None_iff: "those xs = None \<longleftrightarrow> None \<in> set xs"
  by (induction xs) (auto split: option.splits)

lemma thread_scope_stable:
  assumes "\<And>i. i < length requests \<Longrightarrow> stable_call P view (call (requests ! i)) (result i)"
    and "distinct schedule" "set schedule = {0..<length requests}"
  shows "stable_call P (map view) (thread_scope call schedule requests) (those (map result [0..<length requests]))"
  unfolding stable_call_def
proof (intro allI impI)
  fix w assume "P w"
  have run: "if \<exists>i \<in> set schedule. result i = None then run_threads call requests schedule Map.empty w = None
    else \<exists>results' w'. run_threads call requests schedule Map.empty w = Some (results', w') \<and> P w'
      \<and> (\<forall>i. map_option view (results' i) = (if i \<in> set schedule then result i else map_option view None))"
    by (rule run_threads_stable [where P = P]) (use assms \<open>P w\<close> in auto)
  show "case those (map result [0..<length requests]) of
      None \<Rightarrow> thread_scope call schedule requests w = None
    | Some vs \<Rightarrow> \<exists>joined w'. thread_scope call schedule requests w = Some (joined, w') \<and> map view joined = vs \<and> P w'"
  proof (cases "those (map result [0..<length requests])")
    case None
    then have "\<exists>i \<in> set schedule. result i = None" using assms(3) by (force simp: those_None_iff)
    with run have "run_threads call requests schedule Map.empty w = None" by argo
    with None show ?thesis by (simp add: thread_scope_def)
  next
    case (Some vs)
    then have all: "\<not> (\<exists>i \<in> set schedule. result i = None)"
      using assms(3) those_None_iff [of "map result [0..<length requests]"] by force
    from run [unfolded if_not_P [OF all]] obtain results w' where r: "run_threads call requests schedule Map.empty w = Some (results, w')" "P w'"
      "\<And>i. map_option view (results i) = (if i \<in> set schedule then result i else map_option view None)" by blast
    have "map_option (map view) (those (map results [0..<length requests])) = Some vs"
      unfolding those_views [symmetric] r(3) Some [symmetric] using assms(3) by (intro arg_cong [of _ _ those]) simp
    then obtain joined where "those (map results [0..<length requests]) = Some joined" "map view joined = vs" by blast
    with Some r(1,2) show ?thesis by (simp add: thread_scope_def)
  qed
qed

text \<open>What the executor keeps of a joined thread.\<close>

fun thread_answer :: "thread_result \<Rightarrow> answer option" where
  "thread_answer (Joined outcome) = Some (node_answer outcome)"
| "thread_answer Panicked = None"

definition answer_node :: "string \<times> ProposalNode \<Rightarrow> answer option \<Rightarrow> string \<times> ProposalNodeOutcome \<times> json option" where
  "answer_node = (\<lambda>(n, node) a.
     case a of
       None \<Rightarrow> (n, panicked_outcome n node, None)
     | Some (ResultCompleted, produced, _) \<Rightarrow> (n, succeeded_outcome n node, produced)
     | Some (ResultError, _, code) \<Rightarrow> (n, node_outcome n node NodeFailed code, None))"

lemma joined_node_answer: "joined_node x r = answer_node x (thread_answer r)"
  by (cases r; cases x) (auto simp: joined_node_def answer_node_def node_answer_def failed_outcome_def split: RuntimeResultStatus.split)

definition batch_node ::
  "CanonicalProposal \<Rightarrow> (string \<Rightarrow> json \<Rightarrow> answer option option) \<Rightarrow> string \<times> json \<Rightarrow> (string \<times> ProposalNodeOutcome \<times> json option) option" where
  "batch_node c result = (\<lambda>(n, input). map_option (answer_node (n, the (nodes_by_id c n))) (result n input))"

definition known_nodes :: "CanonicalProposal \<Rightarrow> (string \<times> json) list \<Rightarrow> bool" where
  "known_nodes c batch \<longleftrightarrow> (\<forall>(n, input) \<in> set batch. nodes_by_id c n \<noteq> None)"

definition stable_nodes ::
  "('h, 'b) RuntimeHost \<Rightarrow> ('h, 'b) RuntimeWorld ThreadHost \<Rightarrow> CanonicalProposal \<Rightarrow> (('h, 'b) RuntimeWorld \<Rightarrow> bool) \<Rightarrow>
     (string \<Rightarrow> json \<Rightarrow> answer option option) \<Rightarrow> (string \<times> json) list \<Rightarrow> bool" where
  "stable_nodes host th c P result batch \<longleftrightarrow>
     (\<forall>(n, input) \<in> set batch. stable_call P thread_answer
        (thread_call host th (build_node_execution_request c (the (nodes_by_id c n)) n input)) (result n input))"

lemma dispatchable_known:
  "known_nodes c batch \<Longrightarrow> dispatchable c batch = map (\<lambda>(n, input). (n, the (nodes_by_id c n), input)) batch"
  by (induction batch) (auto simp: dispatchable_def known_nodes_def List.map_filter_simps)

lemma those_map_map:
  "those (map (\<lambda>x. map_option (g x) (f x)) xs) = map_option (map2 g xs) (those (map f xs))"
  by (induction xs) (auto split: option.split simp: option.map_comp comp_def)

lemma dispatch_batch_stable:
  assumes "known_nodes c batch" "stable_nodes host th c P result batch" "schedules_all th"
  shows "stable_call P id (dispatch_batch host th c batch) (those (map (batch_node c result) batch))"
  unfolding stable_call_def
proof (intro allI impI)
  fix w assume "P w"
  let ?request = "\<lambda>(n, input). build_node_execution_request c (the (nodes_by_id c n)) n input"
  let ?node = "\<lambda>(n, input). (n, the (nodes_by_id c n))"
  let ?schedule = "th_schedule th (length batch) w"
  have "stable_call P (map thread_answer) (thread_scope (thread_call host th) ?schedule (map ?request batch))
      (those (map (\<lambda>i. case_prod result (batch ! i)) [0..<length (map ?request batch)]))"
    by (rule thread_scope_stable)
      (use assms(2,3) in \<open>auto simp: stable_nodes_def schedules_all_def split: prod.split dest!: nth_mem\<close>)
  moreover have "map (\<lambda>i. case_prod result (batch ! i)) [0..<length (map ?request batch)] = map (case_prod result) batch"
    by (rule nth_equalityI) simp_all
  ultimately have scope: "case those (map (case_prod result) batch) of
      None \<Rightarrow> thread_scope (thread_call host th) ?schedule (map ?request batch) w = None
    | Some vs \<Rightarrow> \<exists>joined w'. thread_scope (thread_call host th) ?schedule (map ?request batch) w = Some (joined, w')
        \<and> map thread_answer joined = vs \<and> P w'"
    using \<open>P w\<close> unfolding stable_call_def by simp
  have batch: "those (map (batch_node c result) batch) = map_option (map2 (\<lambda>x. answer_node (?node x)) batch) (those (map (case_prod result) batch))"
    unfolding those_map_map [symmetric] by (rule arg_cong [of _ _ those]) (auto simp: batch_node_def)
  have unfold: "dispatch_batch host th c batch w =
      map_option (\<lambda>(joined, w). (map2 joined_node (map ?node batch) joined, w))
        (thread_scope (thread_call host th) ?schedule (map ?request batch) w)"
    by (simp add: dispatch_batch_def Let_def dispatchable_known [OF assms(1)] comp_def case_prod_unfold)
  have joined: "map2 joined_node (map ?node batch) joined = map2 (\<lambda>x. answer_node (?node x)) batch (map thread_answer joined)" for joined
    by (simp add: joined_node_answer zip_map1 zip_map2 case_prod_beta comp_def)
  show "case those (map (batch_node c result) batch) of
      None \<Rightarrow> dispatch_batch host th c batch w = None
    | Some v \<Rightarrow> \<exists>r w'. dispatch_batch host th c batch w = Some (r, w') \<and> id r = v \<and> P w'"
    using scope unfolding batch unfold by (auto simp: joined split: option.splits)
qed

lemma those_append: "those (xs @ ys) = Option.bind (those xs) (\<lambda>us. map_option ((@) us) (those ys))"
  by (induction xs) (auto split: option.split simp: option.map_comp comp_def map_option_case bind_eq_None_conv)

lemma run_batches_stable:
  assumes "\<And>batch. batch \<in> set batches \<Longrightarrow> known_nodes c batch \<and> stable_nodes host th c P result batch" "schedules_all th"
  shows "stable_call P id (run_batches host th c batches run)
    (map_option (\<lambda>joined. fold fold_joined joined run) (those (map (batch_node c result) (concat batches))))"
  using assms(1)
proof (induction batches arbitrary: run)
  case Nil
  then show ?case by (simp add: stable_call_def)
next
  case (Cons batch batches)
  have step: "stable_call P id (dispatch_batch host th c batch) (those (map (batch_node c result) batch))"
    using Cons.prems assms(2) by (intro dispatch_batch_stable) auto
  have rest: "stable_call P id (run_batches host th c batches run')
    (map_option (\<lambda>joined. fold fold_joined joined run') (those (map (batch_node c result) (concat batches))))" for run'
    by (rule Cons.IH) (use Cons.prems in auto)
  show ?case
    unfolding stable_call_def
  proof (intro allI impI)
    fix w assume "P w"
    show "case map_option (\<lambda>joined. fold fold_joined joined run) (those (map (batch_node c result) (concat (batch # batches)))) of
        None \<Rightarrow> run_batches host th c (batch # batches) run w = None
      | Some v \<Rightarrow> \<exists>r w'. run_batches host th c (batch # batches) run w = Some (r, w') \<and> id r = v \<and> P w'"
    proof (cases "those (map (batch_node c result) batch)")
      case None
      with step \<open>P w\<close> show ?thesis by (simp add: stable_call_def those_append)
    next
      case (Some joined)
      then obtain w1 where "dispatch_batch host th c batch w = Some (joined, w1)" "P w1"
        using step \<open>P w\<close> by (auto simp: stable_call_def)
      with rest [of "fold fold_joined joined run"] Some show ?thesis
        by (auto simp: stable_call_def those_append option.map_comp comp_def split: option.split)
    qed
  qed
qed

lemma known_chunks:
  assumes "known_nodes c inputs" "stable_nodes host th c P result inputs" "batch \<in> set (chunks n inputs)"
  shows "known_nodes c batch \<and> stable_nodes host th c P result batch"
proof -
  have "set batch \<subseteq> set (concat (chunks n inputs))" using assms(3) by auto
  then have "set batch \<subseteq> set inputs" by (simp only: concat_chunks)
  with assms(1,2) show ?thesis by (auto simp: known_nodes_def stable_nodes_def)
qed

lemma run_chunks_stable:
  assumes "known_nodes c inputs" "stable_nodes host th c P result inputs" "schedules_all th"
  shows "stable_call P id (run_batches host th c (chunks n inputs) run)
    (map_option (\<lambda>joined. fold fold_joined joined run) (those (map (batch_node c result) inputs)))"
proof -
  have "stable_call P id (run_batches host th c (chunks n inputs) run)
    (map_option (\<lambda>joined. fold fold_joined joined run) (those (map (batch_node c result) (concat (chunks n inputs)))))"
    by (rule run_batches_stable [OF known_chunks [OF assms(1,2)] assms(3)])
  then show ?thesis by (simp only: concat_chunks)
qed

text \<open>One wave of nodes whose answers are known.\<close>

definition wave_answers :: "json_pointer \<Rightarrow> CanonicalProposal \<Rightarrow> (string \<Rightarrow> json \<Rightarrow> answer) \<Rightarrow> string list \<Rightarrow>
    (string \<times> ProposalNodeOutcome \<times> json option) list" where
  "wave_answers pointer c ans wave =
     map (\<lambda>n. answer_node (n, the (nodes_by_id c n)) (Some (final_answer pointer c ans n))) wave"

lemma answer_node_final:
  "answer_node (n, the (nodes_by_id c n)) (Some (final_answer pointer c ans n)) =
     (n, final_outcome pointer c ans n, if failing pointer c ans n then None else fst (snd (final_answer pointer c ans n)))"
  by (auto simp: answer_node_def final_outcome_def answered_def failing_def split: prod.split RuntimeResultStatus.split)

lemma fold_wave_answers:
  assumes "runs_in_order c" "set wave \<subseteq> declared_ids (proposal c)" "distinct wave" "set wave \<inter> S = {}"
    "wr_outputs run = settled pointer c ans S"
  shows "fold fold_joined (wave_answers pointer c ans wave) run =
    run\<lparr>wr_outputs := settled pointer c ans (S \<union> set wave),
        wr_outcomes := wr_outcomes run @ map (final_outcome pointer c ans) wave,
        wr_failed := wr_failed run \<or> (\<exists>n \<in> set wave. failing pointer c ans n)\<rparr>"
  using assms(2-5)
proof (induction wave arbitrary: S run)
  case Nil
  then show ?case by (simp add: wave_answers_def)
next
  case (Cons n wave)
  obtain status produced code where f: "final_answer pointer c ans n = (status, produced, code)" by (rule prod_cases3)
  let ?run = "fold_joined (n, final_outcome pointer c ans n, if failing pointer c ans n then None else produced) run"
  have "(case (if failing pointer c ans n then None else produced) of None \<Rightarrow> wr_outputs run | Some v \<Rightarrow> (wr_outputs run)(n \<mapsto> v))
      = settled pointer c ans (insert n S)"
    using settled_step [OF assms(1) _ f, of S] Cons.prems f
    by (auto simp: failing_def fun_eq_iff restrict_map_def split: option.splits RuntimeResultStatus.splits)
  then have run: "?run = run\<lparr>wr_outputs := settled pointer c ans (insert n S),
      wr_outcomes := wr_outcomes run @ [final_outcome pointer c ans n], wr_failed := wr_failed run \<or> failing pointer c ans n\<rparr>"
    by (simp add: fold_joined_def)
  have cons: "wave_answers pointer c ans (n # wave) =
      (n, final_outcome pointer c ans n, if failing pointer c ans n then None else produced) # wave_answers pointer c ans wave"
    by (simp add: wave_answers_def answer_node_final f)
  have "fold fold_joined (wave_answers pointer c ans wave) ?run =
    ?run\<lparr>wr_outputs := settled pointer c ans (insert n S \<union> set wave),
        wr_outcomes := wr_outcomes ?run @ map (final_outcome pointer c ans) wave,
        wr_failed := wr_failed ?run \<or> (\<exists>n \<in> set wave. failing pointer c ans n)\<rparr>"
    by (rule Cons.IH) (use Cons.prems in \<open>auto simp: run\<close>)
  also have "\<dots> = run\<lparr>wr_outputs := settled pointer c ans (S \<union> set (n # wave)),
        wr_outcomes := wr_outcomes run @ map (final_outcome pointer c ans) (n # wave),
        wr_failed := wr_failed run \<or> (\<exists>n \<in> set (n # wave). failing pointer c ans n)\<rparr>"
    unfolding run by simp
  finally show ?case unfolding cons fold_simps .
qed

text \<open>What a run of answered waves has established.\<close>

definition wave_inv :: "json_pointer \<Rightarrow> CanonicalProposal \<Rightarrow> (string \<Rightarrow> json \<Rightarrow> answer) \<Rightarrow> string list \<Rightarrow> WaveRun \<Rightarrow> bool" where
  "wave_inv pointer c ans executed run \<longleftrightarrow>
     map no_node_id (wr_outcomes run) = executed
   \<and> (\<forall>x \<in> set (wr_outcomes run). x = final_outcome pointer c ans (no_node_id x) \<or> x = skipped_node c (no_node_id x))
   \<and> (wr_failed run \<longrightarrow> (\<exists>n \<in> set executed. failing pointer c ans n))
   \<and> (\<not> wr_failed run \<and> \<not> wr_cancelled run \<longrightarrow>
        wr_outputs run = settled pointer c ans (set executed) \<and> (\<forall>n \<in> set executed. \<not> failing pointer c ans n)
        \<and> wr_outcomes run = map (final_outcome pointer c ans) executed)"

lemma push_skipped_known:
  assumes "runs_in_order c" "set wave \<subseteq> declared_ids (proposal c)"
  shows "push_skipped_wave c wave run = run\<lparr>wr_outcomes := wr_outcomes run @ map (skipped_node c) wave\<rparr>"
proof -
  have "List.map_filter (\<lambda>n. map_option (skipped_outcome n) (nodes_by_id c n)) wave = map (skipped_node c) wave"
    using assms(2)
  proof (induction wave)
    case (Cons n wave)
    then obtain node where "nodes_by_id c n = Some node" using nodes_by_id_declared [OF assms(1), of n] by auto
    with Cons show ?case by (simp add: List.map_filter_simps skipped_node_def)
  qed (simp add: List.map_filter_simps)
  then show ?thesis by (simp add: push_skipped_wave_def)
qed

lemma wave_inv_skip:
  assumes "runs_in_order c" "set wave \<subseteq> declared_ids (proposal c)" "wave_inv pointer c ans executed run"
    "wr_failed run' \<or> wr_cancelled run'" "wr_outcomes run' = wr_outcomes run" "wr_failed run' = wr_failed run"
  shows "wave_inv pointer c ans (executed @ wave) (push_skipped_wave c wave run')"
  using assms(3-) unfolding push_skipped_known [OF assms(1,2)]
  by (auto simp: wave_inv_def comp_def)

lemma answers_stable:
  assumes "runs_in_order c" "answers host c ans" "\<And>request w. th_panic th request w = None" "set wave \<subseteq> declared_ids (proposal c)"
  shows "known_nodes c (wave_inputs pointer c wave outputs)"
    "stable_nodes host th c (\<lambda>_. True) (\<lambda>n input. Some (Some (ans n input))) (wave_inputs pointer c wave outputs)"
proof -
  have "nodes_by_id c n \<noteq> None" if "n \<in> set wave" for n
    by (rule nodes_by_id_declared [OF assms(1), of n]) (use that assms(4) in auto)
  then show "known_nodes c (wave_inputs pointer c wave outputs)" by (auto simp: known_nodes_def wave_inputs_def)
  have "\<exists>r w'. thread_call host th (build_node_execution_request c (the (nodes_by_id c n)) n input) w = Some (r, w')
      \<and> thread_answer r = Some (ans n input)" if n: "n \<in> set wave" for n input w
  proof -
    have "n \<in> declared_ids (proposal c)" using n assms(4) by blast
    then obtain node where node: "nodes_by_id c n = Some node" "node \<in> set (nodes (proposal c))" "node_id node = n"
      by (rule nodes_by_id_declared [OF assms(1)])
    obtain outcome w' where "runtime_execute host (build_node_execution_request c node n input) w = Some (outcome, w')"
      "node_answer outcome = ans n input" using assms(2) node(2,3) unfolding answers_def by metis
    then show ?thesis using assms(3) node(1) by (simp add: thread_call_def)
  qed
  then show "stable_nodes host th c (\<lambda>_. True) (\<lambda>n input. Some (Some (ans n input))) (wave_inputs pointer c wave outputs)"
    by (auto simp: stable_nodes_def stable_call_def wave_inputs_def)
qed

lemma run_wave_answers:
  assumes c: "runs_in_order c" and ans: "answers host c ans" and th: "\<And>request w. th_panic th request w = None" "schedules_all th"
    and wave: "set wave \<subseteq> declared_ids (proposal c)" "distinct wave" "set wave \<inter> set executed = {}"
      "\<And>n. n \<in> set wave \<Longrightarrow> preds (set (edge_pairs (proposal c))) n \<subseteq> set executed"
    and inv: "wave_inv pointer c ans executed run"
  shows "\<exists>run' w'. run_wave host th pointer c limits k wave run w = Some (run', w') \<and> wave_inv pointer c ans (executed @ wave) run'"
proof -
  note skip = wave_inv_skip [OF c wave(1) inv]
  consider (skipped) "wr_failed run \<or> wr_cancelled run"
    | (late) "\<not> (wr_failed run \<or> wr_cancelled run)" "th_elapsed th k > max_wall_time limits \<or>
        sum_list (map (\<lambda>(_, input). length (rh_json_text host input)) (wave_inputs pointer c wave (wr_outputs run))) > max_wave_payload_bytes limits"
    | (run) "\<not> (wr_failed run \<or> wr_cancelled run)" "\<not> th_elapsed th k > max_wall_time limits"
        "\<not> sum_list (map (\<lambda>(_, input). length (rh_json_text host input)) (wave_inputs pointer c wave (wr_outputs run))) > max_wave_payload_bytes limits"
    by blast
  then show ?thesis
  proof cases
    case skipped
    with skip [of run] show ?thesis by (simp add: run_wave_def)
  next
    case late
    then show ?thesis using skip [of "run\<lparr>wr_cancelled := True\<rparr>"] by (auto simp: run_wave_def Let_def)
  next
    case run
    let ?inputs = "wave_inputs pointer c wave (wr_outputs run)"
    have outputs: "wr_outputs run = settled pointer c ans (set executed)" "\<forall>n \<in> set executed. \<not> failing pointer c ans n"
      "wr_outcomes run = map (final_outcome pointer c ans) executed" using run(1) inv by (auto simp: wave_inv_def)
    have nodes: "those (map (batch_node c (\<lambda>n input. Some (Some (ans n input)))) ?inputs) = Some (wave_answers pointer c ans wave)"
      using wave(4) unfolding wave_inputs_def wave_answers_def outputs
    proof (induction wave)
      case (Cons n wave)
      then show ?case by (simp add: batch_node_def answer_settled [OF c])
    qed simp
    obtain run' w' where "run_batches host th c (chunks (limit_concurrent_nodes limits) ?inputs) run w = Some (run', w')"
      and r: "run' = fold fold_joined (wave_answers pointer c ans wave) run"
    proof -
      have "stable_call (\<lambda>_. True) id (run_batches host th c (chunks (limit_concurrent_nodes limits) ?inputs) run)
          (map_option (\<lambda>joined. fold fold_joined joined run) (Some (wave_answers pointer c ans wave)))"
        unfolding nodes [symmetric] by (rule run_chunks_stable [OF answers_stable [OF c ans th(1) wave(1)] th(2)])
      then show thesis using that by (auto simp: stable_call_def)
    qed
    moreover have "wave_inv pointer c ans (executed @ wave) run'"
      unfolding r fold_wave_answers [OF c wave(1-3) outputs(1)]
      using run(1) outputs by (auto simp: wave_inv_def comp_def)
    ultimately show ?thesis using run by (auto simp: run_wave_def Let_def)
  qed
qed

text \<open>Waves whose nodes only wait for nodes of earlier waves.\<close>

fun layered :: "CanonicalProposal \<Rightarrow> string list \<Rightarrow> string list list \<Rightarrow> bool" where
  "layered c executed [] \<longleftrightarrow> True"
| "layered c executed (wave # rest) \<longleftrightarrow>
     set wave \<subseteq> declared_ids (proposal c) \<and> distinct wave \<and> set wave \<inter> set executed = {}
   \<and> (\<forall>n \<in> set wave. preds (set (edge_pairs (proposal c))) n \<subseteq> set executed) \<and> layered c (executed @ wave) rest"

lemma greedy_layered:
  assumes "greedy_waves (declared_ids (proposal c)) (set (edge_pairs (proposal c))) W"
  shows "W = W1 @ W2 \<Longrightarrow> layered c (concat W1) W2"
proof (induction W2 arbitrary: W1)
  case (Cons wave rest)
  have "W ! length W1 = wave" "length W1 < length W" "take (length W1) W = W1" using Cons.prems by simp_all
  then have wave: "wave = sorted_list_of_set (ready_set (declared_ids (proposal c)) (set (edge_pairs (proposal c))) (set (concat W1)))"
    using assms unfolding greedy_waves_def by metis
  have "finite (ready_set (declared_ids (proposal c)) (set (edge_pairs (proposal c))) (set (concat W1)))"
    by (simp add: ready_set_def declared_ids_def)
  then have "set wave = ready_set (declared_ids (proposal c)) (set (edge_pairs (proposal c))) (set (concat W1))" "distinct wave"
    unfolding wave by simp_all
  moreover have "layered c (concat (W1 @ [wave])) rest" by (rule Cons.IH) (simp add: Cons.prems)
  ultimately show ?case by (auto simp: ready_set_def)
qed simp

lemma schedule_layered:
  assumes "canonicalize_proposal to_vec_len p l = Some (Ok c)" "compute_parallel_schedule c sl = Some (Ok s)"
  shows "layered c [] (waves s)" "distinct (concat (waves s))" "set (concat (waves s)) = declared_ids (proposal c)"
proof -
  have p: "proposal c = p" using canonicalize_Ok_iff [OF assms(1)] by blast
  obtain W where W: "greedy_waves (declared_ids p) (set (edge_pairs p)) W"
      "ready_set (declared_ids p) (set (edge_pairs p)) (set (concat W)) = {}" and s: "s = \<lparr>waves = W\<rparr>"
    using schedule_run [OF assms(1), of sl] assms(2) by (auto split: if_splits)
  show "layered c [] (waves s)" using greedy_layered [of c W "[]" W] W(1) by (simp add: s p)
  show "distinct (concat (waves s))" "set (concat (waves s)) = declared_ids (proposal c)"
    using schedule_run_complete [OF assms(1) W] unfolding s p ParallelSchedule.simps by blast+
qed

lemma run_waves_answers:
  assumes c: "runs_in_order c" and ans: "answers host c ans" and th: "\<And>request w. th_panic th request w = None" "schedules_all th"
  shows "layered c executed W \<Longrightarrow> wave_inv pointer c ans executed run \<Longrightarrow>
    \<exists>run' w'. run_waves host th pointer c limits k W run w = Some (run', w') \<and> wave_inv pointer c ans (executed @ concat W) run'"
proof (induction W arbitrary: executed run k w)
  case (Cons wave rest)
  obtain run1 w1 where "run_wave host th pointer c limits k wave run w = Some (run1, w1)" "wave_inv pointer c ans (executed @ wave) run1"
    using run_wave_answers [OF c ans th, of wave executed pointer run limits k w] Cons.prems by auto
  moreover from this obtain run' w' where
    "run_waves host th pointer c limits (Suc k) rest run1 w1 = Some (run', w')" "wave_inv pointer c ans ((executed @ wave) @ concat rest) run'"
    using Cons.IH [of "executed @ wave" run1 "Suc k" w1] Cons.prems by auto
  ultimately show ?case by simp
qed simp

lemma execute_parallel_answers:
  assumes "runs_in_order c" "answers host c ans" "\<And>request w. th_panic th request w = None" "schedules_all th" "layered c [] (waves s)"
  obtains run w' where "execute_parallel_proposal host th pointer c s authorization pd sd limits w =
      Some (proposal_trace c authorization pd sd (wr_outcomes run) (run_terminal run), w')"
    "wave_inv pointer c ans (concat (waves s)) run"
proof -
  have "wave_inv pointer c ans [] initial_run" by (simp add: wave_inv_def initial_run_def)
  from run_waves_answers [OF assms(1-5) this, of limits 0 w] obtain run w' where
    "run_waves host th pointer c limits 0 (waves s) initial_run w = Some (run, w')" "wave_inv pointer c ans (concat (waves s)) run"
    by auto
  then show thesis by (intro that [of run w']) (simp_all add: execute_parallel_proposal_def)
qed

lemma execute_sequential_answers:
  assumes "runs_in_order c" "answers host c ans"
  obtains executed w' where "execute_proposal host pointer c authorization pd sd w =
      Some (proposal_trace c authorization pd sd
        (map (final_outcome pointer c ans) executed @ map (skipped_node c) (drop (length executed) (execution_order c)))
        (if \<exists>n \<in> set (execution_order c). failing pointer c ans n then ProposalFailed else ProposalSucceeded), w')"
    "executed = take (length executed) (execution_order c)"
    "(\<exists>n \<in> set (execution_order c). failing pointer c ans n) \<or> executed = execution_order c"
proof -
  have "settled pointer c ans (set []) = Map.empty" by simp
  with run_nodes_answers [OF assms, of "[]" "execution_order c" pointer "[]" w] obtain executed w' where
    "run_nodes host pointer c (execution_order c) Map.empty [] False w =
      Some (map (final_outcome pointer c ans) executed @ map (skipped_node c) (drop (length executed) (execution_order c)),
            \<exists>n \<in> set (execution_order c). failing pointer c ans n, w')"
    "executed = take (length executed) (execution_order c)"
    "(\<exists>n \<in> set (execution_order c). failing pointer c ans n) \<or> executed = execution_order c" by auto
  then show thesis by (intro that [of executed w']) (simp_all add: execute_proposal_def)
qed

text \<open>A runtime whose answer to the request of a node depends on the request only.\<close>

definition steady :: "('h, 'b) RuntimeHost \<Rightarrow> CanonicalProposal \<Rightarrow> bool" where
  "steady host c \<longleftrightarrow>
     (\<forall>node \<in> set (nodes (proposal c)). \<forall>input. \<exists>a. \<forall>w. \<exists>outcome w'.
        runtime_execute host (build_node_execution_request c node (node_id node) input) w = Some (outcome, w')
        \<and> node_answer outcome = a)"

lemma steady_answers:
  assumes "runs_in_order c" "steady host c"
  obtains ans where "answers host c ans"
proof -
  let ?ok = "\<lambda>node input a. \<forall>w. \<exists>outcome w'.
        runtime_execute host (build_node_execution_request c node (node_id node) input) w = Some (outcome, w') \<and> node_answer outcome = a"
  have "answers host c (\<lambda>n input. SOME a. ?ok (the (nodes_by_id c n)) input a)"
    unfolding answers_def
  proof (intro ballI allI)
    fix node input w assume node: "node \<in> set (nodes (proposal c))"
    then have "nodes_by_id c (node_id node) = Some node" by (simp add: nodes_by_id_Some [OF assms(1)])
    moreover have "?ok node input (SOME a. ?ok node input a)"
      by (rule someI_ex) (use assms(2) node in \<open>simp only: steady_def\<close>)
    ultimately show "\<exists>outcome w'. runtime_execute host (build_node_execution_request c node (node_id node) input) w = Some (outcome, w')
        \<and> node_answer outcome = (SOME a. ?ok (the (nodes_by_id c (node_id node))) input a)" by simp
  qed
  then show thesis by (rule that)
qed

lemma proposal_trace_fields:
  "node_outcomes (proposal_trace c authorization pd sd outcomes state) = outcomes"
  "terminal_state (proposal_trace c authorization pd sd outcomes state) = state"
  by (simp_all add: proposal_trace_def)

lemma mset_map_cover:
  assumes "distinct xs" "distinct ys" "set xs = set ys"
  shows "mset (map f xs) = mset (map f ys)"
  using set_eq_iff_mset_eq_distinct [OF assms(1,2)] assms(3) by simp

section \<open>A runtime without state\<close>

text \<open>A host whose executor and files do not depend on its state, with a registry of executable capabilities
  only: its answers are steady.\<close>

definition stateless :: "('h, 'b) RuntimeHost \<Rightarrow> bool" where
  "stateless host \<longleftrightarrow>
     (\<forall>h h' capability input. fst (rh_execute host h capability input) = fst (rh_execute host h' capability input))
   \<and> (\<forall>h h'. rh_read host h = rh_read host h') \<and> index_entries (rh_index host) = []
   \<and> (\<forall>scope i v found. rh_registry host scope i v = Some found \<longrightarrow> rec_implementation_kind (rc_record found) = ExecutableKind)"

lemma stateless_bound:
  assumes "stateless host"
  shows "fst (bound_local_executor (rh_execute host) selected capability input h) = fst (bound_local_executor (rh_execute host) selected capability input h')"
proof -
  have "fst (rh_execute host h selected input) = fst (rh_execute host h' selected input)" using assms by (auto simp: stateless_def)
  then show ?thesis by (auto simp: bound_local_executor_def split: prod.split sum.split)
qed

lemma stateless_routed:
  assumes "stateless host" "qr_trace_id_override request \<noteq> None"
  shows "fst (execute_with_executor host None request (bound_local_executor (rh_execute host) selected) w) =
    fst (execute_with_executor host None request (bound_local_executor (rh_execute host) selected) w')"
  using stateless_bound [OF assms(1), of selected "qr_executor_capability request" "qr_input request" "rw_host w" "rw_host w'"] assms(2)
  by (auto simp: execute_with_executor_def record_durable_def Let_def split: sum.split prod.split)

lemma stateless_started:
  assumes "stateless host" "rec_implementation_kind (rc_record selected) = ExecutableKind"
  shows "map_option fst (execute_started_selection host context0 selected placement w) =
      map_option fst (execute_started_selection host context0 selected placement w')"
    "execute_started_selection host context0 selected placement w \<noteq> None"
proof -
  obtain started e where s: "start_selected_execution (ec_emitter context0) selected placement
      (rx_identity (rq_context (at_request (ec_attempt context0)))) = (started, e)" by (rule prod.exhaust)
  let ?run = "execute_with_executor host None (router_request_of (context0\<lparr>ec_emitter := e\<rparr>) selected started)
      (bound_local_executor (rh_execute host) selected)"
  have "fst (?run w) = fst (?run w')" by (rule stateless_routed [OF assms(1)]) (simp add: router_request_of_def)
  then obtain x w1 w1' where "?run w = (x, w1)" "?run w' = (x, w1')" by (metis prod.collapse)
  then show "map_option fst (execute_started_selection host context0 selected placement w) =
      map_option fst (execute_started_selection host context0 selected placement w')"
    "execute_started_selection host context0 selected placement w \<noteq> None"
    using assms(2) by (simp_all add: execute_started_selection_def Let_def s split: sum.split prod.split)
qed

lemma stateless_selected:
  assumes "stateless host" "rec_implementation_kind (rc_record selected) = ExecutableKind"
  shows "map_option fst (execute_selected host context0 selected w) = map_option fst (execute_selected host context0 selected w')"
    "execute_selected host context0 selected w \<noteq> None"
proof -
  have "rh_read host (rw_host w) = rh_read host (rw_host w')" using assms(1) by (simp only: stateless_def)
  then have "admit_selected host context0 selected (rw_host w) = admit_selected host context0 selected (rw_host w')"
    by (simp only: admit_selected_def)
  then show "map_option fst (execute_selected host context0 selected w) = map_option fst (execute_selected host context0 selected w')"
    "execute_selected host context0 selected w \<noteq> None"
    using stateless_started(1) [OF assms, of _ _ w w'] stateless_started(2) [OF assms, of _ _ w] unfolding execute_selected_def by (auto split: sum.split)
qed

lemma stateless_candidates:
  assumes "stateless host" "selected \<in> set (collect_candidates host request)"
  shows "rec_implementation_kind (rc_record selected) = ExecutableKind"
  using assms unfolding collect_candidates_def stateless_def
  by (auto simp: Let_def List.map_filter_def split: if_splits option.splits prod.splits)

lemma stateless_attempt:
  assumes "stateless host"
  shows "map_option fst (run_attempt host attempt e w) = map_option fst (run_attempt host attempt e w')"
    "run_attempt host attempt e w \<noteq> None"
proof -
  have discovered: "discover_candidates host (at_request attempt) w = (collect_candidates host (at_request attempt), None, w)" for w
    using assms by (simp add: discover_candidates_def stateless_def)
  obtain resolution e' where r: "\<And>w. resolve_candidates host (at_request attempt) e w = (resolution, e', w)"
    "cr_eligible resolution = eligible_candidates (collect_candidates host (at_request attempt))"
    by (simp add: resolve_candidates_def discovered Let_def)
  have kind: "rec_implementation_kind (rc_record selected) = ExecutableKind" if "selected \<in> set (cr_eligible resolution)" for selected
  proof -
    have "selected \<in> set (collect_candidates host (at_request attempt))"
      using that unfolding r(2) eligible_candidates_def List.map_filter_def
      by (auto simp: evaluate_candidate_def Let_def split: if_splits option.splits)
    then show ?thesis by (rule stateless_candidates [OF assms])
  qed
  show "map_option fst (run_attempt host attempt e w) = map_option fst (run_attempt host attempt e w')"
    "run_attempt host attempt e w \<noteq> None"
    using kind stateless_selected(1) [OF assms, of _ _ w w'] stateless_selected(2) [OF assms, of _ _ w]
    by (auto simp: run_attempt_def r(1) split: option.split list.split)
qed

lemma emit_answer [simp]: "node_answer (fst (emit_execution_lifecycle_event host outcome identity w)) = node_answer outcome"
  by (simp add: emit_execution_lifecycle_event_def node_answer_def add_warning_def Let_def split: prod.split sum.split)

lemma stateless_steady:
  assumes "stateless host"
  shows "\<exists>a. \<forall>w. \<exists>outcome w'. runtime_execute host request w = Some (outcome, w') \<and> node_answer outcome = a"
proof -
  obtain attempt e where s: "start_attempt host request = (attempt, e)" by (rule prod.exhaust)
  obtain outcome where o: "\<And>w. map_option fst (run_attempt host attempt e w) = Some outcome"
    using stateless_attempt [OF assms] by (metis option.collapse option.map_disc_iff)
  have "\<exists>outcome' w'. runtime_execute host request w = Some (outcome', w') \<and> node_answer outcome' = node_answer outcome" for w
  proof -
    obtain w1 where "run_attempt host attempt e w = Some (outcome, w1)" using o [of w] by auto
    then have "runtime_execute host request w = Some (emit_execution_lifecycle_event host outcome (rx_identity (rq_context request)) w1)"
      by (simp add: runtime_execute_def s)
    then show ?thesis by (metis emit_answer prod.collapse)
  qed
  then show ?thesis by blast
qed

lemma sample_stateless: "stateless sample_host"
  by (simp add: stateless_def sample_host_def empty_index_def index_entries_def sample_registry_def)

lemma sample_steady: "steady sample_host sample_canonical"
  using stateless_steady [OF sample_stateless] by (simp add: steady_def)

definition sample_threads :: "(nat, unit) RuntimeWorld ThreadHost" where
  "sample_threads = \<lparr>th_schedule = (\<lambda>n w. rev [0..<n]), th_panic = (\<lambda>_ _. None), th_elapsed = (\<lambda>_. 0)\<rparr>"

lemma sample_threads_all: "schedules_all sample_threads"
  by (simp add: schedules_all_def sample_threads_def)

lemma sample_threads_panic: "th_panic sample_threads request w = None"
  by (simp add: sample_threads_def)

definition sample_in_order :: "(nat, unit) RuntimeWorld ThreadHost" where
  "sample_in_order = sample_threads\<lparr>th_schedule := (\<lambda>n w. [0..<n])\<rparr>"

section \<open>Schedulers\<close>

text \<open>Two runs from worlds that look alike, under different schedulers. Looking alike is an equivalence \<open>R\<close>
  that a call of a node respects and that a call of a reading node does not leave.\<close>

definition alike :: "('w \<Rightarrow> 'w \<Rightarrow> bool) \<Rightarrow> ('a \<times> 'w) option \<Rightarrow> ('a \<times> 'w) option \<Rightarrow> bool" where
  "alike R = rel_option (\<lambda>(r, w) (r', w'). r = r' \<and> R w w')"

definition node_call ::
  "('h, 'b) RuntimeHost \<Rightarrow> ('h, 'b) RuntimeWorld ThreadHost \<Rightarrow> CanonicalProposal \<Rightarrow> string \<Rightarrow> json \<Rightarrow> ('h, 'b) RuntimeWorld \<Rightarrow>
     (answer option \<times> ('h, 'b) RuntimeWorld) option" where
  "node_call host th c n input w =
     map_option (apfst thread_answer) (thread_call host th (build_node_execution_request c (the (nodes_by_id c n)) n input) w)"

definition respects_nodes ::
  "('h, 'b) RuntimeHost \<Rightarrow> ('h, 'b) RuntimeWorld ThreadHost \<Rightarrow> CanonicalProposal \<Rightarrow>
     (('h, 'b) RuntimeWorld \<Rightarrow> ('h, 'b) RuntimeWorld \<Rightarrow> bool) \<Rightarrow> bool" where
  "respects_nodes host th c R \<longleftrightarrow>
     (\<forall>n \<in> declared_ids (proposal c). \<forall>input w w'. R w w' \<longrightarrow> alike R (node_call host th c n input w) (node_call host th c n input w'))"

definition reads_only ::
  "('h, 'b) RuntimeHost \<Rightarrow> ('h, 'b) RuntimeWorld ThreadHost \<Rightarrow> CanonicalProposal \<Rightarrow>
     (('h, 'b) RuntimeWorld \<Rightarrow> ('h, 'b) RuntimeWorld \<Rightarrow> bool) \<Rightarrow> string \<Rightarrow> bool" where
  "reads_only host th c R n \<longleftrightarrow>
     (\<forall>input w a w'. node_call host th c n input w = Some (a, w') \<longrightarrow> R w w')"

lemma node_call_same_panics:
  "th_panic th' = th_panic th \<Longrightarrow> thread_call host th' = thread_call host th"
  by (simp add: fun_eq_iff thread_call_def)

lemma distinct_single: "distinct xs \<Longrightarrow> set xs = {x} \<Longrightarrow> xs = [x]"
  by (cases xs; cases "tl xs") auto

lemma run_single:
  assumes "nodes_by_id c n = Some node" "schedules_all th"
  shows "run_batches host th c (chunks size_limit [(n, input)]) run w =
    map_option (apfst (\<lambda>a. fold_joined (answer_node (n, node) a) run)) (node_call host th c n input w)"
proof -
  have "distinct (th_schedule th 1 w)" "set (th_schedule th 1 w) = {0}"
    using assms(2) unfolding schedules_all_def by (auto simp: atLeastLessThan_def)
  then have "th_schedule th 1 w = [0]" by (rule distinct_single)
  then show ?thesis
    using assms(1)
    by (simp add: dispatch_batch_def Let_def dispatchable_def List.map_filter_simps thread_scope_def node_call_def joined_node_answer
        option.map_comp split: option.split prod.split)
qed

lemma alike_cases:
  assumes "alike R x y"
  obtains "x = None" "y = None" | r w w' where "x = Some (r, w)" "y = Some (r, w')" "R w w'"
  using assms by (cases x; cases y) (auto simp: alike_def)

lemma alike_refl: "equivp R \<Longrightarrow> R w w' \<Longrightarrow> alike R (Some (r, w)) (Some (r, w'))"
  by (simp add: alike_def)

lemma reading_nodes_stable:
  assumes R: "equivp R" and respects: "respects_nodes host th c R"
    and inputs: "\<And>n input. (n, input) \<in> set inputs \<Longrightarrow> n \<in> declared_ids (proposal c) \<and> reads_only host th c R n"
  shows "stable_nodes host th c (R w0) (\<lambda>n input. map_option fst (node_call host th c n input w0)) inputs"
  unfolding stable_nodes_def
proof clarify
  fix n input assume i: "(n, input) \<in> set inputs"
  show "stable_call (R w0) thread_answer (thread_call host th (build_node_execution_request c (the (nodes_by_id c n)) n input))
      (map_option fst (node_call host th c n input w0))"
    unfolding stable_call_def
  proof (intro allI impI)
    fix w assume w: "R w0 w"
    let ?call = "thread_call host th (build_node_execution_request c (the (nodes_by_id c n)) n input)"
    have "alike R (node_call host th c n input w0) (node_call host th c n input w)"
      using respects inputs [OF i] w unfolding respects_nodes_def by blast
    then show "case map_option fst (node_call host th c n input w0) of
        None \<Rightarrow> ?call w = None
      | Some v \<Rightarrow> \<exists>r w'. ?call w = Some (r, w') \<and> thread_answer r = v \<and> R w0 w'"
    proof (cases rule: alike_cases)
      case 1
      then show ?thesis by (simp add: node_call_def)
    next
      case (2 a w1 w2)
      then obtain r where r: "?call w = Some (r, w2)" "thread_answer r = a" by (auto simp: node_call_def)
      have "R w w2" using inputs [OF i] 2(2) unfolding reads_only_def by blast
      then have "R w0 w2" using w R by (meson equivp_transp)
      with 2(1) r show ?thesis by simp
    qed
  qed
qed

lemma stable_alike:
  assumes "equivp R" "stable_call (R w0) id call result" "stable_call (R w0) id call' result" "R w0 w" "R w0 w'"
  shows "alike R (call w) (call' w')"
proof (cases result)
  case None
  with assms show ?thesis by (simp add: stable_call_def alike_def)
next
  case (Some v)
  then obtain w1 where w1: "call w = Some (v, w1)" "R w0 w1" using assms(2,4) by (auto simp: stable_call_def)
  obtain w1' where w1': "call' w' = Some (v, w1')" "R w0 w1'" using Some assms(3,5) by (auto simp: stable_call_def)
  have "R w1 w1'" using assms(1) w1(2) w1'(2) by (meson equivp_symp equivp_transp)
  with w1(1) w1'(1) show ?thesis by (simp add: alike_def)
qed

lemma alike_map: "alike R x y \<Longrightarrow> alike R (map_option (apfst f) x) (map_option (apfst f) y)"
  by (erule alike_cases) (simp_all add: alike_def)

lemma run_wave_alike:
  assumes c: "runs_in_order c" and th: "schedules_all th" "schedules_all th'" "th_panic th' = th_panic th" "th_elapsed th' = th_elapsed th"
    and R: "equivp R" and respects: "respects_nodes host th c R"
    and wave: "set wave \<subseteq> declared_ids (proposal c)" "length wave \<le> 1 \<or> (\<forall>n \<in> set wave. reads_only host th c R n)"
    and w: "R w w'"
  shows "alike R (run_wave host th pointer c limits k wave run w) (run_wave host th' pointer c limits k wave run w')"
proof -
  let ?inputs = "wave_inputs pointer c wave (wr_outputs run)"
  let ?run = "\<lambda>th. run_batches host th c (chunks (limit_concurrent_nodes limits) ?inputs) run"
  have known: "nodes_by_id c n \<noteq> None" if "n \<in> set wave" for n
    by (rule nodes_by_id_declared [OF c, of n]) (use that wave(1) in auto)
  then have known_inputs: "known_nodes c ?inputs" by (auto simp: known_nodes_def wave_inputs_def)
  have call: "node_call host th' = node_call host th" using node_call_same_panics [OF th(3)] by (simp add: fun_eq_iff node_call_def)
  have "alike R (?run th w) (?run th' w')"
  proof (cases "length wave \<le> 1")
    case True
    then consider "wave = []" | n where "wave = [n]" by (cases wave) auto
    then show ?thesis
    proof cases
      case 1
      then show ?thesis using w by (simp add: wave_inputs_def alike_def)
    next
      case (2 n)
      then obtain node where node: "nodes_by_id c n = Some node" using known by auto
      have "alike R (node_call host th c n input w) (node_call host th c n input w')" for input
        using respects wave(1) w 2 unfolding respects_nodes_def by auto
      then show ?thesis
        unfolding 2 wave_inputs_def list.map run_single [OF node th(1)] run_single [OF node th(2)] call by (rule alike_map)
    qed
  next
    case False
    let ?result = "\<lambda>n input. map_option fst (node_call host th c n input w)"
    have stable: "stable_nodes host th c (R w) ?result ?inputs"
      by (rule reading_nodes_stable [OF R respects]) (use wave False in \<open>auto simp: wave_inputs_def\<close>)
    then have stable': "stable_nodes host th' c (R w) ?result ?inputs"
      by (simp add: stable_nodes_def node_call_same_panics [OF th(3)])
    show ?thesis
      by (rule stable_alike [OF R run_chunks_stable [OF known_inputs stable th(1)] run_chunks_stable [OF known_inputs stable' th(2)] _ w])
        (rule equivp_reflp [OF R])
  qed
  then show ?thesis using w by (simp add: run_wave_def Let_def th(4) alike_def)
qed

lemma run_waves_alike:
  assumes c: "runs_in_order c" and th: "schedules_all th" "schedules_all th'" "th_panic th' = th_panic th" "th_elapsed th' = th_elapsed th"
    and R: "equivp R" and respects: "respects_nodes host th c R"
  shows "(\<And>wave. wave \<in> set W \<Longrightarrow> set wave \<subseteq> declared_ids (proposal c) \<and> (length wave \<le> 1 \<or> (\<forall>n \<in> set wave. reads_only host th c R n)))
    \<Longrightarrow> R w w' \<Longrightarrow> alike R (run_waves host th pointer c limits k W run w) (run_waves host th' pointer c limits k W run w')"
proof (induction W arbitrary: k run w w')
  case Nil
  then show ?case by (simp add: alike_def)
next
  case (Cons wave W)
  have "alike R (run_wave host th pointer c limits k wave run w) (run_wave host th' pointer c limits k wave run w')"
    by (rule run_wave_alike [OF c th R respects]) (use Cons.prems in auto)
  then show ?case
  proof (cases rule: alike_cases)
    case 1
    then show ?thesis by (simp add: alike_def)
  next
    case (2 run1 w1 w1')
    moreover have "alike R (run_waves host th pointer c limits (Suc k) W run1 w1) (run_waves host th' pointer c limits (Suc k) W run1 w1')"
      by (rule Cons.IH) (use Cons.prems 2(3) in auto)
    ultimately show ?thesis by simp
  qed
qed

lemma enforce_Ok_iff:
  "enforce_pure_read_only_parallelism schedule resolved = Ok () \<longleftrightarrow>
     (\<forall>wave \<in> set (waves schedule). length wave \<le> 1 \<or> (\<forall>n \<in> set wave. effect_class_by_node resolved n = Some PureRead))"
proof -
  have "wave_errors (effect_class_by_node resolved) x = [] \<longleftrightarrow>
      length (snd x) \<le> 1 \<or> (\<forall>n \<in> set (snd x). effect_class_by_node resolved n = Some PureRead)" for x
    by (cases x) (auto simp: wave_errors_def filter_empty_conv)
  then have "concat (map (wave_errors (effect_class_by_node resolved)) (enumerate 0 (waves schedule))) = [] \<longleftrightarrow>
      (\<forall>x \<in> set (enumerate 0 (waves schedule)). length (snd x) \<le> 1 \<or> (\<forall>n \<in> set (snd x). effect_class_by_node resolved n = Some PureRead))"
    by simp
  also have "\<dots> \<longleftrightarrow> (\<forall>wave \<in> snd ` set (enumerate 0 (waves schedule)).
      length wave \<le> 1 \<or> (\<forall>n \<in> set wave. effect_class_by_node resolved n = Some PureRead))" by blast
  also have "snd ` set (enumerate 0 (waves schedule)) = set (waves schedule)" by (metis list.set_map map_snd_enumerate)
  finally show ?thesis by (simp add: enforce_pure_read_only_parallelism_def Let_def)
qed

lemma sample_respects: "respects_nodes sample_host sample_threads sample_canonical (\<lambda>_ _. True)"
  unfolding respects_nodes_def
proof (intro ballI allI impI)
  fix n input and w w' :: "(nat, unit) RuntimeWorld"
  let ?request = "build_node_execution_request sample_canonical (the (nodes_by_id sample_canonical n)) n input"
  obtain a where a: "\<And>w. \<exists>outcome w'. runtime_execute sample_host ?request w = Some (outcome, w') \<and> node_answer outcome = a"
    using stateless_steady [OF sample_stateless, of ?request] by blast
  obtain x w1 y w2 where "runtime_execute sample_host ?request w = Some (x, w1)" "node_answer x = a"
    "runtime_execute sample_host ?request w' = Some (y, w2)" "node_answer y = a" using a by meson
  then show "alike (\<lambda>_ _. True) (node_call sample_host sample_threads sample_canonical n input w)
      (node_call sample_host sample_threads sample_canonical n input w')"
    by (simp add: alike_def node_call_def thread_call_def sample_threads_panic)
qed

section \<open>The calls of a sequential run\<close>

definition collected :: "(string \<times> RuntimeExecutionOutcome) list \<Rightarrow> string \<rightharpoonup> json" where
  "collected calls n = Option.bind (map_of calls n) (\<lambda>outcome. rr_output (ro_result outcome))"

text \<open>The calls one after the other, each on the input assembled from the outputs collected before it.\<close>

inductive sequential_calls ::
  "('h, 'b) RuntimeHost \<Rightarrow> json_pointer \<Rightarrow> CanonicalProposal \<Rightarrow> ('h, 'b) RuntimeWorld \<Rightarrow>
     (string \<times> RuntimeExecutionOutcome) list \<Rightarrow> ('h, 'b) RuntimeWorld \<Rightarrow> bool"
  for host pointer c w where
  none: "sequential_calls host pointer c w [] w"
| call: "sequential_calls host pointer c w (calls @ [(n, outcome)]) w''"
  if "sequential_calls host pointer c w calls w'" "nodes_by_id c n = Some node"
    "runtime_execute host (build_node_execution_request c node n (assemble_node_input pointer c n (collected calls))) w' = Some (outcome, w'')"

definition reported :: "CanonicalProposal \<Rightarrow> string \<times> RuntimeExecutionOutcome \<Rightarrow> ProposalNodeOutcome" where
  "reported c = (\<lambda>(n, outcome). answered n (the (nodes_by_id c n)) (node_answer outcome))"

definition completed_call :: "string \<times> RuntimeExecutionOutcome \<Rightarrow> bool" where
  "completed_call x \<longleftrightarrow> rr_status (ro_result (snd x)) = ResultCompleted"

lemma collected_snoc:
  assumes "n \<notin> fst ` set calls"
  shows "collected (calls @ [(n, outcome)]) =
    (case rr_output (ro_result outcome) of None \<Rightarrow> collected calls | Some v \<Rightarrow> (collected calls)(n \<mapsto> v))"
proof -
  have "map_of calls n = None" using assms by (simp add: map_of_eq_None_iff)
  then show ?thesis by (auto simp: collected_def fun_eq_iff map_add_def split: option.split)
qed

lemma run_nodes_calls:
  assumes c: "runs_in_order c"
  shows "execution_order c = map fst calls @ rest \<Longrightarrow> sequential_calls host pointer c w0 calls w \<Longrightarrow> list_all completed_call calls \<Longrightarrow>
    run_nodes host pointer c rest (collected calls) (map (reported c) calls) False w = Some (outcomes, failed, w') \<Longrightarrow>
    \<exists>calls'. sequential_calls host pointer c w0 calls' w' \<and> map fst calls' = take (length calls') (execution_order c)
      \<and> list_all completed_call (butlast calls') \<and> outcomes = map (reported c) calls' @ map (skipped_node c) (drop (length calls') (execution_order c))
      \<and> failed = (\<not> list_all completed_call calls') \<and> (failed \<or> length calls' = length (execution_order c))"
proof (induction rest arbitrary: calls w)
  case Nil
  moreover have "list_all completed_call (butlast calls)" using Nil.prems(3) by (auto simp: list_all_iff dest: in_set_butlastD)
  ultimately show ?case by (intro exI [of _ calls]) auto
next
  case (Cons n rest)
  have n: "n \<in> declared_ids (proposal c)" "set rest \<subseteq> declared_ids (proposal c)" "n \<notin> fst ` set calls"
    using c Cons.prems(1) by (auto simp: runs_in_order_def)
  obtain node where node: "nodes_by_id c n = Some node" using nodes_by_id_declared [OF c n(1)] .
  then obtain outcome w1 where run: "runtime_execute host
      (build_node_execution_request c node n (assemble_node_input pointer c n (collected calls))) w = Some (outcome, w1)"
    using Cons.prems(4) by (auto split: option.splits)
  have calls: "sequential_calls host pointer c w0 (calls @ [(n, outcome)]) w1"
    using Cons.prems(2) node run by (rule sequential_calls.call)
  show ?case
  proof (cases "rr_status (ro_result outcome)")
    case ResultCompleted
    then have "succeeded_outcome n node = reported c (n, outcome)" by (simp add: reported_def answered_def node_answer_def node)
    moreover have "list_all completed_call (calls @ [(n, outcome)])" using Cons.prems(3) ResultCompleted by (simp add: completed_call_def [of "(n, outcome)"])
    moreover have "execution_order c = map fst (calls @ [(n, outcome)]) @ rest" using Cons.prems(1) by simp
    ultimately show ?thesis
      using Cons.IH [OF _ calls] Cons.prems(4) node run ResultCompleted by (simp add: collected_snoc [OF n(3)])
  next
    case ResultError
    then have out: "failed_outcome n node outcome = reported c (n, outcome)"
      by (simp add: reported_def answered_def node_answer_def node failed_outcome_def)
    have "outcomes = map (reported c) (calls @ [(n, outcome)]) @ map (skipped_node c) rest" "failed" "w' = w1"
      using Cons.prems(4) node run ResultError by (simp_all add: out run_nodes_skip [OF c n(2)])
    then show ?thesis
      using calls Cons.prems(1,3) ResultError
      by (intro exI [of _ "calls @ [(n, outcome)]"]) (simp add: completed_call_def [of "(n, outcome)"])
  qed
qed

text \<open>The outputs a node reads are there when it runs.\<close>

lemma sequential_calls_completed:
  assumes "sequential_calls host pointer c w calls w'"
  shows "\<forall>x \<in> set calls. completed_call x \<longrightarrow> rr_output (ro_result (snd x)) \<noteq> None"
  using assms
proof induction
  case (call calls w1 n node outcome w2)
  have "outcome_ok outcome" using runtime_execute_ok [OF call.hyps(3)] by blast
  then have "rr_status (ro_result outcome) = ResultCompleted \<Longrightarrow> rr_output (ro_result outcome) \<noteq> None"
    by (simp add: outcome_ok_def status_ok_def Let_def)
  with call.IH show ?case by (auto simp: completed_call_def)
qed simp

lemma collected_source:
  assumes c: "runs_in_order c" and calls: "sequential_calls host pointer c w calls w'"
    "map fst calls = take (length calls) (execution_order c)" "list_all completed_call (butlast calls)"
    and i: "i < length calls" and m: "m \<in> set (mappings (proposal c))" "target_node_id m = fst (calls ! i)" "mapping_source m = NodeSource s"
  shows "collected (take i calls) s \<noteq> None"
proof -
  have len: "i < length (execution_order c)" using arg_cong [OF calls(2), of length] i by simp
  have n: "fst (calls ! i) = execution_order c ! i" using arg_cong [OF calls(2), of "\<lambda>xs. xs ! i"] i by simp
  have before: "map fst (take i calls) = take i (execution_order c)"
    using arg_cong [OF calls(2), of "take i"] i by (simp add: take_map min_def)
  have "(s, execution_order c ! i) \<in> set (edge_pairs (proposal c))" using c m n by (auto simp: runs_in_order_def)
  then have "s \<in> set (take i (execution_order c))" using c len by (auto simp: runs_in_order_def preds_def)
  then obtain x where x: "x \<in> set (take i calls)" "fst x = s" unfolding before [symmetric] by auto
  have distinct: "distinct (map fst (take i calls))" unfolding before using c by (simp add: runs_in_order_def)
  have "x \<in> set (butlast calls)"
  proof -
    have "i \<le> length calls - 1" using i by simp
    from set_take_subset_set_take [OF this, of calls] x(1) show ?thesis by (auto simp: butlast_conv_take)
  qed
  then have "completed_call x" "x \<in> set calls" using calls(3) by (auto simp: list_all_iff dest: in_set_butlastD)
  then have "rr_output (ro_result (snd x)) \<noteq> None" using sequential_calls_completed [OF calls(1)] by blast
  moreover have "map_of (take i calls) s = Some (snd x)" using x distinct by (metis map_of_eq_Some_iff prod.collapse)
  ultimately show ?thesis by (simp add: collected_def)
qed

section \<open>Where a mapped value ends up\<close>

text \<open>What the documentation of \<^verbatim>\<open>Value::pointer\<close> says of members of objects: the empty pointer is the whole
  value, and a token without escapes selects the member of that name.\<close>

definition member_pointer :: "json_pointer \<Rightarrow> bool" where
  "member_pointer pointer \<longleftrightarrow>
     (\<forall>v. pointer v [] = Some v)
   \<and> (\<forall>ms token rest. CHR ''/'' \<notin> set token \<and> CHR ''~'' \<notin> set token \<and> (rest = [] \<or> hd rest = CHR ''/'') \<longrightarrow>
        pointer (JObject ms) (CHR ''/'' # token @ rest) = Option.bind (obj_get ms token) (\<lambda>v. pointer v rest))"

definition plain_path :: "string list \<Rightarrow> string" where
  "plain_path segments = concat (map (\<lambda>s. CHR ''/'' # s) segments)"

definition plain_segments :: "string list \<Rightarrow> bool" where
  "plain_segments segments \<longleftrightarrow> segments \<noteq> [] \<and> (\<forall>s \<in> set segments. s \<noteq> [] \<and> CHR ''/'' \<notin> set s \<and> CHR ''~'' \<notin> set s)"

text \<open>Neither path leads through the other.\<close>

definition apart :: "string list \<Rightarrow> string list \<Rightarrow> bool" where
  "apart xs ys \<longleftrightarrow> take (length ys) xs \<noteq> ys \<and> take (length xs) ys \<noteq> xs"

fun holds_at :: "json \<Rightarrow> string list \<Rightarrow> json \<Rightarrow> bool" where
  "holds_at current [] v \<longleftrightarrow> current = v"
| "holds_at (JObject ms) (s # segments) v \<longleftrightarrow> (case obj_get ms s of None \<Rightarrow> False | Some child \<Rightarrow> holds_at child segments v)"
| "holds_at _ (s # segments) v \<longleftrightarrow> False"

lemma target_segments_plain:
  assumes "plain_segments segments"
  shows "target_segments (plain_path segments) = segments"
proof -
  have "split_on CHR ''/'' (plain_path segments) = [] # segments" if "segments \<noteq> []" "\<forall>s \<in> set segments. CHR ''/'' \<notin> set s" for segments
    using that
  proof (induction segments rule: induct_list012)
    case (2 s)
    then show ?case using split_on_append [of "CHR ''/''" "[]" s] by (simp add: plain_path_def split_on_no_sep)
  next
    case (3 s s' segments)
    then have IH: "split_on CHR ''/'' (plain_path (s' # segments)) = [] # s' # segments" by simp
    obtain tail where tail: "plain_path (s' # segments) = CHR ''/'' # tail" by (simp add: plain_path_def)
    then have "split_on CHR ''/'' tail = s' # segments" using IH split_on_append [of "CHR ''/''" "[]" tail] by simp
    moreover have "split_on CHR ''/'' (s @ CHR ''/'' # tail) = s # split_on CHR ''/'' tail" using 3 by (intro split_on_append) simp
    moreover have "plain_path (s # s' # segments) = CHR ''/'' # s @ CHR ''/'' # tail" using tail by (simp add: plain_path_def)
    ultimately show ?case using split_on_append [of "CHR ''/''" "[]" "s @ CHR ''/'' # tail"] by simp
  qed simp
  then show ?thesis using assms by (auto simp: target_segments_def plain_segments_def intro: filter_True)
qed

lemma holds_at_pointer:
  assumes "member_pointer pointer"
  shows "\<forall>s \<in> set segments. CHR ''/'' \<notin> set s \<and> CHR ''~'' \<notin> set s \<Longrightarrow> holds_at current segments v \<Longrightarrow>
    pointer current (plain_path segments) = Some v"
proof (induction current segments v rule: holds_at.induct)
  case (1 current v)
  then show ?case using assms by (simp add: member_pointer_def plain_path_def)
next
  case (2 ms s segments v)
  then obtain child where child: "obj_get ms s = Some child" "holds_at child segments v" by (auto split: option.splits)
  have "plain_path segments = [] \<or> hd (plain_path segments) = CHR ''/''" by (cases segments) (simp_all add: plain_path_def)
  then have "pointer (JObject ms) (CHR ''/'' # s @ plain_path segments) = Option.bind (obj_get ms s) (\<lambda>v. pointer v (plain_path segments))"
    using assms 2(2) by (simp add: member_pointer_def)
  then show ?case using 2 child by (simp add: plain_path_def)
qed auto

lemma holds_at_set: "holds_at (set_at_segments current segments v) segments v"
  by (induction current segments v rule: set_at_segments.induct) (simp_all add: Let_def)

lemma holds_at_set_apart:
  "apart segments other \<Longrightarrow> holds_at current other u \<Longrightarrow> holds_at (set_at_segments current segments v) other u"
proof (induction current segments v arbitrary: other rule: set_at_segments.induct)
  case (1 current v)
  then show ?case by (simp add: apart_def)
next
  case (2 current s rest v)
  then obtain s' rest' where other: "other = s' # rest'" by (cases other) (auto simp: apart_def)
  then obtain ms child where cur: "current = JObject ms" "obj_get ms s' = Some child" "holds_at child rest' u"
    using 2(3) by (cases current) (auto split: option.splits)
  show ?case
  proof (cases "s' = s")
    case True
    have "apart rest rest'" using 2(2) other True by (simp add: apart_def)
    then have "holds_at (set_at_segments child rest v) rest' u"
      using 2(1) [of ms child rest'] cur True by simp
    then show ?thesis using cur other True by (simp add: Let_def)
  next
    case False
    then show ?thesis using cur other by (simp add: Let_def)
  qed
qed

text \<open>Two spellings of one target: the check for two writers compares the text of the paths, but the empty
  segments are dropped when a value is written.\<close>

lemma multi_writer_spelling:
  "pointer_set input ''/a'' v = pointer_set input ''//a'' v" "pointer_set input ''/a'' v = pointer_set input ''a'' v"
  by (simp_all add: pointer_set_def target_segments_def split_on_def)

text \<open>The mappings of a node write to different places.\<close>

definition apart_targets :: "CanonicalProposal \<Rightarrow> string \<Rightarrow> bool" where
  "apart_targets c n \<longleftrightarrow>
     (\<forall>m \<in> set (mappings (proposal c)). target_node_id m = n \<longrightarrow>
        (\<exists>segments. plain_segments segments \<and> target_path m = plain_path segments))
   \<and> (\<forall>i < length (mappings (proposal c)). \<forall>j < length (mappings (proposal c)).
        i \<noteq> j \<and> target_node_id (mappings (proposal c) ! i) = n \<and> target_node_id (mappings (proposal c) ! j) = n \<longrightarrow>
        apart (target_segments (target_path (mappings (proposal c) ! i))) (target_segments (target_path (mappings (proposal c) ! j))))"

lemma fold_mappings_keeps:
  assumes "\<And>m. m \<in> set ms \<Longrightarrow> target_node_id m = n \<Longrightarrow> apart (target_segments (target_path m)) segments" "holds_at input segments v"
  shows "holds_at (fold (apply_mapping pointer p outputs n) ms input) segments v"
  using assms
proof (induction ms arbitrary: input)
  case (Cons m ms)
  have "holds_at (apply_mapping pointer p outputs n m input) segments v"
    using Cons.prems by (auto simp: apply_mapping_def pointer_set_def holds_at_set_apart split: option.split)
  with Cons show ?case by simp
qed simp

lemma assembled_holds:
  assumes "apart_targets c n" "i < length (mappings (proposal c))" "target_node_id (mappings (proposal c) ! i) = n"
    and "mapped_value pointer (proposal c) outputs (mappings (proposal c) ! i) = Some v"
  shows "holds_at (assemble_node_input pointer c n outputs) (target_segments (target_path (mappings (proposal c) ! i))) v"
proof -
  let ?ms = "mappings (proposal c)" and ?fold = "fold (apply_mapping pointer (proposal c) outputs n)"
  let ?segments = "target_segments (target_path (?ms ! i))"
  have ms: "?ms = take i ?ms @ ?ms ! i # drop (Suc i) ?ms" using assms(2) by (rule id_take_nth_drop)
  have "assemble_node_input pointer c n outputs =
      ?fold (drop (Suc i) ?ms) (apply_mapping pointer (proposal c) outputs n (?ms ! i) (?fold (take i ?ms) (JObject [])))"
    unfolding assemble_node_input_def by (subst ms) simp
  moreover have "holds_at (apply_mapping pointer (proposal c) outputs n (?ms ! i) (?fold (take i ?ms) (JObject []))) ?segments v"
    using assms(3,4) by (simp add: apply_mapping_def pointer_set_def holds_at_set)
  moreover have "apart (target_segments (target_path m)) ?segments" if m: "m \<in> set (drop (Suc i) ?ms)" "target_node_id m = n" for m
  proof -
    obtain k where "k < length (drop (Suc i) ?ms)" "m = drop (Suc i) ?ms ! k" using m(1) by (metis in_set_conv_nth)
    then have "Suc i + k < length ?ms" "m = ?ms ! (Suc i + k)" by simp_all
    with assms(1-3) m(2) show ?thesis unfolding apart_targets_def by (metis add_Suc less_add_Suc1 nat_neq_iff)
  qed
  ultimately show ?thesis using fold_mappings_keeps [of "drop (Suc i) ?ms" n ?segments] by metis
qed

text \<open>A pointer through members of objects.\<close>

fun member_tokens :: "json \<Rightarrow> string list \<Rightarrow> json option" where
  "member_tokens v [] = Some v"
| "member_tokens v (token # rest) = Option.bind (json_get v token) (\<lambda>child. member_tokens child rest)"

definition sample_pointer :: json_pointer where
  "sample_pointer v path = (if path = [] then Some v else member_tokens v (tl (split_on CHR ''/'' path)))"

lemma sample_member_pointer: "member_pointer sample_pointer"
  unfolding member_pointer_def
proof (intro conjI allI impI; (elim conjE)?)
  fix ms token rest assume "CHR ''/'' \<notin> set token" "rest = [] \<or> hd rest = CHR ''/''"
  moreover have "split_on CHR ''/'' (CHR ''/'' # xs) = [] # split_on CHR ''/'' xs" for xs
    using split_on_append [of "CHR ''/''" "[]" xs] by simp
  ultimately show "sample_pointer (JObject ms) (CHR ''/'' # token @ rest) = Option.bind (obj_get ms token) (\<lambda>v. sample_pointer v rest)"
    by (cases rest) (simp_all add: sample_pointer_def split_on_no_sep split_on_append)
qed (simp add: sample_pointer_def)

section \<open>Properties\<close>

text \<open>
  C6: Running the waves of a schedule gives the result of the sequential run. For an accepted proposal
  and a runtime whose answer to a request does not depend on the state of the world, both executors
  return, whatever the order of the threads; every node is reported once, in the order of the
  schedule and of the execution order; unless the parallel run was cancelled by a budget both end in
  the same state; a node that ran in both has the same outcome; and on success the two traces list
  the same outcomes.
\<close>

theorem parallel_agrees_with_sequential:
  assumes "canonicalize_proposal to_vec_len p l = Some (Ok c)" "compute_parallel_schedule c sl = Some (Ok s)"
    and "steady host c" "schedules_all th" "\<And>request w. th_panic th request w = None"
  shows "\<exists>ptrace pw strace sw.
      execute_parallel_proposal host th pointer c s authorization pd sd limits w = Some (ptrace, pw)
    \<and> execute_proposal host pointer c authorization pd sd w' = Some (strace, sw)
    \<and> map no_node_id (node_outcomes ptrace) = concat (waves s) \<and> map no_node_id (node_outcomes strace) = execution_order c
    \<and> (terminal_state ptrace = ProposalCancelled \<or> terminal_state ptrace = terminal_state strace)
    \<and> (\<forall>x \<in> set (node_outcomes ptrace). \<forall>y \<in> set (node_outcomes strace).
         no_node_id x = no_node_id y \<and> no_status x \<noteq> SkippedAfterEarlierFailure \<and> no_status y \<noteq> SkippedAfterEarlierFailure \<longrightarrow> x = y)
    \<and> (terminal_state ptrace = ProposalSucceeded \<longrightarrow> mset (node_outcomes ptrace) = mset (node_outcomes strace))"
proof -
  have c: "runs_in_order c" by (rule canonical_runs_in_order(1) [OF assms(1)])
  note sched = schedule_layered [OF assms(1,2)]
  have order: "distinct (execution_order c)" "set (execution_order c) = set (concat (waves s))"
    using c sched(3) by (simp_all only: runs_in_order_def)
  obtain ans where ans: "answers host c ans" using steady_answers [OF c assms(3)] .
  obtain run pw where par: "execute_parallel_proposal host th pointer c s authorization pd sd limits w =
      Some (proposal_trace c authorization pd sd (wr_outcomes run) (run_terminal run), pw)"
    and inv: "wave_inv pointer c ans (concat (waves s)) run"
    using execute_parallel_answers [OF c ans assms(5,4) sched(1)] .
  obtain executed sw where seq: "execute_proposal host pointer c authorization pd sd w' =
      Some (proposal_trace c authorization pd sd
        (map (final_outcome pointer c ans) executed @ map (skipped_node c) (drop (length executed) (execution_order c)))
        (if \<exists>n \<in> set (execution_order c). failing pointer c ans n then ProposalFailed else ProposalSucceeded), sw)"
    and ex: "executed = take (length executed) (execution_order c)"
      "(\<exists>n \<in> set (execution_order c). failing pointer c ans n) \<or> executed = execution_order c"
    using execute_sequential_answers [OF c ans] .
  have "map no_node_id (map (final_outcome pointer c ans) executed @ map (skipped_node c) (drop (length executed) (execution_order c)))
      = execution_order c"
    using ex(1) append_take_drop_id [of "length executed" "execution_order c"] by (simp add: comp_def)
  note ids = this
  have terminal: "run_terminal run = ProposalCancelled
      \<or> run_terminal run = (if \<exists>n \<in> set (execution_order c). failing pointer c ans n then ProposalFailed else ProposalSucceeded)"
    using inv unfolding order(2) run_terminal_def wave_inv_def by auto
  have success: "mset (wr_outcomes run) =
      mset (map (final_outcome pointer c ans) executed @ map (skipped_node c) (drop (length executed) (execution_order c)))"
    if "run_terminal run = ProposalSucceeded"
  proof -
    have "wr_outcomes run = map (final_outcome pointer c ans) (concat (waves s))"
      and "\<not> (\<exists>n \<in> set (execution_order c). failing pointer c ans n)"
      using that inv unfolding order(2) run_terminal_def wave_inv_def by (auto split: if_splits)
    moreover from this have "executed = execution_order c" using ex(2) by blast
    ultimately show ?thesis using mset_map_cover [OF sched(2) order(1)] order(2) by simp
  qed
  have same: "x = y" if "x \<in> set (wr_outcomes run)" "no_node_id x = no_node_id y" "no_status x \<noteq> SkippedAfterEarlierFailure"
    "y \<in> set (map (final_outcome pointer c ans) executed @ map (skipped_node c) (drop (length executed) (execution_order c)))"
    "no_status y \<noteq> SkippedAfterEarlierFailure" for x y
  proof -
    have "x \<noteq> skipped_node c (no_node_id x)" using that(3) outcome_fields(3) by metis
    then have "x = final_outcome pointer c ans (no_node_id x)" using inv that(1) unfolding wave_inv_def by blast
    moreover have "y = final_outcome pointer c ans (no_node_id y)" using that(4,5) by auto
    ultimately show ?thesis using that(2) by metis
  qed
  have ids': "map no_node_id (wr_outcomes run) = concat (waves s)" using inv by (simp only: wave_inv_def)
  show ?thesis
    by (intro exI conjI ballI impI, rule par, rule seq, unfold proposal_trace_fields)
      (use ids ids' terminal success same in \<open>blast+\<close>)
qed

theorem parallel_agrees_with_sequential_witness:
  "\<exists>ptrace pw. execute_parallel_proposal sample_host sample_threads (\<lambda>v _. Some v) sample_canonical
      \<lparr>waves = [[''a'', ''b''], [''c'']]\<rparr> \<lparr>automatic = True, approval_token_id = None\<rparr> ''p'' ''s''
      default_execution_limits sample_world = Some (ptrace, pw)
    \<and> map no_node_id (node_outcomes ptrace) = [''a'', ''b'', ''c'']"
proof -
  obtain ptrace pw where "execute_parallel_proposal sample_host sample_threads (\<lambda>v _. Some v) sample_canonical
      \<lparr>waves = [[''a'', ''b''], [''c'']]\<rparr> \<lparr>automatic = True, approval_token_id = None\<rparr> ''p'' ''s''
      default_execution_limits sample_world = Some (ptrace, pw)"
    "map no_node_id (node_outcomes ptrace) = concat (waves \<lparr>waves = [[''a'', ''b''], [''c'']]\<rparr>)"
    using parallel_agrees_with_sequential [OF sample_canonicalizes sample_schedules sample_steady sample_threads_all sample_threads_panic,
        of "\<lambda>v _. Some v" "\<lparr>automatic = True, approval_token_id = None\<rparr>" "''p''" "''s''" default_execution_limits sample_world sample_world]
    by blast
  then show ?thesis by (intro exI [of _ ptrace] exI [of _ pw]) simp
qed



text \<open>
  C20: The sequential executor calls the runtime node by node in the execution order, each call on the
  input assembled from the outputs of the calls before it, and every output a mapping of the node
  reads has been produced. All calls but the last completed; the trace reports each call, then every
  node that was not called as skipped; it is failed exactly when the last call failed, and otherwise
  every node was called.
\<close>

theorem sequential_execution_sound:
  assumes "canonicalize_proposal to_vec_len p l = Some (Ok c)"
    and "execute_proposal host pointer c authorization pd sd w = Some (trace, w')"
  shows "\<exists>calls. sequential_calls host pointer c w calls w' \<and> map fst calls = take (length calls) (execution_order c)
    \<and> list_all completed_call (butlast calls)
    \<and> node_outcomes trace = map (reported c) calls @ map (skipped_node c) (drop (length calls) (execution_order c))
    \<and> (if list_all completed_call calls then terminal_state trace = ProposalSucceeded \<and> length calls = length (execution_order c)
       else terminal_state trace = ProposalFailed)
    \<and> (\<forall>i < length calls. \<forall>m \<in> set (mappings p). \<forall>s.
         target_node_id m = fst (calls ! i) \<and> mapping_source m = NodeSource s \<longrightarrow> collected (take i calls) s \<noteq> None)"
proof -
  have c: "runs_in_order c" and p: "proposal c = p" using canonical_runs_in_order [OF assms(1)] by blast+
  obtain outcomes failed where run: "run_nodes host pointer c (execution_order c) Map.empty [] False w = Some (outcomes, failed, w')"
    and trace: "trace = proposal_trace c authorization pd sd outcomes (if failed then ProposalFailed else ProposalSucceeded)"
    using assms(2) by (auto simp: execute_proposal_def)
  have "collected [] = Map.empty" by (simp add: collected_def fun_eq_iff)
  with run run_nodes_calls [OF c, of "[]" "execution_order c" host pointer w w outcomes failed w'] sequential_calls.none
  obtain calls where calls: "sequential_calls host pointer c w calls w'" "map fst calls = take (length calls) (execution_order c)"
      "list_all completed_call (butlast calls)" "outcomes = map (reported c) calls @ map (skipped_node c) (drop (length calls) (execution_order c))"
      "failed = (\<not> list_all completed_call calls)" "failed \<or> length calls = length (execution_order c)" by fastforce
  have "collected (take i calls) s \<noteq> None" if "i < length calls" "m \<in> set (mappings p)" "target_node_id m = fst (calls ! i)"
    "mapping_source m = NodeSource s" for i m s
    by (rule collected_source [OF c calls(1-3) that(1) _ that(3,4)]) (simp add: p that(2))
  with calls show ?thesis unfolding trace proposal_trace_fields by (intro exI [of _ calls]) auto
qed

theorem sequential_execution_sound_witness:
  "\<exists>trace w' calls. execute_proposal sample_host (\<lambda>v _. Some v) sample_canonical \<lparr>automatic = True, approval_token_id = None\<rparr> ''p'' ''s''
      sample_world = Some (trace, w')
    \<and> sequential_calls sample_host (\<lambda>v _. Some v) sample_canonical sample_world calls w'
    \<and> node_outcomes trace = map (reported sample_canonical) calls @ map (skipped_node sample_canonical) (drop (length calls) [''a'', ''b'', ''c''])"
proof -
  have c: "runs_in_order sample_canonical" by (rule canonical_runs_in_order(1) [OF sample_canonicalizes])
  obtain ans where "answers sample_host sample_canonical ans" using steady_answers [OF c sample_steady] .
  then obtain trace w' where run: "execute_proposal sample_host (\<lambda>v _. Some v) sample_canonical \<lparr>automatic = True, approval_token_id = None\<rparr>
      ''p'' ''s'' sample_world = Some (trace, w')" by (rule execute_sequential_answers [OF c]) 
  have "execution_order sample_canonical = [''a'', ''b'', ''c'']" by (simp add: sample_canonical_def)
  with sequential_execution_sound [OF sample_canonicalizes run] run show ?thesis by auto
qed

text \<open>
  C23: A mapped value arrives where the mapping says. When the targets of a node are plain member paths
  of which none leads through another, the input assembled for the node holds, at the target path of
  every mapping that has a value, exactly that value: no mapping overwrites another.
\<close>

theorem assembled_input_carries_mappings:
  assumes "member_pointer pointer" "apart_targets c n"
    and "m \<in> set (mappings (proposal c))" "target_node_id m = n" "mapped_value pointer (proposal c) outputs m = Some v"
  shows "pointer (assemble_node_input pointer c n outputs) (target_path m) = Some v"
proof -
  obtain i where i: "i < length (mappings (proposal c))" "mappings (proposal c) ! i = m" using assms(3) by (auto simp: in_set_conv_nth)
  obtain segments where segments: "plain_segments segments" "target_path m = plain_path segments"
    using assms(2-4) unfolding apart_targets_def by blast
  have "holds_at (assemble_node_input pointer c n outputs) segments v"
    using assembled_holds [OF assms(2) i(1), of pointer outputs v] assms(4,5) i(2) segments by (simp add: target_segments_plain)
  then show ?thesis
    unfolding segments(2) by (intro holds_at_pointer [OF assms(1)]) (use segments(1) in \<open>auto simp: plain_segments_def\<close>)
qed

theorem assembled_input_carries_mappings_witness:
  "sample_pointer (assemble_node_input sample_pointer sample_canonical ''c'' [''a'' \<mapsto> JObject [(''y'', JBool True)]]) ''/y'' = Some (JBool True)"
proof -
  let ?m = "\<lparr>mapping_source = NodeSource ''a'', source_path = ''/y'', target_node_id = ''c'', target_path = ''/y''\<rparr>"
  have "plain_segments [''y'']" "plain_path [''y''] = ''/y''" by (simp_all add: plain_segments_def plain_path_def)
  then have "apart_targets sample_canonical ''c''"
    by (auto simp: apart_targets_def sample_canonical_def sample_proposal_def less_Suc_eq intro: exI [of _ "[''y'']"])
  moreover have "mapped_value sample_pointer (proposal sample_canonical) [''a'' \<mapsto> JObject [(''y'', JBool True)]] ?m = Some (JBool True)"
    by (simp add: mapped_value_def sample_pointer_def split_on_def)
  ultimately show ?thesis
    using assembled_input_carries_mappings [OF sample_member_pointer, of sample_canonical "''c''" ?m]
    by (simp add: sample_canonical_def sample_proposal_def)
qed

end
