(* ===== verification/Spec2Isabelle.thy ===== *)
theory Spec2Isabelle
  imports Durable_Orchestration Runtime_Live Browser_Subscription Proposal_Execution
begin

text \<open>
  Traverse is a runtime that executes registered capabilities (WebAssembly artifacts, or workflows of
  them) under contracts: a request names a capability, the runtime resolves exactly one eligible
  version, verifies its artifact, checks the payload against the contract, places and runs the call,
  and answers with a result, a trace and a list of state transitions. Workflow proposals (graphs of
  capability calls written by a planner) are validated, authorized by approval tokens and quotas, and
  scheduled. Events are published to and polled from a broker. This development models that logic, in
  crates/traverse-contracts/src and crates/traverse-runtime/src, and proves what it promises.

  \<^bold>\<open>How the parts interact\<close>

  A caller's bytes become JSON in canonical form (Canonical_Json). Runtime::execute (Runtime) checks
  the request, derives the identity of the caller (Artifact_Security), collects and filters candidates
  from the registry (Registry) or from the persisted index, whose contracts are read through a cache
  (Capability_Metadata), admits the selected one (draft quarantine, placement target, artifact
  verification, dependencies, input schema: Schema_Validation), and then either gives the call to the
  router (Router, Placement), which runs an executor, records the trace and publishes the events the
  executor reported, or traverses a workflow (Workflow_Evidence, Workflows), whose nodes are calls of
  their own and whose edges may wait for broker events (Event_Types, Event_Broker). Every step pushes
  a transition on a checked state machine (Runtime_State), and the outcome is built from it
  (Runtime_Types, Runtime_Outcome) and sent to browsers as messages (Browser_Subscription).
  Proposals take the path Proposal_Graph, Proposal_Authorization, Proposal_Execution, whose nodes are calls
  of Runtime::execute; Durable_Orchestration keeps long executions recoverable.

  \<^bold>\<open>Conventions\<close>

  A fallible function returns a sum, error to the left (\<open>Err\<close>), value to the right (\<open>Ok\<close>); a list of
  errors where the code accumulates them. A loop that may not end, and code that may panic, returns an
  option: None is not returning. Mutable state is passed explicitly in records. A string is the list of
  its UTF-8 bytes; \<open>trim\<close> removes the Unicode white space of the Rust library. Unsigned counters are
  naturals with the saturating or checked operation of the code written out; the FNV hashes are on
  machine words. BTreeMap and BTreeSet are sorted lists or maps and sets, according to whether the
  order is observable. Code outside the repository (the registry package, serde_json parsing, SHA-256,
  Ed25519, semver ranges, clocks, files, the WebAssembly engine) is a parameter, mostly a field of
  \<open>RuntimeHost\<close>, \<open>HydrationPlatform\<close>, \<open>SecurityPlatform\<close> or \<open>BrokerConfig\<close>.

  \<^bold>\<open>The theories\<close>

  \<^item> Prelude, Json, Rust_Strings: results, bounded arithmetic, Rust strings, JSON values; the simp
    collection \<open>rust_string_simps\<close>.
  \<^item> Contracts: crates/traverse-contracts/src/lib.rs. The contract types field by field and
    \<open>validate_contract\<close>, \<open>validate_event_contract\<close>, \<open>validate_connector_contract\<close>,
    \<open>validate_host_adapter_wit\<close>, \<open>validate_manifest_risk_policy\<close>, the content digests. Shown: exactly the
    well-formed contracts are accepted, all errors are reported, validation is idempotent on its result,
    a published version is immutable up to its hash, a manifest only narrows.
  \<^item> Registry: the data the runtime reads of the registry package, without behaviour.
  \<^item> Proposal_Graph: crates/traverse-contracts/src/proposal.rs. \<open>canonicalize_proposal\<close> (every check, then
    Kahn's algorithm \<open>kahn\<close>, \<open>topological_order\<close>) and \<open>compute_parallel_schedule\<close> (\<open>wave_loop\<close>). The locale
    \<open>dependency_tables\<close> states what the edge scan leaves behind (in-degrees and adjacency of a finite
    relation); the graph algorithms are proved in it and it is interpreted on the tables of the scan.
    Shown: exactly the well-formed acyclic proposals are accepted, the order is the lexicographically
    least topological one, the waves are the greedy ones, no panic, every rejection explained.
  \<^item> Proposal_Authorization: crates/traverse-runtime/src/proposal.rs. Cross validation, approval tokens,
    the token store and the quota tracker, the latter also as a step relation \<open>quota_step\<close> of concurrent
    callers. Shown: soundness of accepted proposals, exact acceptance of tokens, bounds on uses, the quota
    invariant in every interleaving.
  \<^item> Durable_Orchestration: durable_orchestration.rs. The locale \<open>checkpoint_store\<close> is the store trait,
    interpreted by the in-memory store. Shown: recovery fails closed, persist and recover round trip,
    leases are fenced, retries are bounded, compensation runs backwards.
  \<^item> Schema_Validation: the payload check of lib.rs (\<open>validate_value_against_schema\<close>) against its meaning
    \<open>conforms\<close>.
  \<^item> Artifact_Security: security.rs. Artifact verification, codecs, identity of a bearer token.
  \<^item> Placement: placement.rs of the contracts crate, with loads that may be NaN or infinite.
  \<^item> Canonical_Json: canonical_json.rs. The serializer (numbers, escapes, UTF-16 member order) and the strict
    parse. Shown: equal canonical bytes exactly for logically equal values.
  \<^item> Event_Types, Event_Broker: events/types.rs, events/validation.rs, events/broker.rs, events/catalog.rs.
    \<open>EventBroker\<close> is the broker trait as a record of operations; the locale \<open>event_broker\<close> is the contract
    its clients rely on (a poll makes progress), interpreted on the in-process broker here and on the
    discarding broker in Runtime. Shown: the broker invariant under every operation and delivery in order,
    once, matching, bounded.
  \<^item> Runtime_State: the state machine of lib.rs. Shown: only allowed transitions are recorded and the
    evidence agrees with them.
  \<^item> Capability_Metadata: capability_metadata.rs. The index and the hydration cache, which refines a
    least-recently-used list.
  \<^item> Workflow_Evidence, Workflows: workflows.rs. Request checks, node input and state mapping, event
    matching; then polling, the gates and execution of a node, the choice of the next edge, and the loop
    \<open>traverse_workflow\<close> as \<open>iterate_steps\<close> of \<open>workflow_step\<close>. Shown: an event wakes an edge once; the path
    of a completed traversal; termination for acyclic edges.
  \<^item> Runtime_Types, Runtime_Outcome, Runtime_Host, Router, Runtime: lib.rs, router/mod.rs, the trace
    store of trace/, and the lookup of indexed workflows in workspace_lazy.rs. \<open>runtime_execute\<close> is
    Runtime::execute on \<open>RuntimeWorld\<close> (broker, trace store, cache).
  \<^item> Runtime_Safety, Runtime_Live: the end-to-end theorems on \<open>runtime_execute\<close>: well-formed outcomes, no
    execution before every gate has passed, no executor call that was not admitted, conforming outputs,
    no bearer token in a trace, and that an execution returns.
  \<^item> Proposal_Execution: proposal.rs and parallel_proposal.rs. \<open>execute_proposal\<close> runs the nodes in the execution
    order; \<open>execute_parallel_proposal\<close> runs the waves of a schedule, a batch of threads at a time, under a
    scheduler that is a parameter; both on \<open>runtime_execute\<close>. Shown: both agree for a runtime with steady
    answers, the trace of an admitted schedule does not depend on the scheduler, the sequential run calls
    nodes on produced outputs only, a mapped value arrives at its target.
  \<^item> Browser_Subscription: the message stream derived from an outcome.

  \<^bold>\<open>Loops and bounds\<close>

  The loops without a bound in the code are the workflow traversal and the polling of one subscription.
  Both are \<open>iterate_steps\<close>, a \<open>partial_function (option)\<close>, so no fuel is chosen; that they end is proved
  (Runtime_Live): the traversal under the hypothesis that the edges of every workflow found are acyclic,
  the polling from the contract \<open>event_broker\<close>. A cyclic workflow is not rejected by Runtime::execute and
  may run forever, which the model shows as None. Kahn's algorithm and the wave loop recurse with
  termination proofs on the number of remaining nodes. All other loops are structural.

  \<^bold>\<open>What is simplified\<close>

  A call of the runtime runs alone: locks are never poisoned and no second caller waits on a hydration in
  flight. The quota tracker, whose point is concurrency, is modelled with interleaving; the threads of a wave
  interleave call by call. A finite f32
  load is a rational; an f64 of a JSON document is its sign, shortest decimal digits and exponent. Hash
  collisions are not excluded: properties speak of equal hashes. The usage telemetry
  sink of the runtime (a no-op unless the host injects one) and governed model execution, which has an
  entry point of its own, are left out.

  \<^bold>\<open>Not modelled\<close>

  Drivers of engines and platforms have no logic the kernel could check without inventing their other
  side: the WebAssembly executors, the component bindings, the model kernels, the hosts for Swift,
  Android, .NET and browsers, the model guests. The same holds for files and
  threads (event and trace journals, file-backed stores, backups, synchronization transports) and
  for the network and the terminal (HTTP, gRPC, websockets, MCP, command line, registry downloads).
  Examples, generated fixtures and tests are not part of the program.
\<close>

end
